(* ===== verification/Prelude.thy ===== *)
theory Prelude
  imports Main "HOL-Library.Word" "HOL-Library.List_Lexorder" "HOL-Library.Char_ord"
    "HOL-Library.Product_Lexorder" "HOL-Library.Finite_Map" "HOL-Library.FSet" "HOL-Library.Multiset"
begin

text \<open>
  What every component of CE Drive shares: the value types of the Rust code, the pieces of the
  Rust standard library the source calls (UTF-8 strings, splitting, trimming, number formatting,
  stable sorting, finite maps), and the lemma collections the component proofs use.

  A Rust \<open>String\<close> is its sequence of UTF-8 bytes, an Isabelle \<open>string\<close> (a \<open>char\<close> is a byte).
  Rust compares strings bytewise, which is the list order over \<open>char\<close>; \<open>len()\<close> is the number of
  bytes; \<open>chars()\<close> is \<open>utf8_chars\<close> below. A \<open>u64\<close> is \<open>64 word\<close>, a \<open>u32\<close> is \<open>32 word\<close>: addition
  wraps, as it does in a release build.
\<close>

section \<open>Value types\<close>

type_synonym u64 = "64 word"
type_synonym u32 = "32 word"
type_synonym blob = "8 word list"
type_synonym 'k hash_set = "'k fset"

named_theorems tree_simps \<open>unfolding rules for the directory tree\<close>
named_theorems content_simps \<open>unfolding rules for the content map\<close>
named_theorems drive_simps \<open>unfolding rules for the drive handle\<close>

section \<open>Results\<close>

text \<open>Sequencing of fallible steps (the \<open>?\<close> operator).\<close>

fun res_bind :: "'e + 'a \<Rightarrow> ('a \<Rightarrow> 'e + 'b) \<Rightarrow> 'e + 'b" where
  "res_bind (Inl e) f = Inl e"
| "res_bind (Inr a) f = f a"

definition ok_or :: "'e \<Rightarrow> 'a option \<Rightarrow> 'e + 'a" where
  "ok_or e x = (case x of None \<Rightarrow> Inl e | Some a \<Rightarrow> Inr a)"

lemma ok_or_simps [simp]: "ok_or e None = Inl e" "ok_or e (Some a) = Inr a"
  by (simp_all add: ok_or_def)

lemma ok_or_eq_Inr [simp]: "ok_or e x = Inr a \<longleftrightarrow> x = Some a"
  by (cases x) simp_all

lemma ok_or_eq_Inl [simp]: "ok_or e x = Inl e' \<longleftrightarrow> x = None \<and> e' = e"
  by (cases x) auto

lemma res_bind_eq_Inr [simp]: "res_bind r f = Inr b \<longleftrightarrow> (\<exists>a. r = Inr a \<and> f a = Inr b)"
  by (cases r) simp_all

lemma res_bind_eq_Inl: "res_bind r f = Inl e \<longleftrightarrow> r = Inl e \<or> (\<exists>a. r = Inr a \<and> f a = Inl e)"
  by (cases r) simp_all

section \<open>Strings\<close>

text \<open>Splitting at a separator: \<open>''a//b''\<close> gives \<open>[''a'', '''', ''b'']\<close> and the empty string \<open>['''']\<close>.\<close>

fun split_on :: "char \<Rightarrow> string \<Rightarrow> string list" where
  "split_on c [] = [[]]"
| "split_on c (x # xs) =
     (if x = c then [] # split_on c xs
      else (case split_on c xs of [] \<Rightarrow> [[x]] | y # ys \<Rightarrow> (x # y) # ys))"

fun join_with :: "string \<Rightarrow> string list \<Rightarrow> string" where
  "join_with sep [] = []"
| "join_with sep [x] = x"
| "join_with sep (x # y # zs) = x @ sep @ join_with sep (y # zs)"

definition trim_start_matches :: "char \<Rightarrow> string \<Rightarrow> string" where
  "trim_start_matches c s = dropWhile (\<lambda>x. x = c) s"

definition trim_end_matches :: "char \<Rightarrow> string \<Rightarrow> string" where
  "trim_end_matches c s = rev (dropWhile (\<lambda>x. x = c) (rev s))"

definition trim_matches :: "char \<Rightarrow> string \<Rightarrow> string" where
  "trim_matches c s = trim_end_matches c (trim_start_matches c s)"

definition starts_with :: "string \<Rightarrow> string \<Rightarrow> bool" where
  "starts_with s p \<longleftrightarrow> take (length p) s = p"

definition str_contains :: "string \<Rightarrow> string \<Rightarrow> bool" where
  "str_contains s p \<longleftrightarrow> list_ex (\<lambda>i. starts_with (drop i s) p) [0..<Suc (length s)]"

lemma split_on_not_Nil [simp]: "split_on c s \<noteq> []"
  by (induction s) (auto split: list.splits)

lemma split_on_no_sep: "c \<notin> set s \<Longrightarrow> split_on c s = [s]"
  by (induction s) auto

lemma split_on_append_sep:
  "c \<notin> set a \<Longrightarrow> split_on c (a @ c # b) = a # split_on c b"
  by (induction a) auto

lemma split_on_append: "split_on c (a @ c # b) = split_on c a @ split_on c b"
  by (induction a) (auto split: list.splits simp: Cons_eq_append_conv)

lemma split_on_parts: "x \<in> set (split_on c s) \<Longrightarrow> c \<notin> set x"
  by (induction s arbitrary: x) (auto split: if_splits list.splits)

text \<open>Splitting undoes joining when no part holds the separator.\<close>

lemma split_on_join:
  "xs \<noteq> [] \<Longrightarrow> \<forall>x \<in> set xs. c \<notin> set x \<Longrightarrow> split_on c (join_with [c] xs) = xs"
  by (induction "[c]" xs rule: join_with.induct) (simp_all add: split_on_no_sep split_on_append_sep)

lemma join_with_append:
  "xs \<noteq> [] \<Longrightarrow> ys \<noteq> [] \<Longrightarrow> join_with sep (xs @ ys) = join_with sep xs @ sep @ join_with sep ys"
  by (induction sep xs rule: join_with.induct) (auto simp: neq_Nil_conv)

lemma join_with_eq_Nil: "join_with sep xs = [] \<Longrightarrow> sep \<noteq> [] \<Longrightarrow> xs = [] \<or> xs = [[]]"
  by (induction sep xs rule: join_with.induct) auto

lemma join_with_hd:
  "xs \<noteq> [] \<Longrightarrow> \<forall>x \<in> set xs. x \<noteq> [] \<Longrightarrow> hd (join_with sep xs) = hd (hd xs)"
  by (induction sep xs rule: join_with.induct) auto

lemma join_with_last:
  "xs \<noteq> [] \<Longrightarrow> \<forall>x \<in> set xs. x \<noteq> [] \<Longrightarrow> last (join_with sep xs) = last (last xs)"
proof (induction sep xs rule: join_with.induct)
  case (3 sep x y zs)
  moreover have "join_with sep (y # zs) \<noteq> []"
    using "3.prems" by (cases zs) auto
  ultimately show ?case by simp
qed auto

lemma trim_matches_id:
  "s \<noteq> [] \<Longrightarrow> hd s \<noteq> c \<Longrightarrow> last s \<noteq> c \<Longrightarrow> trim_matches c s = s"
proof -
  assume "s \<noteq> []" and "hd s \<noteq> c" and "last s \<noteq> c"
  then have "dropWhile (\<lambda>x. x = c) s = s" and "dropWhile (\<lambda>x. x = c) (rev s) = rev s"
    by (auto simp: dropWhile_eq_self_iff hd_rev)
  then show ?thesis
    by (simp add: trim_matches_def trim_start_matches_def trim_end_matches_def)
qed

lemma trim_matches_Cons_same [simp]: "trim_matches c (c # s) = trim_matches c s"
  by (simp add: trim_matches_def trim_start_matches_def)

lemma trim_matches_Nil [simp]: "trim_matches c [] = []"
  by (simp add: trim_matches_def trim_start_matches_def trim_end_matches_def)

lemma starts_with_append [simp]: "starts_with (p @ q) p"
  by (simp add: starts_with_def)

lemma starts_with_iff: "starts_with s p \<longleftrightarrow> (\<exists>q. s = p @ q)"
  by (metis append_take_drop_id starts_with_append starts_with_def)

section \<open>UTF-8\<close>

text \<open>The number of bytes of the character a lead byte starts, and the characters of a string.\<close>

definition utf8_width :: "char \<Rightarrow> nat" where
  "utf8_width b = (let n = of_char b :: nat in if n < 128 then 1 else if n < 224 then 2 else if n < 240 then 3 else 4)"

function utf8_chars :: "string \<Rightarrow> string list" where
  "utf8_chars [] = []"
| "utf8_chars (b # bs) =
     (b # take (utf8_width b - 1) bs) # utf8_chars (drop (utf8_width b - 1) bs)"
  by pat_completeness auto
termination
  by (relation "measure length") auto

lemma concat_utf8_chars [simp]: "concat (utf8_chars s) = s"
  by (induction s rule: utf8_chars.induct) auto

text \<open>
  The UTF-8 encodings of the characters \<open>str::trim\<close> removes (Unicode \<open>White_Space\<close>):
  U+0009 to U+000D, U+0020, U+0085, U+00A0, U+1680, U+2000 to U+200A, U+2028, U+2029, U+202F,
  U+205F, U+3000.
\<close>

definition white_space :: "string \<Rightarrow> bool" where
  "white_space c \<longleftrightarrow>
     (let ns = map of_char c :: nat list in
      (case ns of
        [a] \<Rightarrow> 9 \<le> a \<and> a \<le> 13 \<or> a = 32
      | [a, b] \<Rightarrow> a = 194 \<and> (b = 133 \<or> b = 160)
      | [a, b, d] \<Rightarrow>
          a = 225 \<and> b = 154 \<and> d = 128
          \<or> a = 226 \<and> b = 128 \<and> (128 \<le> d \<and> d \<le> 138 \<or> d = 168 \<or> d = 169 \<or> d = 175)
          \<or> a = 226 \<and> b = 129 \<and> d = 159
          \<or> a = 227 \<and> b = 128 \<and> d = 128
      | _ \<Rightarrow> False))"

definition trim :: "string \<Rightarrow> string" where
  "trim s = concat (rev (dropWhile white_space (rev (dropWhile white_space (utf8_chars s)))))"

text \<open>\<open>s.chars().take(n).collect()\<close>\<close>

definition take_chars :: "nat \<Rightarrow> string \<Rightarrow> string" where
  "take_chars n s = concat (take n (utf8_chars s))"

section \<open>Number formatting\<close>

definition digit_char :: "nat \<Rightarrow> char" where
  "digit_char d = char_of (if d < 10 then 48 + d else 87 + d)"

fun digits_base :: "nat \<Rightarrow> nat \<Rightarrow> string" where
  "digits_base b n =
     (if b < 2 \<or> n < b then [digit_char n] else digits_base b (n div b) @ [digit_char (n mod b)])"

declare digits_base.simps [simp del]

definition dec_string :: "u64 \<Rightarrow> string" where
  "dec_string w = digits_base 10 (unat w)"

text \<open>\<open>{:0kx}\<close>: hexadecimal, padded with zeros to at least \<open>k\<close> digits.\<close>

definition hex_padded :: "nat \<Rightarrow> u64 \<Rightarrow> string" where
  "hex_padded k w = (let s = digits_base 16 (unat w) in replicate (k - length s) (CHR ''0'') @ s)"

section \<open>Sorting\<close>

text \<open>
  \<open>slice::sort_by\<close> is stable. Ascending by a key it is \<open>sort_key\<close>; with the comparison's
  arguments swapped (descending) it is \<open>sort_desc\<close>: equal keys keep their order.
\<close>

definition sort_desc :: "('a \<Rightarrow> 'k::linorder) \<Rightarrow> 'a list \<Rightarrow> 'a list" where
  "sort_desc f xs = rev (sort_key f (rev xs))"

lemma set_sort_desc [simp]: "set (sort_desc f xs) = set xs"
  by (simp add: sort_desc_def)

lemma mset_sort_desc [simp]: "mset (sort_desc f xs) = mset xs"
  by (simp add: sort_desc_def)

lemma length_sort_desc [simp]: "length (sort_desc f xs) = length xs"
  by (simp add: sort_desc_def)

lemma sort_desc_sorted: "sorted (rev (map f (sort_desc f xs)))"
  by (simp add: sort_desc_def rev_map)

lemma sort_desc_hd_max: "x \<in> set xs \<Longrightarrow> f x \<le> f (hd (sort_desc f xs))"
proof -
  assume x: "x \<in> set xs"
  let ?ys = "sort_key f (rev xs)"
  have ne: "?ys \<noteq> []" and mem: "x \<in> set ?ys"
    using x by (auto simp flip: set_empty)
  have "hd (sort_desc f xs) = last ?ys"
    by (simp add: sort_desc_def hd_rev)
  moreover have "f x \<le> f (last ?ys)"
  proof -
    obtain zs z where ys: "?ys = zs @ [z]"
      using ne by (metis rev_exhaust)
    have "sorted (map f (zs @ [z]))"
      using ys by (metis sorted_sort_key)
    with mem ys show ?thesis
      by (auto simp: sorted_append)
  qed
  ultimately show ?thesis by simp
qed

text \<open>
  Lists strictly ascending in a key (an op log): a list is determined by its set, and inserting a
  fresh key at its partition point keeps it ascending.
\<close>

abbreviation asc_by :: "('a \<Rightarrow> 'k::linorder) \<Rightarrow> 'a list \<Rightarrow> bool" where
  "asc_by f \<equiv> sorted_wrt (\<lambda>a b. f a < f b)"

lemma asc_by_distinct: "asc_by f xs \<Longrightarrow> distinct (map f xs)"
  by (induction xs) auto

lemma asc_by_sorted: "asc_by f xs \<Longrightarrow> sorted (map f xs)"
  by (induction xs) (auto simp: less_imp_le)

lemma asc_by_set_unique: "asc_by f xs \<Longrightarrow> asc_by f ys \<Longrightarrow> set xs = set ys \<Longrightarrow> xs = ys"
proof (induction xs arbitrary: ys)
  case Nil
  then show ?case by simp
next
  case (Cons x xs)
  then obtain y ys' where ys: "ys = y # ys'"
    by (cases ys) auto
  have "x = y"
    using Cons.prems ys by (metis list.set_intros(1) not_less_iff_gr_or_eq set_ConsD sorted_wrt.simps(2))
  moreover have "set xs = set ys'"
    using Cons.prems ys \<open>x = y\<close>
    by (auto simp: set_eq_iff)
  ultimately show ?case
    using Cons ys by auto
qed

definition before :: "('a \<Rightarrow> 'k::linorder) \<Rightarrow> 'k \<Rightarrow> 'a list \<Rightarrow> 'a list" where
  "before f k xs = takeWhile (\<lambda>x. f x < k) xs"

definition from_key :: "('a \<Rightarrow> 'k::linorder) \<Rightarrow> 'k \<Rightarrow> 'a list \<Rightarrow> 'a list" where
  "from_key f k xs = dropWhile (\<lambda>x. f x < k) xs"

lemma before_from_key [simp]: "before f k xs @ from_key f k xs = xs"
  by (simp add: before_def from_key_def)

lemma before_less: "x \<in> set (before f k xs) \<Longrightarrow> f x < k"
  by (auto simp: before_def dest: set_takeWhileD)

lemma set_before_from: "set xs = set (before f k xs) \<union> set (from_key f k xs)"
  by (metis before_from_key set_append)

lemma from_key_ge: "asc_by f xs \<Longrightarrow> x \<in> set (from_key f k xs) \<Longrightarrow> k \<le> f x"
  by (induction xs) (auto simp: from_key_def not_less split: if_splits)

lemma from_key_hd_iff:
  "asc_by f xs \<Longrightarrow> (from_key f k xs \<noteq> [] \<and> f (hd (from_key f k xs)) = k) \<longleftrightarrow> k \<in> f ` set xs"
proof (induction xs)
  case (Cons x xs)
  then show ?case
    by (cases "f x < k") (force simp: from_key_def not_less)+
qed (simp add: from_key_def)

lemma asc_by_insert:
  assumes "asc_by f xs" and "k \<notin> f ` set xs" and "f x = k"
  shows "asc_by f (before f k xs @ x # from_key f k xs)"
proof -
  have "asc_by f (before f k xs)" and "asc_by f (from_key f k xs)"
    using assms(1) by (simp_all add: before_def from_key_def sorted_wrt_takeWhile sorted_wrt_dropWhile)
  moreover have "f x < f y" if "y \<in> set (from_key f k xs)" for y
  proof -
    have "k \<le> f y"
      using from_key_ge [OF assms(1) that] .
    moreover have "f y \<noteq> k"
      using that assms(2) set_before_from [of xs f k] by (metis UnI2 image_eqI)
    ultimately show ?thesis using assms(3) by simp
  qed
  moreover have "f y < f x" if "y \<in> set (before f k xs)" for y
    using before_less [OF that] assms(3) by simp
  ultimately show ?thesis
    by (fastforce simp: sorted_wrt_append)
qed

lemma asc_by_sort_key:
  "inj_on f (set xs) \<Longrightarrow> asc_by f (sort_key f (remdups xs))"
proof -
  assume inj: "inj_on f (set xs)"
  have "distinct (map f (sort_key f (remdups xs)))"
    using inj by (simp add: distinct_map)
  moreover have "sorted (map f (sort_key f (remdups xs)))"
    by simp
  ultimately have "sorted_wrt (<) (map f (sort_key f (remdups xs)))"
    by (simp add: strict_sorted_iff)
  then show ?thesis
    by (simp add: sorted_wrt_map)
qed

text \<open>Sorting a list that is already strictly ascending changes nothing.\<close>

lemma sort_key_asc_by: "asc_by f xs \<Longrightarrow> sort_key f xs = xs"
  by (simp add: asc_by_sorted sorted_sort_id sort_key_id_if_sorted)

lemma sort_key_filter_asc: "asc_by f xs \<Longrightarrow> sort_key f (filter P xs) = filter P xs"
  by (simp add: sort_key_asc_by sorted_wrt_filter)

lemma distinct_remdups_adj_sorted: "sorted xs \<Longrightarrow> distinct (remdups_adj xs)"
  by (induction xs rule: remdups_adj.induct) auto

section \<open>Finite maps\<close>

lemma fmupd_triv: "fmlookup m k = Some v \<Longrightarrow> fmupd k v m = m"
  by (rule fmap_ext) auto

lemma fmdrop_triv: "fmlookup m k = None \<Longrightarrow> fmdrop k m = m"
  by (rule fmap_ext) auto

lemma fmupd_twice [simp]: "fmupd k v (fmupd k w m) = fmupd k v m"
  by (rule fmap_ext) auto

lemma fmdrop_fmupd_absorb: "fmlookup m k = None \<Longrightarrow> fmdrop k (fmupd k v m) = m"
  by (rule fmap_ext) auto

end
