(* ===== verification/DriveTree.thy ===== *)
theory DriveTree
  imports Prelude
begin

text \<open>
  The directory tree of \<open>crates/ce-drive-core/src/tree.rs\<close>: a move CRDT. The state is the sorted move
  log, the edge of every placed node, and a derived index from a directory to its named children;
  \<open>integrate\<close> inserts an operation by undoing, doing and redoing. The model keeps the three
  fields of \<open>DriveTree\<close> and every operation and query of the file.

  A \<open>HashMap\<close> is a finite map, a \<open>BTreeSet\<close> a finite set read in ascending order.
\<close>

section \<open>Data\<close>

type_synonym node_id = string
type_synonym replica_id = string

definition ROOT :: node_id where "ROOT = ''ROOT''"
definition TRASH :: node_id where "TRASH = ''TRASH''"
definition LIMBO :: node_id where "LIMBO = ''LIMBO''"

lemma reserved_distinct [simp]:
  "ROOT \<noteq> TRASH" "TRASH \<noteq> ROOT" "ROOT \<noteq> LIMBO" "LIMBO \<noteq> ROOT" "TRASH \<noteq> LIMBO" "LIMBO \<noteq> TRASH"
  by (simp_all add: ROOT_def TRASH_def LIMBO_def)

datatype timestamp = Timestamp (lamport: u64) (replica: replica_id)

text \<open>The derived order: by clock, then by replica.\<close>

instantiation timestamp :: linorder
begin

definition less_eq_timestamp :: "timestamp \<Rightarrow> timestamp \<Rightarrow> bool" where
  "less_eq_timestamp a b \<longleftrightarrow> (lamport a, replica a) \<le> (lamport b, replica b)"

definition less_timestamp :: "timestamp \<Rightarrow> timestamp \<Rightarrow> bool" where
  "less_timestamp a b \<longleftrightarrow> (lamport a, replica a) < (lamport b, replica b)"

instance
  by standard (auto simp: less_eq_timestamp_def less_timestamp_def timestamp.expand)

end

lemma less_timestamp_simp [simp]:
  "Timestamp a r < Timestamp b q \<longleftrightarrow> a < b \<or> a = b \<and> r < q"
  by (auto simp: less_timestamp_def)

lemma lamport_less_timestamp: "lamport a < lamport b \<Longrightarrow> a < b"
  by (cases a; cases b) simp

lemma timestamp_less_lamport: "a < b \<Longrightarrow> lamport a \<le> lamport b"
  by (cases a; cases b) auto

datatype node_kind = Dir | File

record move_op =
  op_ts :: timestamp
  op_child :: node_id
  op_new_parent :: node_id
  op_new_name :: string
  op_kind :: node_kind

record edge =
  e_parent :: node_id
  e_name :: string
  e_kind :: node_kind

record log_entry =
  le_op :: move_op
  le_old :: "edge option"

type_synonym edge_map = "(node_id, edge) fmap"
type_synonym child_index = "(node_id, (string \<times> node_id) fset) fmap"

record drive_tree =
  t_log :: "log_entry list"
  t_edges :: edge_map
  t_children :: child_index

definition tree_new :: drive_tree where
  "tree_new = \<lparr>t_log = [], t_edges = fmempty, t_children = fmempty\<rparr>"

section \<open>Operations\<close>

text \<open>The bounded parent walk of \<open>is_ancestor\<close>: one iteration per unit of fuel.\<close>

fun anc_walk :: "nat \<Rightarrow> edge_map \<Rightarrow> node_id \<Rightarrow> node_id \<Rightarrow> bool" where
  "anc_walk 0 E a cur = False"
| "anc_walk (Suc k) E a cur =
     (if cur = a then True
      else (case fmlookup E cur of Some e \<Rightarrow> anc_walk k E a (e_parent e) | None \<Rightarrow> False))"

definition edges_ancestor :: "edge_map \<Rightarrow> node_id \<Rightarrow> node_id \<Rightarrow> bool" where
  "edges_ancestor E a n = anc_walk (Suc (fcard (fmdom E))) E a n"

definition is_ancestor :: "drive_tree \<Rightarrow> node_id \<Rightarrow> node_id \<Rightarrow> bool" where
  "is_ancestor t a n = edges_ancestor (t_edges t) a n"

definition edge_of :: "move_op \<Rightarrow> edge" where
  "edge_of op = \<lparr>e_parent = op_new_parent op, e_name = op_new_name op, e_kind = op_kind op\<rparr>"

definition index_remove :: "child_index \<Rightarrow> node_id \<Rightarrow> string \<times> node_id \<Rightarrow> child_index" where
  "index_remove C p x = (case fmlookup C p of None \<Rightarrow> C | Some s \<Rightarrow> fmupd p (s |-| {|x|}) C)"

definition index_insert :: "child_index \<Rightarrow> node_id \<Rightarrow> string \<times> node_id \<Rightarrow> child_index" where
  "index_insert C p x =
     fmupd p (finsert x (case fmlookup C p of None \<Rightarrow> {||} | Some s \<Rightarrow> s)) C"

text \<open>Drop a node's index entry, if it has an edge.\<close>

definition unindex :: "edge_map \<Rightarrow> child_index \<Rightarrow> node_id \<Rightarrow> child_index" where
  "unindex E C c =
     (case fmlookup E c of None \<Rightarrow> C | Some e \<Rightarrow> index_remove C (e_parent e) (e_name e, c))"

definition do_move :: "drive_tree \<Rightarrow> move_op \<Rightarrow> drive_tree \<times> edge option" where
  "do_move t op =
     (let old = fmlookup (t_edges t) (op_child op) in
      if op_new_parent op = op_child op \<or> is_ancestor t (op_child op) (op_new_parent op)
      then (t, old)
      else (t\<lparr>t_children := index_insert (unindex (t_edges t) (t_children t) (op_child op))
                (op_new_parent op) (op_new_name op, op_child op),
              t_edges := fmupd (op_child op) (edge_of op) (t_edges t)\<rparr>, old))"

definition undo_move :: "drive_tree \<Rightarrow> log_entry \<Rightarrow> drive_tree" where
  "undo_move t entry =
     (let c = op_child (le_op entry); C = unindex (t_edges t) (t_children t) c in
      (case le_old entry of
        Some prev \<Rightarrow>
          t\<lparr>t_children := index_insert C (e_parent prev) (e_name prev, c),
            t_edges := fmupd c prev (t_edges t)\<rparr>
      | None \<Rightarrow> t\<lparr>t_children := C, t_edges := fmdrop c (t_edges t)\<rparr>))"

text \<open>Do one operation and append its entry, with the edge it displaced, to the log.\<close>

definition do_logged :: "drive_tree \<Rightarrow> move_op \<Rightarrow> drive_tree" where
  "do_logged t op =
     (let (t', old) = do_move t op in t'\<lparr>t_log := t_log t' @ [\<lparr>le_op = op, le_old = old\<rparr>]\<rparr>)"

definition entry_ts :: "log_entry \<Rightarrow> timestamp" where
  "entry_ts e = op_ts (le_op e)"

definition integrate :: "drive_tree \<Rightarrow> move_op \<Rightarrow> drive_tree" where
  "integrate t op =
     (let pre = before entry_ts (op_ts op) (t_log t);
          tail = from_key entry_ts (op_ts op) (t_log t) in
      if tail \<noteq> [] \<and> entry_ts (hd tail) = op_ts op then t
      else
        (let t1 = fold (\<lambda>e t. undo_move t e) (rev tail) (t\<lparr>t_log := pre\<rparr>);
             t2 = do_logged t1 op in
         fold (\<lambda>e t. do_logged t (le_op e)) tail t2))"

abbreviation tree_apply :: "drive_tree \<Rightarrow> move_op \<Rightarrow> drive_tree" where
  "tree_apply \<equiv> integrate"

definition apply_all :: "move_op list \<Rightarrow> drive_tree \<Rightarrow> drive_tree" where
  "apply_all ops t = fold (\<lambda>op t. tree_apply t op) ops t"

section \<open>Queries\<close>

definition tree_edge :: "drive_tree \<Rightarrow> node_id \<Rightarrow> edge option" where
  "tree_edge t n = fmlookup (t_edges t) n"

definition is_trashed :: "drive_tree \<Rightarrow> node_id \<Rightarrow> bool" where
  "is_trashed t n = is_ancestor t TRASH n"

definition is_limbo :: "drive_tree \<Rightarrow> node_id \<Rightarrow> bool" where
  "is_limbo t n = is_ancestor t LIMBO n"

definition is_live :: "drive_tree \<Rightarrow> node_id \<Rightarrow> bool" where
  "is_live t n =
     (case tree_edge t n of
        Some _ \<Rightarrow> \<not> is_ancestor t TRASH n \<and> \<not> is_ancestor t LIMBO n
      | None \<Rightarrow> n = ROOT)"

definition kids :: "drive_tree \<Rightarrow> node_id \<Rightarrow> (string \<times> node_id) fset" where
  "kids t p = (case fmlookup (t_children t) p of None \<Rightarrow> {||} | Some s \<Rightarrow> s)"

definition raw_children :: "drive_tree \<Rightarrow> node_id \<Rightarrow> (string \<times> node_id) list" where
  "raw_children t p = sorted_list_of_fset (kids t p)"

definition defining_ts :: "drive_tree \<Rightarrow> node_id \<Rightarrow> timestamp" where
  "defining_ts t n =
     (case find (\<lambda>e. op_child (le_op e) = n) (rev (t_log t)) of
        Some e \<Rightarrow> entry_ts e
      | None \<Rightarrow> Timestamp 0 [])"

definition short :: "string \<Rightarrow> string" where
  "short s = take_chars 8 s"

definition kind_of :: "drive_tree \<Rightarrow> node_id \<Rightarrow> node_kind" where
  "kind_of t n = (case tree_edge t n of Some e \<Rightarrow> e_kind e | None \<Rightarrow> File)"

definition conflict_name :: "string \<Rightarrow> timestamp \<Rightarrow> string" where
  "conflict_name name t = name @ ''.conflict-'' @ short (replica t) @ ''-'' @ dec_string (lamport t)"

text \<open>\<open>BTreeMap<String, Vec<NodeId>>\<close>: the ids of each name, names ascending.\<close>

definition group_by_name :: "(string \<times> node_id) list \<Rightarrow> (string \<times> node_id list) list" where
  "group_by_name xs =
     map (\<lambda>n. (n, map snd (filter (\<lambda>x. fst x = n) xs))) (sort (remdups (map fst xs)))"

text \<open>The live children a listing of \<open>p\<close> shows: outside the trash, trashed children are hidden.\<close>

definition listed_children :: "drive_tree \<Rightarrow> node_id \<Rightarrow> (string \<times> node_id) list" where
  "listed_children t p = filter (\<lambda>(_, c). \<not> (p \<noteq> TRASH \<and> is_trashed t c)) (raw_children t p)"

definition ranked :: "drive_tree \<Rightarrow> node_id list \<Rightarrow> (timestamp \<times> node_id) list" where
  "ranked t ids = sort_desc fst (map (\<lambda>c. (defining_ts t c, c)) ids)"

definition render_losers ::
    "drive_tree \<Rightarrow> string \<Rightarrow> (timestamp \<times> node_id) list \<Rightarrow> (string \<times> node_id \<times> node_kind) list" where
  "render_losers t name xs = map (\<lambda>(s, c). (conflict_name name s, c, kind_of t c)) xs"

definition render_group ::
    "drive_tree \<Rightarrow> string \<times> node_id list \<Rightarrow> (string \<times> node_id \<times> node_kind) list" where
  "render_group t g =
     (case g of (name, ids) \<Rightarrow>
        (case ids of
           [c] \<Rightarrow> [(name, c, kind_of t c)]
         | _ \<Rightarrow>
           (case ranked t ids of
              [] \<Rightarrow> []
            | (s, c) # losers \<Rightarrow> (name, c, kind_of t c) # render_losers t name losers)))"

definition readdir :: "drive_tree \<Rightarrow> node_id \<Rightarrow> (string \<times> node_id \<times> node_kind) list" where
  "readdir t p = sort_key fst (concat (map (render_group t) (group_by_name (listed_children t p))))"

text \<open>The loop of \<open>path\<close>: the names from the node up to a child of the root, then reversed.\<close>

fun path_walk :: "nat \<Rightarrow> edge_map \<Rightarrow> node_id \<Rightarrow> string list \<Rightarrow> string list option" where
  "path_walk 0 E cur parts = None"
| "path_walk (Suc k) E cur parts =
     (case fmlookup E cur of
        Some e \<Rightarrow>
          (if e_parent e = ROOT then Some (rev (parts @ [e_name e]))
           else path_walk k E (e_parent e) (parts @ [e_name e]))
      | None \<Rightarrow> None)"

definition path :: "drive_tree \<Rightarrow> node_id \<Rightarrow> string option" where
  "path t n =
     (if n = ROOT then Some ''/''
      else map_option (\<lambda>ps. ''/'' @ join_with ''/'' ps)
             (path_walk (Suc (fcard (fmdom (t_edges t)))) (t_edges t) n []))"

fun resolve_from :: "drive_tree \<Rightarrow> node_id \<Rightarrow> string list \<Rightarrow> node_id option" where
  "resolve_from t cur [] = Some cur"
| "resolve_from t cur (nm # nms) =
     (case find (\<lambda>(name, _). name = nm) (readdir t cur) of
        None \<Rightarrow> None
      | Some (_, c, _) \<Rightarrow> resolve_from t c nms)"

definition resolve :: "drive_tree \<Rightarrow> string \<Rightarrow> node_id option" where
  "resolve t p =
     (let trimmed = trim_matches (CHR ''/'') p in
      if trimmed = [] then Some ROOT else resolve_from t ROOT (split_on (CHR ''/'') trimmed))"

definition live_count :: "drive_tree \<Rightarrow> nat" where
  "live_count t = length (filter (is_live t) (sorted_list_of_fset (fmdom (t_edges t))))"

definition log_len :: "drive_tree \<Rightarrow> nat" where
  "log_len t = length (t_log t)"

definition log_max_ts :: "drive_tree \<Rightarrow> timestamp option" where
  "log_max_ts t = (if t_log t = [] then None else Some (entry_ts (last (t_log t))))"

end
