(* ===== verification/OpLog.thy ===== *)
theory OpLog
  imports Prelude
begin

text \<open>
  The interface of a replicated operation log: a state machine that receives keyed operations in
  any order, with duplicates, and whose visible state depends only on the key-ordered set of
  operations it has seen. It is the contract \<open>ce-coord\<close> relies on (its \<open>StateMachine\<close> and
  \<open>MergeMachine\<close>), and what \<open>DriveTree\<close>, the content merge of \<open>Drive\<close> and the browser's tree each
  promise. The lemmas of the locale are proved once and instantiated for each of them.
\<close>

section \<open>Inserting into a key-ordered log\<close>

definition insert_op :: "('o \<Rightarrow> 'k::linorder) \<Rightarrow> 'o \<Rightarrow> 'o list \<Rightarrow> 'o list" where
  "insert_op key op ops =
     (if key op \<in> key ` set ops then ops
      else before key (key op) ops @ op # from_key key (key op) ops)"

definition insert_all :: "('o \<Rightarrow> 'k::linorder) \<Rightarrow> 'o list \<Rightarrow> 'o list \<Rightarrow> 'o list" where
  "insert_all key xs ops = fold (insert_op key) xs ops"

lemma insert_all_simps [simp]:
  "insert_all key [] ops = ops"
  "insert_all key (x # xs) ops = insert_all key xs (insert_op key x ops)"
  by (simp_all add: insert_all_def)

lemma insert_all_append [simp]:
  "insert_all key (xs @ ys) ops = insert_all key ys (insert_all key xs ops)"
  by (simp add: insert_all_def)

lemma insert_op_asc: "asc_by key ops \<Longrightarrow> asc_by key (insert_op key op ops)"
  by (simp add: insert_op_def asc_by_insert)

lemma insert_all_asc: "asc_by key ops \<Longrightarrow> asc_by key (insert_all key xs ops)"
  by (induction xs arbitrary: ops) (simp_all add: insert_op_asc)

lemma set_insert_op:
  "set (insert_op key op ops) = (if key op \<in> key ` set ops then set ops else insert op (set ops))"
  using set_before_from [of ops key "key op"] by (auto simp: insert_op_def)

lemma set_insert_op_subset: "set (insert_op key op ops) \<subseteq> insert op (set ops)"
  by (auto simp: set_insert_op)

lemma set_insert_op_unique:
  "inj_on key (insert op (set ops)) \<Longrightarrow> set (insert_op key op ops) = insert op (set ops)"
  by (auto simp: set_insert_op inj_on_def)

lemma set_insert_all_unique:
  "inj_on key (set xs \<union> set ops) \<Longrightarrow> set (insert_all key xs ops) = set xs \<union> set ops"
proof (induction xs arbitrary: ops)
  case (Cons x xs)
  have "inj_on key (insert x (set ops))"
    using Cons.prems by (rule inj_on_subset) auto
  then have eq: "set (insert_op key x ops) = insert x (set ops)"
    by (rule set_insert_op_unique)
  have "inj_on key (set xs \<union> set (insert_op key x ops))"
    using Cons.prems by (simp add: eq)
  from Cons.IH [OF this] show ?case
    by (auto simp: eq)
qed simp

lemma set_insert_all_subset: "set (insert_all key xs ops) \<subseteq> set xs \<union> set ops"
proof (induction xs arbitrary: ops)
  case (Cons x xs)
  from Cons.IH [of "insert_op key x ops"] show ?case
    using set_insert_op_subset [of key x ops] by auto
qed simp

text \<open>Delivering in any order and with duplicates gives the sorted list of the distinct operations.\<close>

lemma insert_all_canonical:
  assumes "inj_on key (set xs)"
  shows "insert_all key xs [] = sort_key key (remdups xs)"
proof (rule asc_by_set_unique [where f = key])
  show "asc_by key (insert_all key xs [])"
    by (rule insert_all_asc) simp
  show "asc_by key (sort_key key (remdups xs))"
    using assms by (rule asc_by_sort_key)
  show "set (insert_all key xs []) = set (sort_key key (remdups xs))"
    using set_insert_all_unique [of key xs "[]"] assms by simp
qed

lemma insert_all_cong:
  "inj_on key (set xs) \<Longrightarrow> set xs = set ys \<Longrightarrow> insert_all key xs [] = insert_all key ys []"
  by (rule asc_by_set_unique [where f = key])
    (simp_all add: insert_all_asc set_insert_all_unique)

lemma insert_all_id: "asc_by key xs \<Longrightarrow> insert_all key xs [] = xs"
proof (rule asc_by_set_unique [where f = key])
  assume asc: "asc_by key xs"
  then have "inj_on key (set xs)"
    using asc_by_distinct [OF asc] by (simp add: distinct_map)
  then show "set (insert_all key xs []) = set xs"
    using set_insert_all_unique [of key xs "[]"] by simp
qed (simp_all add: insert_all_asc)

lemma insert_op_append_last:
  assumes "\<forall>x \<in> set ops. key x < key op"
  shows "insert_op key op ops = ops @ [op]"
proof -
  have "before key (key op) ops = ops" and "from_key key (key op) ops = []"
    using assms by (simp_all add: before_def from_key_def takeWhile_eq_all_conv)
  moreover have "key op \<notin> key ` set ops"
    using assms by auto
  ultimately show ?thesis by (simp add: insert_op_def)
qed

section \<open>The interface\<close>

locale convergent_log =
  fixes step :: "'s \<Rightarrow> 'o \<Rightarrow> 's"
    and init :: 's
    and key :: "'o \<Rightarrow> 'k::linorder"
    and log_inv :: "'s \<Rightarrow> 'o list \<Rightarrow> bool"
    and view :: "'s \<Rightarrow> 'v"
  assumes init_inv: "log_inv init []"
    and step_inv: "log_inv s ops \<Longrightarrow> asc_by key ops \<Longrightarrow> log_inv (step s op) (insert_op key op ops)"
    and view_det: "log_inv s ops \<Longrightarrow> log_inv t ops \<Longrightarrow> view s = view t"
begin

lemma run_inv_from:
  "log_inv s ops \<Longrightarrow> asc_by key ops \<Longrightarrow>
    log_inv (fold (\<lambda>op s. step s op) xs s) (insert_all key xs ops)"
  by (induction xs arbitrary: s ops) (simp_all add: step_inv insert_op_asc)

lemma run_inv: "log_inv (fold (\<lambda>op s. step s op) xs init) (insert_all key xs [])"
  by (rule run_inv_from [OF init_inv]) simp

text \<open>Two replicas that saw the same set of operations agree, whatever the order and repetition.\<close>

lemma converges:
  assumes "inj_on key (set xs)" and "set xs = set ys"
  shows "view (fold (\<lambda>op s. step s op) xs init) = view (fold (\<lambda>op s. step s op) ys init)"
  by (rule view_det [OF run_inv]) (simp add: insert_all_cong [OF assms] run_inv)

lemma canonical:
  assumes "inj_on key (set xs)"
  shows "view (fold (\<lambda>op s. step s op) xs init)
       = view (fold (\<lambda>op s. step s op) (sort_key key (remdups xs)) init)"
  by (rule converges) (simp_all add: assms)

lemma redelivery:
  assumes "log_inv s ops" and "asc_by key ops" and "key op \<in> key ` set ops"
  shows "view (step s op) = view s"
proof -
  have "insert_op key op ops = ops"
    using assms(3) by (simp add: insert_op_def)
  with step_inv [OF assms(1,2), of op] have "log_inv (step s op) ops" by simp
  then show ?thesis using assms(1) by (rule view_det)
qed

text \<open>Two histories merge to the same state from either side.\<close>

lemma merge_commutes:
  assumes "inj_on key (set xs \<union> set ys)"
  shows "view (fold (\<lambda>op s. step s op) ys (fold (\<lambda>op s. step s op) xs init))
       = view (fold (\<lambda>op s. step s op) xs (fold (\<lambda>op s. step s op) ys init))"
  using converges [of "xs @ ys" "ys @ xs"] assms by (simp add: Un_commute)

end

end
