(* ===== verification/TreeConverge.thy ===== *)
theory TreeConverge
  imports DriveTree OpLog
begin

text \<open>
  Convergence of the directory tree. The abstract state is the edge map alone, and an operation is
  one guarded update of it (\<open>move_edges\<close>); a log of operations is replayed in timestamp order. The
  lemmas show that the code's log always is that replay annotated with the displaced edges, that
  undoing it is exact, and that the child index agrees with the edges. So \<open>DriveTree\<close> is a
  \<open>convergent_log\<close>.
\<close>

section \<open>The edge map as abstract state\<close>

definition move_edges :: "edge_map \<Rightarrow> move_op \<Rightarrow> edge_map" where
  "move_edges E op =
     (if op_new_parent op = op_child op \<or> edges_ancestor E (op_child op) (op_new_parent op) then E
      else fmupd (op_child op) (edge_of op) E)"

definition undo_edges :: "edge_map \<Rightarrow> log_entry \<Rightarrow> edge_map" where
  "undo_edges E entry =
     (case le_old entry of
        Some prev \<Rightarrow> fmupd (op_child (le_op entry)) prev E
      | None \<Rightarrow> fmdrop (op_child (le_op entry)) E)"

definition replay :: "edge_map \<Rightarrow> move_op list \<Rightarrow> edge_map" where
  "replay E ops = fold (\<lambda>op E. move_edges E op) ops E"

fun annot :: "edge_map \<Rightarrow> move_op list \<Rightarrow> log_entry list" where
  "annot E [] = []"
| "annot E (op # ops) =
     \<lparr>le_op = op, le_old = fmlookup E (op_child op)\<rparr> # annot (move_edges E op) ops"

lemma replay_simps [simp]:
  "replay E [] = E"
  "replay E (op # ops) = replay (move_edges E op) ops"
  by (simp_all add: replay_def)

lemma replay_append [simp]: "replay E (xs @ ys) = replay (replay E xs) ys"
  by (simp add: replay_def)

lemma annot_append [simp]: "annot E (xs @ ys) = annot E xs @ annot (replay E xs) ys"
  by (induction xs arbitrary: E) simp_all

lemma annot_ops [simp]: "map le_op (annot E ops) = ops"
  by (induction ops arbitrary: E) simp_all

lemma annot_eq_Nil [simp]: "annot E ops = [] \<longleftrightarrow> ops = []"
  by (cases ops) simp_all

lemma hd_annot_ts: "ops \<noteq> [] \<Longrightarrow> entry_ts (hd (annot E ops)) = op_ts (hd ops)"
  by (cases ops) (simp_all add: entry_ts_def)

lemma before_annot: "before entry_ts k (annot E ops) = annot E (before op_ts k ops)"
  by (induction ops arbitrary: E) (simp_all add: before_def entry_ts_def)

lemma from_key_annot:
  "from_key entry_ts k (annot E ops) = annot (replay E (before op_ts k ops)) (from_key op_ts k ops)"
  by (induction ops arbitrary: E) (simp_all add: before_def from_key_def entry_ts_def)

text \<open>Undoing an entry restores the edges it was applied to, whether it moved or was skipped.\<close>

lemma undo_move_edges:
  "undo_edges (move_edges E op) \<lparr>le_op = op, le_old = fmlookup E (op_child op)\<rparr> = E"
  by (cases "fmlookup E (op_child op)")
    (auto simp: undo_edges_def move_edges_def fmupd_triv fmdrop_triv fmdrop_fmupd_absorb)

lemma undo_annot: "fold (\<lambda>e E. undo_edges E e) (rev (annot E ops)) (replay E ops) = E"
  by (induction ops arbitrary: E) (simp_all add: undo_move_edges)

section \<open>The code's operations on the abstract state\<close>

lemma do_move_refines:
  "t_edges (fst (do_move t op)) = move_edges (t_edges t) op"
  "snd (do_move t op) = fmlookup (t_edges t) (op_child op)"
  "t_log (fst (do_move t op)) = t_log t"
  by (simp_all add: do_move_def move_edges_def is_ancestor_def Let_def)

lemma do_logged_refines [simp]:
  "t_edges (do_logged t op) = move_edges (t_edges t) op"
  "t_log (do_logged t op) =
     t_log t @ [\<lparr>le_op = op, le_old = fmlookup (t_edges t) (op_child op)\<rparr>]"
  by (simp_all add: do_logged_def Let_def split_beta do_move_refines)

lemma undo_move_refines [simp]:
  "t_edges (undo_move t e) = undo_edges (t_edges t) e"
  "t_log (undo_move t e) = t_log t"
  by (auto simp: undo_move_def undo_edges_def Let_def split: option.splits)

lemma fold_undo_refines:
  "t_edges (fold (\<lambda>e t. undo_move t e) es t) = fold (\<lambda>e E. undo_edges E e) es (t_edges t)"
  "t_log (fold (\<lambda>e t. undo_move t e) es t) = t_log t"
  by (induction es arbitrary: t) simp_all

lemma fold_redo_refines:
  "t_edges (fold (\<lambda>e t. do_logged t (le_op e)) es t) = replay (t_edges t) (map le_op es)"
  "t_log (fold (\<lambda>e t. do_logged t (le_op e)) es t) = t_log t @ annot (t_edges t) (map le_op es)"
  by (induction es arbitrary: t) simp_all

section \<open>The child index\<close>

definition indexed :: "child_index \<Rightarrow> node_id \<Rightarrow> (string \<times> node_id) fset" where
  "indexed C p = (case fmlookup C p of None \<Rightarrow> {||} | Some s \<Rightarrow> s)"

definition index_ok :: "drive_tree \<Rightarrow> bool" where
  "index_ok t \<longleftrightarrow>
     (\<forall>p n c. (n, c) |\<in>| kids t p \<longleftrightarrow>
        (\<exists>e. fmlookup (t_edges t) c = Some e \<and> e_parent e = p \<and> e_name e = n))"

lemma kids_indexed: "kids t p = indexed (t_children t) p"
  by (simp add: kids_def indexed_def)

lemma indexed_remove [simp]:
  "indexed (index_remove C p x) q = (if q = p then indexed C p |-| {|x|} else indexed C q)"
  by (auto simp: indexed_def index_remove_def split: option.splits)

lemma indexed_insert [simp]:
  "indexed (index_insert C p x) q = (if q = p then finsert x (indexed C p) else indexed C q)"
  by (auto simp: indexed_def index_insert_def split: option.splits)

text \<open>The index without one node's entry: what it is for every other node.\<close>

lemma unindex_ok:
  assumes "index_ok t"
  shows "(n, d) |\<in>| indexed (unindex (t_edges t) (t_children t) c) p \<longleftrightarrow>
    d \<noteq> c \<and> (\<exists>e. fmlookup (t_edges t) d = Some e \<and> e_parent e = p \<and> e_name e = n)"
  using assms unfolding index_ok_def kids_indexed
  by (auto simp: unindex_def split: option.splits if_splits)

lemma do_move_index_ok: "index_ok t \<Longrightarrow> index_ok (fst (do_move t op))"
proof -
  assume ok: "index_ok t"
  show ?thesis
  proof (cases "op_new_parent op = op_child op \<or> is_ancestor t (op_child op) (op_new_parent op)")
    case True
    with ok show ?thesis by (simp add: do_move_def Let_def)
  next
    case False
    then show ?thesis
      unfolding index_ok_def kids_indexed
      by (auto simp: do_move_def Let_def unindex_ok [OF ok] edge_of_def)
  qed
qed

lemma do_logged_index_ok: "index_ok t \<Longrightarrow> index_ok (do_logged t op)"
  using do_move_index_ok [of t op]
  by (simp add: do_logged_def Let_def split_beta index_ok_def kids_indexed)

lemma undo_move_index_ok: "index_ok t \<Longrightarrow> index_ok (undo_move t e)"
proof -
  assume ok: "index_ok t"
  show ?thesis
    unfolding index_ok_def kids_indexed
    by (auto simp: undo_move_def Let_def unindex_ok [OF ok] split: option.splits)
qed

lemma fold_undo_index_ok: "index_ok t \<Longrightarrow> index_ok (fold (\<lambda>e t. undo_move t e) es t)"
  by (induction es arbitrary: t) (simp_all add: undo_move_index_ok)

lemma fold_redo_index_ok: "index_ok t \<Longrightarrow> index_ok (fold (\<lambda>e t. do_logged t (le_op e)) es t)"
  by (induction es arbitrary: t) (simp_all add: do_logged_index_ok)

lemma index_ok_set_log: "index_ok t \<Longrightarrow> index_ok (t\<lparr>t_log := l\<rparr>)"
  by (simp add: index_ok_def kids_indexed)

lemma integrate_index_ok: "index_ok t \<Longrightarrow> index_ok (integrate t op)"
  by (simp add: integrate_def Let_def fold_redo_index_ok do_logged_index_ok fold_undo_index_ok
      index_ok_set_log)

section \<open>The tree is a convergent log\<close>

definition tree_inv :: "drive_tree \<Rightarrow> move_op list \<Rightarrow> bool" where
  "tree_inv t ops \<longleftrightarrow>
     t_log t = annot fmempty ops \<and> t_edges t = replay fmempty ops \<and> index_ok t"

definition tree_view :: "drive_tree \<Rightarrow> log_entry list \<times> edge_map \<times> (node_id \<Rightarrow> (string \<times> node_id) fset)" where
  "tree_view t = (t_log t, t_edges t, kids t)"

lemma tree_new_inv: "tree_inv tree_new []"
  by (simp add: tree_inv_def tree_new_def index_ok_def kids_def)

lemma integrate_inv:
  assumes inv: "tree_inv t ops" and asc: "asc_by op_ts ops"
  shows "tree_inv (integrate t op) (insert_op op_ts op ops)"
proof -
  let ?k = "op_ts op"
  let ?pre = "before op_ts ?k ops" and ?tl = "from_key op_ts ?k ops"
  have log_is: "t_log t = annot fmempty ops" and edges_are: "t_edges t = replay (replay fmempty ?pre) ?tl"
    using inv replay_append [of fmempty ?pre ?tl] by (simp_all add: tree_inv_def del: replay_append)
  have dup: "(?tl \<noteq> [] \<and> op_ts (hd ?tl) = ?k) \<longleftrightarrow> ?k \<in> op_ts ` set ops"
    by (rule from_key_hd_iff [OF asc])
  have ok: "index_ok (integrate t op)"
    using inv by (simp add: tree_inv_def integrate_index_ok)
  show ?thesis
  proof (cases "?k \<in> op_ts ` set ops")
    case True
    with dup have "?tl \<noteq> []" and "op_ts (hd ?tl) = ?k" by auto
    with True inv show ?thesis
      by (simp add: integrate_def Let_def log_is from_key_annot hd_annot_ts insert_op_def)
  next
    case False
    with dup have "\<not> (?tl \<noteq> [] \<and> op_ts (hd ?tl) = ?k)" by simp
    then have new: "integrate t op =
        fold (\<lambda>e t. do_logged t (le_op e)) (annot (replay fmempty ?pre) ?tl)
          (do_logged (fold (\<lambda>e t. undo_move t e) (rev (annot (replay fmempty ?pre) ?tl))
             (t\<lparr>t_log := annot fmempty ?pre\<rparr>)) op)"
      using hd_annot_ts [of ?tl] by (auto simp: integrate_def Let_def log_is before_annot from_key_annot)
    have "fold (\<lambda>e E. undo_edges E e) (rev (annot (replay fmempty ?pre) ?tl)) (t_edges t)
        = replay fmempty ?pre"
      using undo_annot [of "replay fmempty ?pre" ?tl] by (simp add: edges_are)
    with False ok show ?thesis
      by (simp add: tree_inv_def insert_op_def new fold_redo_refines fold_undo_refines)
  qed
qed

lemma index_ok_kids_unique:
  "index_ok s \<Longrightarrow> index_ok t \<Longrightarrow> t_edges s = t_edges t \<Longrightarrow> kids s = kids t"
  unfolding index_ok_def by (intro ext fset_eqI) (metis surj_pair)

lemma tree_inv_view: "tree_inv s ops \<Longrightarrow> tree_inv t ops \<Longrightarrow> tree_view s = tree_view t"
  by (simp add: tree_inv_def tree_view_def index_ok_kids_unique)

interpretation tree: convergent_log tree_apply tree_new op_ts tree_inv tree_view
  by unfold_locales (fact tree_new_inv integrate_inv tree_inv_view)+

lemma apply_all_simps [simp]:
  "apply_all [] t = t"
  "apply_all (op # ops) t = apply_all ops (tree_apply t op)"
  "apply_all (xs @ ys) t = apply_all ys (apply_all xs t)"
  by (simp_all add: apply_all_def)

lemma apply_all_inv: "tree_inv (apply_all ops tree_new) (insert_all op_ts ops [])"
  unfolding apply_all_def by (rule tree.run_inv)

end
