(* ===== verification/TreeAncestry.thy ===== *)
theory TreeAncestry
  imports TreeConverge
begin

text \<open>
  Ancestry in the directory tree: the bounded parent walk of \<open>is_ancestor\<close> decides reachability, the
  cycle check keeps every reachable tree acyclic, and the bounded walk of \<open>path\<close> finds the path of
  every node below the root.
\<close>

section \<open>The parent relation and the parent walk\<close>

definition parent_rel :: "edge_map \<Rightarrow> (node_id \<times> node_id) set" where
  "parent_rel E = {(c, p). \<exists>e. fmlookup E c = Some e \<and> e_parent e = p}"

fun up :: "edge_map \<Rightarrow> nat \<Rightarrow> node_id \<Rightarrow> node_id option" where
  "up E 0 n = Some n"
| "up E (Suc j) n = (case fmlookup E n of Some e \<Rightarrow> up E j (e_parent e) | None \<Rightarrow> None)"

lemma parent_rel_iff [simp]:
  "(c, p) \<in> parent_rel E \<longleftrightarrow> (\<exists>e. fmlookup E c = Some e \<and> e_parent e = p)"
  by (simp add: parent_rel_def)

lemma up_add: "up E (i + j) n = Option.bind (up E i n) (up E j)"
  by (induction i arbitrary: n) (auto split: option.splits)

lemma anc_walk_up: "anc_walk k E a n \<longleftrightarrow> (\<exists>j<k. up E j n = Some a)"
proof (induction k arbitrary: n)
  case (Suc k)
  show ?case
  proof (cases "n = a")
    case False
    have "(\<exists>j<Suc k. up E j n = Some a) \<longleftrightarrow> (\<exists>j<k. up E (Suc j) n = Some a)"
      using False by (auto simp: less_Suc_eq_0_disj)
    with False Suc show ?thesis by (auto split: option.splits)
  qed (auto intro: exI [of _ 0])
qed simp

lemma rtrancl_up: "(n, a) \<in> (parent_rel E)\<^sup>* \<longleftrightarrow> (\<exists>j. up E j n = Some a)"
proof
  assume "(n, a) \<in> (parent_rel E)\<^sup>*"
  then show "\<exists>j. up E j n = Some a"
  proof (induction rule: converse_rtrancl_induct)
    case base
    show ?case by (rule exI [of _ 0]) simp
  next
    case (step y z)
    then obtain j where "up E j z = Some a" by blast
    with step(1) have "up E (Suc j) y = Some a" by auto
    then show ?case by blast
  qed
next
  assume "\<exists>j. up E j n = Some a"
  then obtain j where "up E j n = Some a" ..
  then show "(n, a) \<in> (parent_rel E)\<^sup>*"
  proof (induction j arbitrary: n)
    case (Suc j)
    then obtain e where "fmlookup E n = Some e" and "(e_parent e, a) \<in> (parent_rel E)\<^sup>*"
      by (auto split: option.splits)
    then show ?case by (auto intro: converse_rtrancl_into_rtrancl)
  qed simp
qed

text \<open>A shortest walk visits pairwise different placed nodes, so it fits the bound.\<close>

lemma up_bounded:
  assumes "up E j n = Some a"
  shows "\<exists>i \<le> fcard (fmdom E). up E i n = Some a"
proof -
  define m where "m = (LEAST i. up E i n = Some a)"
  have m: "up E m n = Some a" and least: "\<And>i. up E i n = Some a \<Longrightarrow> m \<le> i"
    unfolding m_def using assms by (auto intro: LeastI Least_le)
  have step: "\<exists>x. up E i n = Some x \<and> x |\<in>| fmdom E" if im: "i < m" for i
  proof -
    obtain k where k: "m = i + Suc k"
      using less_imp_Suc_add [OF im] by auto
    with m have "Option.bind (up E i n) (up E (Suc k)) = Some a"
      by (simp only: up_add)
    then obtain x where x: "up E i n = Some x" and y: "up E (Suc k) x = Some a"
      by (auto simp only: bind_eq_Some_conv)
    from y have "fmlookup E x \<noteq> None"
      by (cases "fmlookup E x") simp_all
    then have "x |\<in>| fmdom E" by (auto intro: fmdomI)
    with x show ?thesis by blast
  qed
  have inj: "inj_on (\<lambda>i. up E i n) {..<m}"
  proof (rule linorder_inj_onI)
    fix i k assume ik: "i < k" "i \<in> {..<m}" "k \<in> {..<m}"
    show "up E i n \<noteq> up E k n"
    proof
      assume eq: "up E i n = up E k n"
      have "up E (k + (m - k)) n = Some a" using m ik by simp
      then have "up E (i + (m - k)) n = Some a" by (simp only: up_add eq)
      from least [OF this] ik show False by simp
    qed
  qed (auto simp: nat_le_linear)
  have "(\<lambda>i. up E i n) ` {..<m} \<subseteq> Some ` fset (fmdom E)"
    using step by force
  then have "card ((\<lambda>i. up E i n) ` {..<m}) \<le> card (Some ` fset (fmdom E))"
    by (intro card_mono) auto
  then have "m \<le> fcard (fmdom E)"
    by (simp add: card_image [OF inj] card_image fcard.rep_eq)
  with m show ?thesis by blast
qed

lemma edges_ancestor_iff: "edges_ancestor E a n \<longleftrightarrow> (n, a) \<in> (parent_rel E)\<^sup>*"
proof -
  have "edges_ancestor E a n \<longleftrightarrow> (\<exists>j \<le> fcard (fmdom E). up E j n = Some a)"
    by (simp add: edges_ancestor_def anc_walk_up less_Suc_eq_le del: anc_walk.simps)
  then show ?thesis
    using up_bounded by (auto simp: rtrancl_up)
qed

lemma is_ancestor_iff: "is_ancestor t a n \<longleftrightarrow> (n, a) \<in> (parent_rel (t_edges t))\<^sup>*"
  by (simp add: is_ancestor_def edges_ancestor_iff)

section \<open>Acyclicity\<close>

lemma parent_rel_fmupd: "parent_rel (fmupd c e E) \<subseteq> insert (c, e_parent e) (parent_rel E)"
  by (auto split: if_splits)

lemma move_edges_acyclic: "acyclic (parent_rel E) \<Longrightarrow> acyclic (parent_rel (move_edges E op))"
proof -
  assume ac: "acyclic (parent_rel E)"
  show ?thesis
  proof (cases "op_new_parent op = op_child op \<or> edges_ancestor E (op_child op) (op_new_parent op)")
    case True
    with ac show ?thesis by (simp add: move_edges_def)
  next
    case False
    then have "acyclic (insert (op_child op, op_new_parent op) (parent_rel E))"
      using ac by (simp add: edges_ancestor_iff)
    with False show ?thesis
      using parent_rel_fmupd [of "op_child op" "edge_of op" E]
      by (auto simp: move_edges_def edge_of_def intro: acyclic_subset)
  qed
qed

lemma replay_acyclic: "acyclic (parent_rel E) \<Longrightarrow> acyclic (parent_rel (replay E ops))"
  by (induction ops arbitrary: E) (simp_all add: move_edges_acyclic)

lemma parent_rel_empty [simp]: "parent_rel fmempty = {}"
  by (auto simp: parent_rel_def)

lemma tree_inv_acyclic: "tree_inv t ops \<Longrightarrow> acyclic (parent_rel (t_edges t))"
  using replay_acyclic [of fmempty ops] by (simp add: tree_inv_def acyclic_def)

section \<open>Reserved nodes\<close>

text \<open>Operations that never move a reserved node: what the drive's own writers emit.\<close>

definition reserved :: "node_id set" where
  "reserved = {ROOT, TRASH, LIMBO}"

definition op_ok :: "move_op \<Rightarrow> bool" where
  "op_ok op \<longleftrightarrow> op_child op \<noteq> ROOT \<and> op_child op \<noteq> TRASH \<and> op_child op \<noteq> LIMBO"

definition reserved_free :: "edge_map \<Rightarrow> bool" where
  "reserved_free E \<longleftrightarrow>
     fmlookup E ROOT = None \<and> fmlookup E TRASH = None \<and> fmlookup E LIMBO = None"

lemma move_edges_reserved_free: "reserved_free E \<Longrightarrow> op_ok op \<Longrightarrow> reserved_free (move_edges E op)"
  by (auto simp: reserved_free_def op_ok_def move_edges_def)

lemma replay_reserved_free:
  "reserved_free E \<Longrightarrow> list_all op_ok ops \<Longrightarrow> reserved_free (replay E ops)"
  by (induction ops arbitrary: E) (simp_all add: move_edges_reserved_free)

lemma tree_inv_reserved_free: "tree_inv t ops \<Longrightarrow> list_all op_ok ops \<Longrightarrow> reserved_free (t_edges t)"
  using replay_reserved_free [of fmempty ops] by (simp add: tree_inv_def reserved_free_def)

text \<open>Two nodes above the same node are comparable; a node without an edge is a top.\<close>

lemma parent_rel_linear:
  "(n, a) \<in> (parent_rel E)\<^sup>* \<Longrightarrow> (n, b) \<in> (parent_rel E)\<^sup>* \<Longrightarrow>
    (a, b) \<in> (parent_rel E)\<^sup>* \<or> (b, a) \<in> (parent_rel E)\<^sup>*"
  by (rule single_valued_confluent) (auto simp: single_valued_def)

lemma top_rtrancl: "fmlookup E a = None \<Longrightarrow> (a, b) \<in> (parent_rel E)\<^sup>* \<longleftrightarrow> b = a"
  by (auto elim: converse_rtranclE)

lemma below_one_top:
  assumes "(n, a) \<in> (parent_rel E)\<^sup>*" and "(n, b) \<in> (parent_rel E)\<^sup>*"
    and "fmlookup E a = None" and "fmlookup E b = None"
  shows "a = b"
  using parent_rel_linear [OF assms(1,2)] top_rtrancl assms(3,4) by metis

section \<open>Paths\<close>

text \<open>The names from the root to a node, as a relation over the edges.\<close>

inductive placed :: "edge_map \<Rightarrow> node_id \<Rightarrow> string list \<Rightarrow> bool" for E where
  placed_root: "fmlookup E c = Some e \<Longrightarrow> e_parent e = ROOT \<Longrightarrow> placed E c [e_name e]"
| placed_step: "fmlookup E c = Some e \<Longrightarrow> e_parent e \<noteq> ROOT \<Longrightarrow> placed E (e_parent e) ns \<Longrightarrow>
    placed E c (ns @ [e_name e])"

inductive_cases placedE: "placed E c ns"

lemma placed_iff:
  "placed E c ns \<longleftrightarrow> (\<exists>e. fmlookup E c = Some e \<and>
     (if e_parent e = ROOT then ns = [e_name e]
      else (\<exists>ms. placed E (e_parent e) ms \<and> ns = ms @ [e_name e])))"
  by (subst placed.simps) auto

lemma placed_not_Nil [simp]: "\<not> placed E c []"
  by (auto elim: placedE)

lemma placed_det: "placed E c ns \<Longrightarrow> placed E c ms \<Longrightarrow> ms = ns"
proof (induction arbitrary: ms rule: placed.induct)
  case (placed_root c e)
  from placed_root.prems show ?case
    by (rule placedE) (use placed_root.hyps in simp_all)
next
  case (placed_step c e ns)
  from placed_step.prems show ?case
  proof (cases rule: placed.cases)
    case (placed_root e')
    with placed_step.hyps show ?thesis by simp
  next
    case (placed_step e' ns')
    with \<open>fmlookup E c = Some e\<close> have "e' = e" by simp
    with placed_step placed_step.IH [of ns'] show ?thesis by simp
  qed
qed

lemma placed_bound: "placed E c ns \<Longrightarrow> length ns \<le> fcard (fmdom E)"
proof -
  assume "placed E c ns"
  then have "\<exists>cs. length cs = length ns \<and> distinct cs \<and> set cs \<subseteq> fset (fmdom E) \<and>
      (\<forall>d \<in> set cs. \<exists>ms. placed E d ms \<and> length ms \<le> length ns)"
  proof (induction rule: placed.induct)
    case (placed_root c e)
    then show ?case
      by (intro exI [of _ "[c]"]) (auto intro: placed.placed_root fmdomI)
  next
    case (placed_step c e ns)
    then obtain cs where cs: "length cs = length ns" "distinct cs" "set cs \<subseteq> fset (fmdom E)"
      "\<forall>d \<in> set cs. \<exists>ms. placed E d ms \<and> length ms \<le> length ns" by blast
    have here: "placed E c (ns @ [e_name e])"
      by (rule placed.placed_step [OF placed_step(1,2,3)])
    have "c \<notin> set cs"
    proof
      assume "c \<in> set cs"
      with cs(4) obtain ms where ms: "placed E c ms" "length ms \<le> length ns" by blast
      from placed_det [OF here ms(1)] ms(2) show False by simp
    qed
    moreover have "c \<in> fset (fmdom E)"
      using placed_step(1) by (rule fmdomI)
    moreover have "\<exists>ms. placed E d ms \<and> length ms \<le> length (ns @ [e_name e])" if "d \<in> set cs" for d
      using cs(4) that by (metis le_SucI length_append_singleton)
    ultimately show ?case
      using cs(1,2,3) here by (intro exI [of _ "c # cs"]) auto
  qed
  then obtain cs where "length cs = length ns" "distinct cs" "set cs \<subseteq> fset (fmdom E)" by blast
  then show ?thesis
    by (metis distinct_card card_mono finite_fset fcard.rep_eq)
qed

lemma path_walk_iff:
  "path_walk k E n parts = Some r \<longleftrightarrow> (\<exists>ns. placed E n ns \<and> length ns \<le> k \<and> r = ns @ rev parts)"
proof (induction k arbitrary: n parts)
  case (Suc k)
  show ?case
    by (subst placed_iff) (auto simp: Suc split: option.splits)
qed auto

lemma path_walk_complete:
  "path_walk (Suc (fcard (fmdom E))) E n [] = Some ns \<longleftrightarrow> placed E n ns"
  using placed_bound by (auto simp: path_walk_iff le_SucI simp del: path_walk.simps)

lemma path_eq_Some:
  "path t n = Some p \<longleftrightarrow>
     (n = ROOT \<and> p = ''/'' \<or>
      n \<noteq> ROOT \<and> (\<exists>ns. placed (t_edges t) n ns \<and> p = CHR ''/'' # join_with ''/'' ns))"
  by (auto simp: path_def path_walk_complete simp del: path_walk.simps)

lemma placed_rtrancl: "placed E n ns \<Longrightarrow> (n, ROOT) \<in> (parent_rel E)\<^sup>+"
proof (induction rule: placed.induct)
  case (placed_step c e ns)
  then have "(c, e_parent e) \<in> parent_rel E" by auto
  then show ?case using placed_step.IH by (rule trancl_into_trancl2)
qed auto

lemma rtrancl_placed:
  assumes "(n, ROOT) \<in> (parent_rel E)\<^sup>+" and "fmlookup E ROOT = None"
  shows "\<exists>ns. placed E n ns"
  using assms(1)
proof (induction rule: converse_trancl_induct)
  case (base y)
  then show ?case by (auto intro: placed.placed_root)
next
  case (step y z)
  then obtain e ns where "fmlookup E y = Some e" "e_parent e = z" "placed E z ns" by auto
  then show ?case
    by (metis placed.placed_root placed.placed_step)
qed

lemma path_iff_below_root:
  "fmlookup (t_edges t) ROOT = None \<Longrightarrow>
    path t n \<noteq> None \<longleftrightarrow> (n, ROOT) \<in> (parent_rel (t_edges t))\<^sup>*"
  by (auto simp: path_eq_Some rtrancl_eq_or_trancl dest: placed_rtrancl rtrancl_placed
      simp del: not_None_eq simp flip: not_None_eq)

end
