(* ===== verification/TreeListing.thy ===== *)
theory TreeListing
  imports TreeAncestry
begin

text \<open>
  Listing and resolving: \<open>readdir\<close> renders every visible child exactly once, sorted by rendered name,
  and gives the bare name of a collision to the child with the greatest timestamp; \<open>resolve\<close> follows
  a path through the listings, and undoes \<open>path\<close> where siblings have different names.
\<close>

section \<open>The shape of a listing\<close>

lemma set_raw_children [simp]: "set (raw_children t p) = fset (kids t p)"
  by (simp add: raw_children_def)

lemma distinct_raw_children [simp]: "distinct (raw_children t p)"
  by (simp add: raw_children_def sorted_list_of_fset.rep_eq)

lemma sorted_raw_children: "sorted (raw_children t p)"
  by (simp add: raw_children_def sorted_list_of_fset.rep_eq)

lemma mem_listed:
  "(n, c) \<in> set (listed_children t p) \<longleftrightarrow> (n, c) |\<in>| kids t p \<and> (p = TRASH \<or> \<not> is_trashed t c)"
  by (auto simp: listed_children_def)

lemma distinct_listed [simp]: "distinct (listed_children t p)"
  by (simp add: listed_children_def)

lemma kids_index:
  "index_ok t \<Longrightarrow> (n, c) |\<in>| kids t p \<longleftrightarrow>
    (\<exists>e. tree_edge t c = Some e \<and> e_parent e = p \<and> e_name e = n)"
  by (simp add: index_ok_def tree_edge_def)

lemma listed_ids_distinct: "index_ok t \<Longrightarrow> distinct (map snd (listed_children t p))"
  by (auto simp: distinct_map mem_listed kids_index intro!: inj_onI)

lemma group_mset:
  "distinct ns \<Longrightarrow> set (map fst xs) \<subseteq> set ns \<Longrightarrow>
    mset (concat (map (\<lambda>n. map snd (filter (\<lambda>x. fst x = n) xs)) ns)) = mset (map snd xs)"
proof (induction ns arbitrary: xs)
  case (Cons n ns)
  let ?ys = "filter (\<lambda>x. fst x \<noteq> n) xs"
  have "concat (map (\<lambda>m. map snd (filter (\<lambda>x. fst x = m) xs)) ns)
      = concat (map (\<lambda>m. map snd (filter (\<lambda>x. fst x = m) ?ys)) ns)"
    using Cons.prems(1) by (intro arg_cong [of _ _ concat] map_cong) (auto intro!: filter_cong)
  moreover have "mset (concat (map (\<lambda>m. map snd (filter (\<lambda>x. fst x = m) ?ys)) ns)) = mset (map snd ?ys)"
    using Cons.prems by (intro Cons.IH) auto
  moreover have "mset (map snd (filter (\<lambda>x. fst x = n) xs)) + mset (map snd ?ys) = mset (map snd xs)"
    by (induction xs) auto
  ultimately show ?case by simp
qed simp

lemma ranked_single [simp]: "ranked t [c] = [(defining_ts t c, c)]"
  by (simp add: ranked_def sort_desc_def)

lemma set_ranked [simp]: "set (ranked t ids) = (\<lambda>c. (defining_ts t c, c)) ` set ids"
  by (simp add: ranked_def)

lemma mset_ranked: "mset (ranked t ids) = mset (map (\<lambda>c. (defining_ts t c, c)) ids)"
  by (simp only: ranked_def mset_sort_desc)

lemma ranked_eq_Nil [simp]: "ranked t ids = [] \<longleftrightarrow> ids = []"
  by (simp flip: set_empty)

text \<open>The single-child case is the general one with no loser.\<close>

lemma render_group_eq:
  "render_group t (name, ids) =
     (case ranked t ids of [] \<Rightarrow> []
      | (s, c) # losers \<Rightarrow> (name, c, kind_of t c) # render_losers t name losers)"
proof (cases "\<exists>c. ids = [c]")
  case True
  then show ?thesis by (auto simp: render_group_def render_losers_def)
next
  case False
  then show ?thesis by (auto simp: render_group_def split: list.split)
qed

lemma render_losers_ids [simp]: "map (\<lambda>x. fst (snd x)) (render_losers t name xs) = map snd xs"
  by (auto simp: render_losers_def)

lemma render_group_ids:
  "mset (map (\<lambda>x. fst (snd x)) (render_group t (name, ids))) = mset ids"
proof -
  have "map (\<lambda>x. fst (snd x)) (render_group t (name, ids)) = map snd (ranked t ids)"
    by (auto simp: render_group_eq simp del: mset_map split: list.split)
  moreover have "mset (map snd (ranked t ids)) = mset ids"
    by (simp only: mset_map mset_ranked) (simp add: image_mset.compositionality comp_def)
  ultimately show ?thesis by (simp only:)
qed

text \<open>Every visible child is listed exactly once.\<close>

lemma readdir_ids_mset:
  "mset (map (\<lambda>x. fst (snd x)) (readdir t p)) = mset (map snd (listed_children t p))"
proof -
  let ?xs = "listed_children t p" and ?id = "\<lambda>x :: string \<times> node_id \<times> node_kind. fst (snd x)"
  have "mset (map ?id (concat (map (render_group t) gs))) = mset (concat (map snd gs))" for gs
  proof (induction gs)
    case (Cons g gs)
    then show ?case using render_group_ids [of t "fst g" "snd g"] by simp
  qed simp
  moreover have "mset (concat (map snd (group_by_name ?xs))) = mset (map snd ?xs)"
    using group_mset [of "sort (remdups (map fst ?xs))" ?xs] by (simp add: group_by_name_def comp_def)
  ultimately show ?thesis
    by (simp add: readdir_def)
qed

lemma readdir_sorted: "sorted (map fst (readdir t p))"
  by (simp add: readdir_def)

lemma readdir_ids: "(\<lambda>x. fst (snd x)) ` set (readdir t p) = snd ` set (listed_children t p)"
  using arg_cong [OF readdir_ids_mset, of set_mset] by simp

lemma render_group_kind: "(m, c, k) \<in> set (render_group t g) \<Longrightarrow> k = kind_of t c"
  by (cases g) (auto simp: render_group_eq render_losers_def split: prod.splits list.splits)

lemma readdir_kind: "(m, c, k) \<in> set (readdir t p) \<Longrightarrow> k = kind_of t c"
  by (auto simp: readdir_def dest: render_group_kind)

lemma readdir_mem_listed:
  "(m, c, k) \<in> set (readdir t p) \<Longrightarrow> \<exists>n. (n, c) \<in> set (listed_children t p)"
proof -
  assume "(m, c, k) \<in> set (readdir t p)"
  then have "c \<in> (\<lambda>x. fst (snd x)) ` set (readdir t p)" by force
  then show ?thesis unfolding readdir_ids by force
qed

section \<open>Collisions\<close>

lemma group_by_name_mem:
  "(n, ids) \<in> set (group_by_name xs) \<longleftrightarrow>
     n \<in> fst ` set xs \<and> ids = map snd (filter (\<lambda>x. fst x = n) xs)"
  by (auto simp: group_by_name_def)

lemma render_group_winner:
  assumes "c \<in> set ids" and "\<And>d. d \<in> set ids \<Longrightarrow> d \<noteq> c \<Longrightarrow> defining_ts t d < defining_ts t c"
  shows "(name, c, kind_of t c) \<in> set (render_group t (name, ids))"
proof -
  have mem: "(defining_ts t c, c) \<in> set (ranked t ids)" using assms(1) by auto
  then obtain s d rest where r: "ranked t ids = (s, d) # rest"
    by (cases "ranked t ids") auto
  then have "(s, d) \<in> set (ranked t ids)" by simp
  then have d: "d \<in> set ids" "s = defining_ts t d" by auto
  have "defining_ts t c \<le> s"
    using sort_desc_hd_max [of "(defining_ts t c, c)" "map (\<lambda>c. (defining_ts t c, c)) ids" fst]
      assms(1) r by (simp add: ranked_def)
  with d assms(2) have "d = c" by (metis not_less)
  with r show ?thesis by (simp add: render_group_eq)
qed

lemma readdir_winner:
  assumes "(n, c) \<in> set (listed_children t p)"
    and "\<And>d. (n, d) \<in> set (listed_children t p) \<Longrightarrow> d \<noteq> c \<Longrightarrow> defining_ts t d < defining_ts t c"
  shows "(n, c, kind_of t c) \<in> set (readdir t p)"
proof -
  let ?ids = "map snd (filter (\<lambda>x. fst x = n) (listed_children t p))"
  have "(n, ?ids) \<in> set (group_by_name (listed_children t p))"
    using assms(1) by (force simp: group_by_name_mem)
  moreover have "(n, c, kind_of t c) \<in> set (render_group t (n, ?ids))"
    by (rule render_group_winner) (use assms in force)+
  ultimately show ?thesis
    unfolding readdir_def set_sort set_concat set_map by blast
qed

text \<open>Without collisions a listing is the visible children under their own names.\<close>

lemma group_by_name_distinct:
  assumes "distinct (map fst xs)" and "sorted (map fst xs)"
  shows "group_by_name xs = map (\<lambda>(n, c). (n, [c])) xs"
proof -
  have "map snd (filter (\<lambda>x. fst x = n) xs) = [c]" if "(n, c) \<in> set xs" for n c
    using assms(1) that
  proof (induction xs)
    case (Cons y ys)
    show ?case
    proof (cases "y = (n, c)")
      case True
      with Cons.prems(1) have "filter (\<lambda>x. fst x = n) ys = []"
        by (force simp: filter_empty_conv)
      with True show ?thesis by simp
    next
      case False
      with Cons.prems have mem: "(n, c) \<in> set ys" by auto
      have "n \<in> fst ` set ys" using mem by (rule rev_image_eqI) simp
      with Cons.prems(1) have "fst y \<noteq> n" by auto
      with Cons.IH mem Cons.prems(1) show ?thesis by simp
    qed
  qed simp
  moreover have "sort (remdups (map fst xs)) = map fst xs"
    using assms by (simp add: distinct_remdups_id sorted_sort_id)
  ultimately show ?thesis
    by (auto simp: group_by_name_def intro!: map_cong)
qed

lemma sorted_map_fst: "sorted (xs :: (string \<times> node_id) list) \<Longrightarrow> sorted (map fst xs)"
  by (induction xs) (auto simp: less_eq_prod_def less_imp_le)

lemma readdir_no_collision:
  assumes "distinct (map fst (listed_children t p))"
  shows "readdir t p = map (\<lambda>(n, c). (n, c, kind_of t c)) (listed_children t p)"
proof -
  let ?xs = "listed_children t p"
  have sorted: "sorted (map fst ?xs)"
    by (rule sorted_map_fst) (simp add: listed_children_def sorted_raw_children sorted_wrt_filter)
  have "concat (map (render_group t) (map (\<lambda>(n, c). (n, [c])) xs))
      = map (\<lambda>(n, c). (n, c, kind_of t c)) xs" for xs
    by (induction xs) (auto simp: render_group_def)
  then have "readdir t p = sort_key fst (map (\<lambda>(n, c). (n, c, kind_of t c)) ?xs)"
    by (simp add: readdir_def group_by_name_distinct [OF assms sorted])
  also have "\<dots> = map (\<lambda>(n, c). (n, c, kind_of t c)) ?xs"
    using sorted by (intro sort_key_id_if_sorted) (simp add: comp_def split_beta)
  finally show ?thesis .
qed

section \<open>Resolving\<close>

lemma resolve_from_append:
  "resolve_from t c (xs @ ys) = Option.bind (resolve_from t c xs) (\<lambda>d. resolve_from t d ys)"
  by (induction xs arbitrary: c) (auto split: option.splits)

lemma resolve_step_SomeD:
  assumes "resolve_from t c [n] = Some d"
  shows "(n, d, kind_of t d) \<in> set (readdir t c)"
proof -
  obtain x where x: "find (\<lambda>(m, _). m = n) (readdir t c) = Some x" and d: "fst (snd x) = d"
    using assms by (auto split: option.splits prod.splits)
  then have "x \<in> set (readdir t c)" and "fst x = n"
    by (auto simp: find_Some_iff split_beta)
  with d have "(n, d, snd (snd x)) \<in> set (readdir t c)" by (metis prod.collapse)
  then show ?thesis using readdir_kind by metis
qed

lemma resolve_step_listed:
  assumes "index_ok t" and "resolve_from t c [n] = Some d"
  shows "\<exists>e. tree_edge t d = Some e \<and> e_parent e = c \<and> (c = TRASH \<or> \<not> is_trashed t d)"
  using readdir_mem_listed [OF resolve_step_SomeD [OF assms(2)]] assms(1)
  by (auto simp: mem_listed kids_index)

text \<open>What a non-empty sequence of components resolves to has an edge and lies below the start.\<close>

lemma resolve_from_below:
  assumes "index_ok t" and "resolve_from t c ns = Some d"
  shows "(d, c) \<in> (parent_rel (t_edges t))\<^sup>*"
  using assms(2)
proof (induction ns arbitrary: d rule: rev_induct)
  case (snoc n ns)
  then obtain m where m: "resolve_from t c ns = Some m" "resolve_from t m [n] = Some d"
    by (auto simp: resolve_from_append bind_eq_Some_conv)
  with resolve_step_listed [OF assms(1) m(2)] have "(d, m) \<in> parent_rel (t_edges t)"
    by (auto simp: tree_edge_def)
  with snoc.IH [OF m(1)] show ?case by (meson converse_rtrancl_into_rtrancl)
qed simp

lemma resolve_from_last:
  assumes "resolve_from t c (ns @ [n]) = Some d"
  obtains m where "resolve_from t c ns = Some m" and "resolve_from t m [n] = Some d"
  using assms by (auto simp: resolve_from_append bind_eq_Some_conv)

lemma resolve_SomeD:
  assumes "index_ok t" and "reserved_free (t_edges t)" and "resolve t p = Some n"
  shows "n = ROOT \<or> (\<exists>e. tree_edge t n = Some e \<and> (n, ROOT) \<in> (parent_rel (t_edges t))\<^sup>+ \<and> is_live t n)"
proof (cases "trim_matches (CHR ''/'') p = []")
  case True
  with assms(3) show ?thesis by (simp add: resolve_def)
next
  case False
  let ?ns = "split_on (CHR ''/'') (trim_matches (CHR ''/'') p)"
  have "?ns \<noteq> []" by simp
  then obtain ns m where ns: "?ns = ns @ [m]" by (metis rev_exhaust)
  have r: "resolve_from t ROOT (ns @ [m]) = Some n"
    using assms(3) False ns by (simp add: resolve_def Let_def)
  then obtain q where q: "resolve_from t ROOT ns = Some q" "resolve_from t q [m] = Some n"
    by (rule resolve_from_last)
  obtain e where e: "tree_edge t n = Some e" "e_parent e = q" "q = TRASH \<or> \<not> is_trashed t n"
    using resolve_step_listed [OF assms(1) q(2)] by blast
  have below: "(q, ROOT) \<in> (parent_rel (t_edges t))\<^sup>*"
    by (rule resolve_from_below [OF assms(1) q(1)])
  have n: "(n, q) \<in> parent_rel (t_edges t)" using e by (simp add: tree_edge_def)
  then have anc: "(n, ROOT) \<in> (parent_rel (t_edges t))\<^sup>+" using below by (rule rtrancl_into_trancl2)
  have "\<not> is_ancestor t TRASH n" "\<not> is_ancestor t LIMBO n"
    using below_one_top [OF trancl_into_rtrancl [OF anc], of TRASH]
      below_one_top [OF trancl_into_rtrancl [OF anc], of LIMBO] assms(2)
    by (auto simp: is_ancestor_iff reserved_free_def)
  with e anc show ?thesis by (simp add: is_live_def)
qed

lemma below_root_live:
  assumes "(n, ROOT) \<in> (parent_rel (t_edges t))\<^sup>*" and "reserved_free (t_edges t)"
  shows "\<not> is_trashed t n" "\<not> is_limbo t n"
  using below_one_top [OF assms(1), of TRASH] below_one_top [OF assms(1), of LIMBO] assms(2)
  by (auto simp: is_trashed_def is_limbo_def is_ancestor_iff reserved_free_def)

lemma placed_live:
  "placed (t_edges t) n ns \<Longrightarrow> reserved_free (t_edges t) \<Longrightarrow> \<not> is_trashed t n \<and> \<not> is_limbo t n"
  using below_root_live placed_rtrancl trancl_into_rtrancl by metis

text \<open>No visible siblings share a name.\<close>

definition names_unique :: "drive_tree \<Rightarrow> bool" where
  "names_unique t \<longleftrightarrow> (\<forall>p. distinct (map fst (listed_children t p)))"

lemma find_first_unique:
  "distinct (map fst xs) \<Longrightarrow> (n, c) \<in> set xs \<Longrightarrow>
    find (\<lambda>(m, _). m = n) (map (\<lambda>(m, d). (m, d, k d)) xs) = Some (n, c, k c)"
  by (induction xs) force+

lemma resolve_step_unique:
  assumes "index_ok t" and "names_unique t" and "tree_edge t c = Some e"
    and "e_parent e = TRASH \<or> \<not> is_trashed t c"
  shows "resolve_from t (e_parent e) [e_name e] = Some c"
proof -
  have "(e_name e, c) \<in> set (listed_children t (e_parent e))"
    using assms by (auto simp: mem_listed kids_index)
  moreover have "distinct (map fst (listed_children t (e_parent e)))"
    using assms(2) by (simp add: names_unique_def)
  ultimately show ?thesis
    by (simp add: readdir_no_collision find_first_unique)
qed

lemma resolve_from_placed:
  assumes "placed (t_edges t) n ns" and "index_ok t" and "names_unique t" and "reserved_free (t_edges t)"
  shows "resolve_from t ROOT ns = Some n"
  using assms(1)
proof (induction rule: placed.induct)
  case (placed_root c e)
  then have "placed (t_edges t) c [e_name e]" by (rule placed.placed_root)
  then have "\<not> is_trashed t c"
    using placed_live assms(4) by blast
  with placed_root show ?case
    using resolve_step_unique [OF assms(2,3), of c e] by (simp add: tree_edge_def)
next
  case (placed_step c e ns)
  then have "placed (t_edges t) c (ns @ [e_name e])" by (metis placed.placed_step)
  then have "\<not> is_trashed t c"
    using placed_live assms(4) by blast
  with placed_step show ?case
    using resolve_step_unique [OF assms(2,3), of c e]
    by (simp add: resolve_from_append tree_edge_def del: resolve_from.simps)
qed

text \<open>Names a path can carry: non-empty and without a separator.\<close>

definition clean_name :: "string \<Rightarrow> bool" where
  "clean_name s \<longleftrightarrow> s \<noteq> [] \<and> CHR ''/'' \<notin> set s"

lemma resolve_joined:
  assumes "ns \<noteq> []" and "\<forall>x \<in> set ns. clean_name x"
  shows "resolve t (CHR ''/'' # join_with ''/'' ns) = resolve_from t ROOT ns"
proof -
  let ?j = "join_with ''/'' ns"
  have ne: "\<forall>x \<in> set ns. x \<noteq> []" and sep: "\<forall>x \<in> set ns. CHR ''/'' \<notin> set x"
    using assms(2) by (simp_all add: clean_name_def)
  have jne: "?j \<noteq> []"
    using join_with_eq_Nil [of "''/''" ns] assms(1) ne by auto
  have "hd ?j \<noteq> CHR ''/''"
    using join_with_hd [OF assms(1) ne] sep ne assms(1) by (metis hd_in_set)
  moreover have "last ?j \<noteq> CHR ''/''"
    using join_with_last [OF assms(1) ne] sep ne assms(1) by (metis last_in_set)
  ultimately have "trim_matches (CHR ''/'') (CHR ''/'' # ?j) = ?j"
    using jne by (simp add: trim_matches_id)
  then show ?thesis
    using jne split_on_join [OF assms(1) sep] by (simp add: resolve_def Let_def)
qed

text \<open>Every name on an edge comes from some operation.\<close>

lemma placed_names: "placed E n ns \<Longrightarrow> x \<in> set ns \<Longrightarrow> \<exists>c e. fmlookup E c = Some e \<and> x = e_name e"
  by (induction rule: placed.induct) auto

end
