(* ===== verification/Names.thy ===== *)
theory Names
  imports TreeListing
begin

text \<open>
  Name validation, \<open>crates/ce-drive-core/src/names.rs\<close>: the check every structural operation of the
  drive runs on a name. The loop over \<open>chars()\<close> looks for ASCII characters only, and no byte of a
  longer UTF-8 character is ASCII, so it is a loop over the bytes.
\<close>

definition MAX_NAME_BYTES :: nat where
  "MAX_NAME_BYTES = 255"

datatype name_error =
    Empty
  | DotComponent
  | Separator char
  | Control char
  | TooLong nat

fun check_chars :: "string \<Rightarrow> name_error + unit" where
  "check_chars [] = Inr ()"
| "check_chars (c # cs) =
     (if c = CHR ''/'' \<or> c = CHR 0x5C then Inl (Separator c)
      else if (of_char c :: nat) < 32 then Inl (Control c)
      else check_chars cs)"

definition validate_name :: "string \<Rightarrow> name_error + unit" where
  "validate_name name =
     (if trim name = [] then Inl Empty
      else if name = ''.'' \<or> name = ''..'' then Inl DotComponent
      else (case check_chars name of
              Inl e \<Rightarrow> Inl e
            | Inr _ \<Rightarrow>
                if length name > MAX_NAME_BYTES then Inl (TooLong (length name)) else Inr ()))"

abbreviation valid_name :: "string \<Rightarrow> bool" where
  "valid_name name \<equiv> validate_name name = Inr ()"

lemma check_chars_ok:
  "check_chars s = Inr () \<longleftrightarrow> (\<forall>c \<in> set s. c \<noteq> CHR ''/'' \<and> c \<noteq> CHR 0x5C \<and> 32 \<le> (of_char c :: nat))"
  by (induction s) auto

lemma check_chars_error:
  "check_chars s = Inl e \<Longrightarrow>
    \<exists>c \<in> set s. e = Separator c \<and> (c = CHR ''/'' \<or> c = CHR 0x5C) \<or> e = Control c \<and> (of_char c :: nat) < 32"
  by (induction s) (auto split: if_splits)

lemma trim_Nil [simp]: "trim [] = []"
  by (simp add: trim_def)

lemma validate_name_ok:
  "valid_name s \<longleftrightarrow>
     trim s \<noteq> [] \<and> s \<noteq> ''.'' \<and> s \<noteq> ''..'' \<and> length s \<le> MAX_NAME_BYTES \<and>
     (\<forall>c \<in> set s. c \<noteq> CHR ''/'' \<and> c \<noteq> CHR 0x5C \<and> 32 \<le> (of_char c :: nat))"
  unfolding validate_name_def check_chars_ok [symmetric]
  by (auto split: sum.splits)

text \<open>A validated name can be a path component: joining and splitting a path keeps it whole.\<close>

lemma valid_name_clean: "valid_name s \<Longrightarrow> clean_name s"
  unfolding validate_name_ok clean_name_def by (cases "s = []") auto

end
