(* ===== verification/TreeProps.thy ===== *)
theory TreeProps
  imports Names
begin

text \<open>
  The properties of the directory tree, over trees built from \<open>new\<close> by applying any list of
  operations in any order, and a small scenario with two concurrent moves that would make a cycle,
  on which the properties with a hypothesis are evaluated.
\<close>

section \<open>The scenario\<close>

definition mk :: "u64 \<Rightarrow> replica_id \<Rightarrow> node_id \<Rightarrow> node_id \<Rightarrow> string \<Rightarrow> node_kind \<Rightarrow> move_op" where
  "mk l r c p n k = \<lparr>op_ts = Timestamp l r, op_child = c, op_new_parent = p, op_new_name = n, op_kind = k\<rparr>"

text \<open>Two directories, each moved into the other by a different replica, and a file with a rival.\<close>

definition demo_ops :: "move_op list" where
  "demo_ops =
     [mk 1 ''aa'' ''n1'' ROOT ''docs'' Dir, mk 2 ''aa'' ''n2'' ROOT ''pics'' Dir,
      mk 3 ''aa'' ''n1'' ''n2'' ''docs'' Dir, mk 3 ''bb'' ''n2'' ''n1'' ''pics'' Dir,
      mk 4 ''aa'' ''n3'' ''n1'' ''a.md'' File, mk 5 ''bb'' ''n4'' ''n1'' ''a.md'' File,
      mk 6 ''bb'' ''n5'' ''n2'' ''b.md'' File]"

definition demo_shuffled :: "move_op list" where
  "demo_shuffled = rev demo_ops @ [mk 3 ''aa'' ''n1'' ''n2'' ''docs'' Dir, mk 1 ''aa'' ''n1'' ROOT ''docs'' Dir]"

definition tree_of :: "move_op list \<Rightarrow> drive_tree" where
  "tree_of ops = apply_all ops tree_new"

lemma tree_of_inv: "tree_inv (tree_of ops) (insert_all op_ts ops [])"
  unfolding tree_of_def by (rule apply_all_inv)

lemma tree_of_index: "index_ok (tree_of ops)"
  using tree_of_inv [of ops] by (simp add: tree_inv_def)

lemma tree_of_reserved: "list_all op_ok ops \<Longrightarrow> reserved_free (t_edges (tree_of ops))"
  using set_insert_all_subset [of op_ts ops "[]"]
  by (intro tree_inv_reserved_free [OF tree_of_inv]) (auto simp: list_all_iff)

text \<open>Everything a client can ask is a function of the view.\<close>

lemma tree_view_fields:
  assumes "tree_view s = tree_view t"
  shows "t_log s = t_log t" and "t_edges s = t_edges t" and "kids s = kids t"
  using assms by (simp_all add: tree_view_def)

lemma tree_view_readdir:
  assumes "tree_view s = tree_view t"
  shows "readdir s = readdir t"
proof -
  note F = tree_view_fields [OF assms]
  have "kind_of s = kind_of t" and "defining_ts s = defining_ts t"
    by (auto simp: kind_of_def tree_edge_def defining_ts_def F)
  then have E: "ranked s = ranked t" "render_losers s = render_losers t" "kind_of s = kind_of t"
    by (auto simp: fun_eq_iff ranked_def render_losers_def)
  have "render_group s = render_group t"
    unfolding render_group_def E by (rule refl)
  moreover have "listed_children s p = listed_children t p" for p
    by (simp add: listed_children_def raw_children_def is_trashed_def is_ancestor_def F)
  ultimately show ?thesis
    by (intro ext) (simp add: readdir_def)
qed

lemma tree_view_resolve:
  assumes "tree_view s = tree_view t"
  shows "resolve s = resolve t" and "path s = path t" and "is_live s = is_live t"
proof -
  have "resolve_from s c ns = resolve_from t c ns" for c ns
    by (induction ns arbitrary: c) (auto simp: tree_view_readdir [OF assms] split: option.split)
  then show "resolve s = resolve t"
    by (intro ext) (simp add: resolve_def Let_def)
  show "path s = path t" and "is_live s = is_live t"
    by (intro ext, simp add: path_def is_live_def tree_edge_def is_ancestor_def tree_view_fields [OF assms] split: option.split)+
qed

lemma demo_inj: "inj_on op_ts (set demo_ops)"
  by (simp add: demo_ops_def mk_def inj_on_def)

lemma demo_same: "set demo_ops = set demo_shuffled"
  by (simp only: demo_ops_def demo_shuffled_def set_append set_rev list.set) (simp add: insert_commute)

lemma demo_op_ok: "list_all op_ok demo_ops"
  by code_simp

section \<open>Replication\<close>

text \<open>
  C1. Strong convergence: two replicas that received the same move operations, each in its own order
  and with any repetitions, have the same log, the same edges, and answer every listing, path
  resolution and path query alike.
\<close>

theorem tree_converges:
  assumes "inj_on op_ts (set xs)" and "set xs = set ys"
  shows "t_log (tree_of xs) = t_log (tree_of ys) \<and> t_edges (tree_of xs) = t_edges (tree_of ys) \<and>
    readdir (tree_of xs) = readdir (tree_of ys) \<and> resolve (tree_of xs) = resolve (tree_of ys) \<and>
    path (tree_of xs) = path (tree_of ys)"
proof -
  have V: "tree_view (tree_of xs) = tree_view (tree_of ys)"
    using tree.converges [OF assms] by (simp add: tree_of_def apply_all_def)
  show ?thesis
    using tree_view_fields [OF V] tree_view_readdir [OF V] tree_view_resolve [OF V] by blast
qed

theorem tree_converges_witness:
  "t_log (tree_of demo_ops) = t_log (tree_of demo_shuffled) \<and>
   t_edges (tree_of demo_ops) = t_edges (tree_of demo_shuffled) \<and>
   readdir (tree_of demo_ops) = readdir (tree_of demo_shuffled) \<and>
   resolve (tree_of demo_ops) = resolve (tree_of demo_shuffled) \<and>
   path (tree_of demo_ops) = path (tree_of demo_shuffled)"
  by (rule tree_converges [OF demo_inj demo_same])

text \<open>
  C2. The undo-do-redo of \<open>integrate\<close> is equivalent to its specification: after any delivery the edges
  are those of replaying the distinct operations once, in timestamp order, each skipped if it would
  make a cycle; and the log holds exactly those operations in that order.
\<close>

theorem integrate_is_sorted_replay:
  assumes "inj_on op_ts (set ops)"
  shows "t_edges (tree_of ops) = replay fmempty (sort_key op_ts (remdups ops)) \<and>
    map le_op (t_log (tree_of ops)) = sort_key op_ts (remdups ops)"
  using tree_of_inv [of ops] by (simp add: tree_inv_def insert_all_canonical [OF assms])

theorem integrate_is_sorted_replay_witness:
  "t_edges (tree_of (rev demo_ops)) = replay fmempty (sort_key op_ts (remdups (rev demo_ops))) \<and>
   map le_op (t_log (tree_of (rev demo_ops))) = sort_key op_ts (remdups (rev demo_ops))"
  by (rule integrate_is_sorted_replay) (simp add: demo_inj)

text \<open>
  Redelivery is harmless: an operation whose timestamp is already in the log changes no answer of
  the tree.
\<close>

theorem redelivery_idempotent:
  assumes "op_ts op \<in> op_ts ` set ops" and "inj_on op_ts (set ops)"
  shows "tree_view (tree_apply (tree_of ops) op) = tree_view (tree_of ops)"
proof (rule tree.redelivery [OF tree_of_inv])
  show "asc_by op_ts (insert_all op_ts ops [])"
    by (rule insert_all_asc) simp
  show "op_ts op \<in> op_ts ` set (insert_all op_ts ops [])"
    using assms set_insert_all_unique [of op_ts ops "[]"] by simp
qed

theorem redelivery_idempotent_witness:
  "tree_view (tree_apply (tree_of demo_ops) (mk 3 ''bb'' ''n2'' ''n1'' ''pics'' Dir)) = tree_view (tree_of demo_ops)"
  by (rule redelivery_idempotent) (simp_all add: demo_inj, simp add: demo_ops_def mk_def)

section \<open>Shape\<close>

text \<open>
  C3. No delivery of any operations, in any order, by any replicas, makes a cycle of directories.
\<close>

theorem tree_never_cyclic: "acyclic (parent_rel (t_edges (tree_of ops)))"
  by (rule tree_inv_acyclic [OF tree_of_inv])

text \<open>
  The bounded parent walk of \<open>is_ancestor\<close> is exact: within its fuel of one more than the number of
  edges it answers true just when the chain of parents of the node reaches the other node, on any
  tree at all.
\<close>

theorem is_ancestor_exact: "is_ancestor t a n \<longleftrightarrow> (n, a) \<in> (parent_rel (t_edges t))\<^sup>*"
  by (rule is_ancestor_iff)

text \<open>
  The derived child index agrees with the edges after any delivery, undone and redone operations
  included.
\<close>

theorem child_index_exact:
  "(name, c) \<in> set (raw_children (tree_of ops) p) \<longleftrightarrow>
     (\<exists>e. tree_edge (tree_of ops) c = Some e \<and> e_parent e = p \<and> e_name e = name)"
  by (simp add: kids_index [OF tree_of_index])

section \<open>Listings\<close>

text \<open>
  C21. A directory listing shows every visible child exactly once, with its kind, in name order: the
  children whose edge names the directory and that are not under the trash, or all of them for the
  trash itself.
\<close>

theorem readdir_lists_each_once:
  "sorted (map fst (readdir (tree_of ops) p)) \<and>
   distinct (map (\<lambda>x. fst (snd x)) (readdir (tree_of ops) p)) \<and>
   (c \<in> (\<lambda>x. fst (snd x)) ` set (readdir (tree_of ops) p) \<longleftrightarrow>
     (\<exists>e. tree_edge (tree_of ops) c = Some e \<and> e_parent e = p \<and> \<not> (p \<noteq> TRASH \<and> is_trashed (tree_of ops) c))) \<and>
   list_all (\<lambda>(_, i, k). k = kind_of (tree_of ops) i) (readdir (tree_of ops) p)"
proof (intro conjI)
  let ?t = "tree_of ops" and ?ids = "\<lambda>x :: string \<times> node_id \<times> node_kind. fst (snd x)"
  show "sorted (map fst (readdir ?t p))"
    by (rule readdir_sorted)
  show "distinct (map ?ids (readdir ?t p))"
    using listed_ids_distinct [OF tree_of_index, of ops p] readdir_ids_mset [of ?t p]
    by (metis mset_eq_imp_distinct_iff)
  have "c \<in> ?ids ` set (readdir ?t p) \<longleftrightarrow> (\<exists>n. (n, c) \<in> set (listed_children ?t p))"
    unfolding readdir_ids by force
  then show "c \<in> ?ids ` set (readdir ?t p) \<longleftrightarrow>
      (\<exists>e. tree_edge ?t c = Some e \<and> e_parent e = p \<and> \<not> (p \<noteq> TRASH \<and> is_trashed ?t c))"
    by (auto simp: mem_listed kids_index [OF tree_of_index])
  show "list_all (\<lambda>(_, i, k). k = kind_of ?t i) (readdir ?t p)"
    by (auto simp: list_all_iff dest: readdir_kind)
qed

text \<open>
  Of several visible children with one name, the one moved last (by the timestamp order) keeps the
  bare name in the listing, and a child without a rival always does.
\<close>

theorem newest_keeps_bare_name:
  assumes "(name, c) \<in> set (listed_children t p)"
    and "\<And>d. (name, d) \<in> set (listed_children t p) \<Longrightarrow> d \<noteq> c \<Longrightarrow> defining_ts t d < defining_ts t c"
  shows "(name, c, kind_of t c) \<in> set (readdir t p)"
  using assms by (rule readdir_winner)

theorem newest_keeps_bare_name_witness:
  "(''a.md'', ''n4'', File) \<in> set (readdir (tree_of demo_ops) ''n1'')"
proof -
  have listed: "listed_children (tree_of demo_ops) ''n1'' = [(''a.md'', ''n3''), (''a.md'', ''n4'')]"
    by code_simp
  have "(''a.md'', ''n4'', kind_of (tree_of demo_ops) ''n4'') \<in> set (readdir (tree_of demo_ops) ''n1'')"
  proof (rule newest_keeps_bare_name)
    fix d
    assume "(''a.md'', d) \<in> set (listed_children (tree_of demo_ops) ''n1'')" and "d \<noteq> ''n4''"
    then have "d = ''n3''" by (simp add: listed)
    moreover have "defining_ts (tree_of demo_ops) ''n3'' < defining_ts (tree_of demo_ops) ''n4''"
      by code_simp
    ultimately show "defining_ts (tree_of demo_ops) d < defining_ts (tree_of demo_ops) ''n4''" by simp
  qed (simp add: listed)
  moreover have "kind_of (tree_of demo_ops) ''n4'' = File" by code_simp
  ultimately show ?thesis by simp
qed

section \<open>Paths\<close>

text \<open>
  The bounded walk of \<open>path\<close> is complete: as long as no operation moves a reserved node, a node has
  a path exactly when its parents lead to the root, and then it is neither trashed nor in limbo.
\<close>

theorem path_exact:
  assumes "list_all op_ok ops"
  shows "(path (tree_of ops) n \<noteq> None) = ((n, ROOT) \<in> (parent_rel (t_edges (tree_of ops)))\<^sup>*) \<and>
    \<not> (path (tree_of ops) n \<noteq> None \<and> (is_trashed (tree_of ops) n \<or> is_limbo (tree_of ops) n))"
proof -
  have rf: "reserved_free (t_edges (tree_of ops))"
    by (rule tree_of_reserved [OF assms])
  then have iff: "(path (tree_of ops) n \<noteq> None) = ((n, ROOT) \<in> (parent_rel (t_edges (tree_of ops)))\<^sup>*)"
    by (intro path_iff_below_root) (simp add: reserved_free_def)
  then show ?thesis
    using below_root_live [OF _ rf, of n] by blast
qed

theorem path_exact_witness:
  "(path (tree_of demo_ops) ''n3'' \<noteq> None) = ((''n3'', ROOT) \<in> (parent_rel (t_edges (tree_of demo_ops)))\<^sup>*) \<and>
   \<not> (path (tree_of demo_ops) ''n3'' \<noteq> None \<and> (is_trashed (tree_of demo_ops) ''n3'' \<or> is_limbo (tree_of demo_ops) ''n3''))"
  by (rule path_exact [OF demo_op_ok])

lemma demo_nested:
  "tree_of (take 3 demo_ops) =
     \<lparr>t_log = t_log (tree_of (take 3 demo_ops)),
      t_edges = fmap_of_list [(''n1'', \<lparr>e_parent = ''n2'', e_name = ''docs'', e_kind = Dir\<rparr>),
        (''n2'', \<lparr>e_parent = ROOT, e_name = ''pics'', e_kind = Dir\<rparr>)],
      t_children = fmap_of_list [(''n2'', {|(''docs'', ''n1'')|}), (ROOT, {|(''pics'', ''n2'')|})]\<rparr>"
  by code_simp

lemma small_listing: "sorted_list_of_fset {|x|} = [x]" "sorted_list_of_fset {||} = []"
  by (simp_all add: sorted_list_of_fset.rep_eq)

lemma demo_nested_edges:
  "tree_edge (tree_of (take 3 demo_ops)) c =
     (if c = ''n1'' then Some \<lparr>e_parent = ''n2'', e_name = ''docs'', e_kind = Dir\<rparr>
      else if c = ''n2'' then Some \<lparr>e_parent = ROOT, e_name = ''pics'', e_kind = Dir\<rparr> else None)"
  unfolding tree_edge_def by (subst demo_nested) (simp add: fmlookup_of_list)

lemma demo_nested_names: "names_unique (tree_of (take 3 demo_ops))"
proof -
  have "raw_children (tree_of (take 3 demo_ops)) p =
      (if p = ''n2'' then [(''docs'', ''n1'')] else if p = ROOT then [(''pics'', ''n2'')] else [])" for p
    unfolding raw_children_def kids_def
    by (subst demo_nested) (simp add: fmlookup_of_list small_listing)
  then show ?thesis
    by (simp add: names_unique_def listed_children_def)
qed

text \<open>
  C24. Resolving a node's path gives the node back, in a tree where every name is a valid one and no
  two visible siblings share a name.
\<close>

theorem resolve_path_roundtrip:
  assumes "list_all op_ok ops" and "\<And>c e. tree_edge (tree_of ops) c = Some e \<Longrightarrow> valid_name (e_name e)"
    and "names_unique (tree_of ops)" and "path (tree_of ops) n = Some p"
  shows "resolve (tree_of ops) p = Some n"
proof (cases "n = ROOT")
  case True
  with assms(4) have "p = ''/''" by (simp add: path_def)
  with True show ?thesis by (simp add: resolve_def)
next
  case False
  with assms(4) obtain ns where ns: "placed (t_edges (tree_of ops)) n ns" and p: "p = CHR ''/'' # join_with ''/'' ns"
    by (auto simp: path_eq_Some)
  have clean: "\<forall>x \<in> set ns. clean_name x"
    using placed_names [OF ns] assms(2) by (auto simp: tree_edge_def intro: valid_name_clean)
  have "ns \<noteq> []" using ns by auto
  then show ?thesis
    unfolding p resolve_joined [OF \<open>ns \<noteq> []\<close> clean]
    by (rule_tac resolve_from_placed [OF ns tree_of_index assms(3) tree_of_reserved [OF assms(1)]])
qed

theorem resolve_path_roundtrip_witness:
  "resolve (tree_of (take 3 demo_ops)) ''/pics/docs'' = Some ''n1''"
proof (rule resolve_path_roundtrip)
  show "list_all op_ok (take 3 demo_ops)"
    by code_simp
  have "valid_name ''docs''" and "valid_name ''pics''"
    by code_simp+
  then show "\<And>c e. tree_edge (tree_of (take 3 demo_ops)) c = Some e \<Longrightarrow> valid_name (e_name e)"
    by (auto simp: demo_nested_edges split: if_splits)
  show "names_unique (tree_of (take 3 demo_ops))"
    by (rule demo_nested_names)
  show "path (tree_of (take 3 demo_ops)) ''n1'' = Some ''/pics/docs''"
    by code_simp
qed

text \<open>
  Resolution is sound: a path resolves to the root or to a placed node whose parents lead to the
  root, never to anything trashed or permanently deleted.
\<close>

theorem resolve_sound:
  assumes "list_all op_ok ops" and "resolve (tree_of ops) p = Some n"
  shows "n = ROOT \<or> tree_edge (tree_of ops) n \<noteq> None \<and> (n, ROOT) \<in> (parent_rel (t_edges (tree_of ops)))\<^sup>+ \<and>
    is_live (tree_of ops) n"
  using resolve_SomeD [OF tree_of_index tree_of_reserved [OF assms(1)] assms(2)] by auto

theorem resolve_sound_witness:
  "''n4'' = ROOT \<or> tree_edge (tree_of demo_ops) ''n4'' \<noteq> None \<and>
     (''n4'', ROOT) \<in> (parent_rel (t_edges (tree_of demo_ops)))\<^sup>+ \<and> is_live (tree_of demo_ops) ''n4''"
  by (rule resolve_sound [OF demo_op_ok, of "''pics/docs/a.md''"]) code_simp

section \<open>Names\<close>

text \<open>
  \<open>validate_name\<close> accepts exactly the non-blank names of at most 255 bytes, other than the two dot
  names, without a slash, a backslash or a control character.
\<close>

theorem validate_name_exact:
  "(validate_name s = Inr ()) =
     (trim s \<noteq> [] \<and> s \<noteq> ''.'' \<and> s \<noteq> ''..'' \<and> length s \<le> MAX_NAME_BYTES \<and>
      list_all (\<lambda>c. c \<noteq> CHR ''/'' \<and> c \<noteq> CHR 0x5C \<and> 32 \<le> (of_char c :: nat)) s)"
  unfolding list_all_iff by (rule validate_name_ok)

end
