(* ===== verification/ContentMap.thy ===== *)
theory ContentMap
  imports DriveTree OpLog
begin

text \<open>
  The content map, \<open>crates/ce-drive-core/src/content.rs\<close>: for every node id the current content
  pointer and its capped version history, changed by four operations. An operation touches one key
  only, and within a key a later edit wins by \<open>(mtime, cid)\<close>.
\<close>

section \<open>Data\<close>

definition MAX_VERSIONS :: nat where
  "MAX_VERSIONS = 32"

record version =
  v_set_at_ms :: u64
  v_cid :: string
  v_size :: u64
  v_conflict :: bool

record file_content =
  fc_cid :: string
  fc_size :: u64
  fc_mode :: u32
  fc_mtime_ms :: u64
  fc_versions :: "version list"
  fc_doc_id :: "string option"

datatype content_op =
    Set node_id string u64 u32 u64
  | Restore node_id string u64
  | Remove node_id
  | SetDoc node_id string

type_synonym content_map = "(node_id, file_content) fmap"

section \<open>One file's content\<close>

definition fc_new :: "string \<Rightarrow> u64 \<Rightarrow> u32 \<Rightarrow> u64 \<Rightarrow> file_content" where
  "fc_new cid sz mode mtime_ms =
     \<lparr>fc_cid = cid, fc_size = sz, fc_mode = mode, fc_mtime_ms = mtime_ms, fc_versions = [],
      fc_doc_id = None\<rparr>"

definition push_version :: "file_content \<Rightarrow> version \<Rightarrow> file_content" where
  "push_version c v =
     (if fc_versions c \<noteq> [] \<and> v_cid (last (fc_versions c)) = v_cid v then c
      else
        (let vs = fc_versions c @ [v] in
         c\<lparr>fc_versions := (if length vs > MAX_VERSIONS then drop (length vs - MAX_VERSIONS) vs else vs)\<rparr>))"

text \<open>\<open>record\<close>: the new content and whether the edit won.\<close>

definition fc_record :: "file_content \<Rightarrow> string \<Rightarrow> u64 \<Rightarrow> u64 \<Rightarrow> file_content \<times> bool" where
  "fc_record c cid sz mtime_ms =
     (if cid = fc_cid c then (c, False)
      else if \<not> (mtime_ms > fc_mtime_ms c \<or> mtime_ms = fc_mtime_ms c \<and> cid > fc_cid c) then
        (push_version c \<lparr>v_set_at_ms = mtime_ms, v_cid = cid, v_size = sz,
           v_conflict = (mtime_ms \<ge> fc_mtime_ms c)\<rparr>, False)
      else
        ((push_version c \<lparr>v_set_at_ms = fc_mtime_ms c, v_cid = fc_cid c, v_size = fc_size c,
            v_conflict = (mtime_ms = fc_mtime_ms c)\<rparr>)
           \<lparr>fc_cid := cid, fc_size := sz, fc_mtime_ms := mtime_ms\<rparr>, True))"

definition conflict_versions :: "file_content \<Rightarrow> version list" where
  "conflict_versions c =
     sort_desc (\<lambda>v. (v_set_at_ms v, v_cid v)) (filter v_conflict (fc_versions c))"

definition has_conflict :: "file_content \<Rightarrow> bool" where
  "has_conflict c \<longleftrightarrow> list_ex v_conflict (fc_versions c)"

definition fc_restore :: "file_content \<Rightarrow> string \<Rightarrow> u64 \<Rightarrow> file_content \<times> bool" where
  "fc_restore c cid now_ms =
     (case find (\<lambda>v. v_cid v = cid) (fc_versions c) of
        Some v \<Rightarrow>
          ((push_version c \<lparr>v_set_at_ms = fc_mtime_ms c, v_cid = fc_cid c, v_size = fc_size c,
              v_conflict = False\<rparr>)
             \<lparr>fc_cid := v_cid v, fc_size := v_size v, fc_mtime_ms := now_ms\<rparr>, True)
      | None \<Rightarrow> (c, False))"

definition fc_all_cids :: "file_content \<Rightarrow> string list" where
  "fc_all_cids c = remdups_adj (sort (fc_cid c # map v_cid (fc_versions c)))"

section \<open>The map\<close>

definition content_get :: "content_map \<Rightarrow> node_id \<Rightarrow> file_content option" where
  "content_get m k = fmlookup m k"

definition content_remove :: "content_map \<Rightarrow> node_id \<Rightarrow> content_map" where
  "content_remove m k = fmdrop k m"

definition content_insert :: "content_map \<Rightarrow> node_id \<Rightarrow> file_content \<Rightarrow> content_map" where
  "content_insert m k c = fmupd k c m"

text \<open>
  \<open>HashMap\<close> iteration has no fixed order; every use of it in the code sorts its result. The model
  visits the keys in ascending order.
\<close>

definition content_entries :: "content_map \<Rightarrow> (node_id \<times> file_content) list" where
  "content_entries m = map (\<lambda>k. (k, the (fmlookup m k))) (sorted_list_of_fset (fmdom m))"

definition content_all_cids :: "content_map \<Rightarrow> string list" where
  "content_all_cids m = remdups_adj (sort (concat (map (fc_all_cids \<circ> snd) (content_entries m))))"

fun content_apply :: "content_map \<Rightarrow> content_op \<Rightarrow> content_map" where
  "content_apply m (Set nid cid sz mode mtime_ms) =
     (case fmlookup m nid of
        Some c \<Rightarrow> fmupd nid (fst (fc_record (c\<lparr>fc_mode := mode\<rparr>) cid sz mtime_ms)) m
      | None \<Rightarrow> fmupd nid (fc_new cid sz mode mtime_ms) m)"
| "content_apply m (Restore nid cid now_ms) =
     (case fmlookup m nid of
        Some c \<Rightarrow> fmupd nid (fst (fc_restore c cid now_ms)) m
      | None \<Rightarrow> m)"
| "content_apply m (Remove nid) = fmdrop nid m"
| "content_apply m (SetDoc nid doc_id) =
     (case fmlookup m nid of
        Some c \<Rightarrow> fmupd nid (c\<lparr>fc_doc_id := Some doc_id\<rparr>) m
      | None \<Rightarrow> m)"

section \<open>Stamped operations and the folds of the log\<close>

record stamped_op =
  s_ts :: timestamp
  s_op :: content_op

fun op_target :: "content_op \<Rightarrow> node_id" where
  "op_target (Set nid _ _ _ _) = nid"
| "op_target (Restore nid _ _) = nid"
| "op_target (Remove nid) = nid"
| "op_target (SetDoc nid _) = nid"

definition apply_stamped :: "stamped_op list \<Rightarrow> content_map \<Rightarrow> content_map" where
  "apply_stamped ops m = fold (\<lambda>s m. content_apply m (s_op s)) ops m"

definition fold_content :: "stamped_op list \<Rightarrow> content_map" where
  "fold_content log = apply_stamped (sort_key s_ts log) fmempty"

definition refold_key :: "content_map \<Rightarrow> stamped_op list \<Rightarrow> node_id \<Rightarrow> content_map" where
  "refold_key m log nid =
     apply_stamped (sort_key s_ts (filter (\<lambda>s. op_target (s_op s) = nid) log)) (content_remove m nid)"

section \<open>Lemmas on one file\<close>

lemma push_version_frame [simp]:
  "fc_cid (push_version c v) = fc_cid c"
  "fc_size (push_version c v) = fc_size c"
  "fc_mode (push_version c v) = fc_mode c"
  "fc_mtime_ms (push_version c v) = fc_mtime_ms c"
  "fc_doc_id (push_version c v) = fc_doc_id c"
  by (simp_all add: push_version_def Let_def)

definition fc_bounded :: "file_content \<Rightarrow> bool" where
  "fc_bounded c \<longleftrightarrow> length (fc_versions c) \<le> MAX_VERSIONS"

lemma push_version_bounded: "fc_bounded c \<Longrightarrow> fc_bounded (push_version c v)"
  by (auto simp: fc_bounded_def push_version_def Let_def)

lemma fc_new_bounded: "fc_bounded (fc_new cid sz mode mtime)"
  by (simp add: fc_bounded_def fc_new_def)

lemma fc_bounded_updates [simp]:
  "fc_bounded (c\<lparr>fc_cid := x, fc_size := y, fc_mtime_ms := z\<rparr>) = fc_bounded c"
  "fc_bounded (c\<lparr>fc_mode := m\<rparr>) = fc_bounded c"
  "fc_bounded (c\<lparr>fc_doc_id := d\<rparr>) = fc_bounded c"
  by (simp_all add: fc_bounded_def)

lemma fc_record_bounded: "fc_bounded c \<Longrightarrow> fc_bounded (fst (fc_record c cid sz mtime))"
  by (simp add: fc_record_def push_version_bounded)

lemma fc_restore_bounded: "fc_bounded c \<Longrightarrow> fc_bounded (fst (fc_restore c cid now))"
  by (simp add: fc_restore_def push_version_bounded split: option.split)

text \<open>The newest version is never pruned: a pushed cid is in the history.\<close>

definition fc_cids :: "file_content \<Rightarrow> string set" where
  "fc_cids c = insert (fc_cid c) (v_cid ` set (fc_versions c))"

lemma set_fc_all_cids: "set (fc_all_cids c) = fc_cids c"
  by (simp add: fc_all_cids_def fc_cids_def del: sort_key_simps)

lemma push_version_mem: "v_cid v \<in> v_cid ` set (fc_versions (push_version c v))"
proof (cases "fc_versions c \<noteq> [] \<and> v_cid (last (fc_versions c)) = v_cid v")
  case True
  then show ?thesis
    by (auto simp: push_version_def intro: rev_image_eqI [of "last (fc_versions c)"])
next
  case False
  then show ?thesis
    by (auto simp: push_version_def Let_def MAX_VERSIONS_def)
qed

lemma push_version_keeps:
  "length (fc_versions c) < MAX_VERSIONS \<Longrightarrow>
    set (fc_versions c) \<subseteq> set (fc_versions (push_version c v))"
  by (auto simp: push_version_def Let_def)

lemma fc_record_keeps: "{fc_cid c, cid} \<subseteq> fc_cids (fst (fc_record c cid sz mtime))"
  using push_version_mem [of "\<lparr>v_set_at_ms = mtime, v_cid = cid, v_size = sz,
      v_conflict = (mtime \<ge> fc_mtime_ms c)\<rparr>" c]
    push_version_mem [of "\<lparr>v_set_at_ms = fc_mtime_ms c, v_cid = fc_cid c, v_size = fc_size c,
      v_conflict = (mtime = fc_mtime_ms c)\<rparr>" c]
  by (auto simp: fc_record_def fc_cids_def)

lemma fc_record_history:
  "length (fc_versions c) < MAX_VERSIONS \<Longrightarrow>
    v_cid ` set (fc_versions c) \<subseteq> fc_cids (fst (fc_record c cid sz mtime))"
  using push_version_keeps [of c] by (auto simp: fc_record_def fc_cids_def)

lemma fc_record_lww:
  "cid \<noteq> fc_cid c \<Longrightarrow>
    (fc_mtime_ms (fst (fc_record c cid sz mtime)), fc_cid (fst (fc_record c cid sz mtime)))
      = max (fc_mtime_ms c, fc_cid c) (mtime, cid)"
  by (auto simp: fc_record_def max_def)

lemma fc_record_won:
  "snd (fc_record c cid sz mtime) \<longleftrightarrow>
     cid \<noteq> fc_cid c \<and> (fc_mtime_ms c, fc_cid c) < (mtime, cid)"
  by (auto simp: fc_record_def)

section \<open>Lemmas on the map: keys are independent\<close>

text \<open>What an operation does to the record of its own key.\<close>

definition key_apply :: "content_op \<Rightarrow> file_content option \<Rightarrow> file_content option" where
  "key_apply op old =
     (case op of
        Set nid cid sz mode mtime \<Rightarrow>
          (case old of Some c \<Rightarrow> Some (fst (fc_record (c\<lparr>fc_mode := mode\<rparr>) cid sz mtime))
           | None \<Rightarrow> Some (fc_new cid sz mode mtime))
      | Restore nid cid now \<Rightarrow> map_option (\<lambda>c. fst (fc_restore c cid now)) old
      | Remove nid \<Rightarrow> None
      | SetDoc nid doc \<Rightarrow> map_option (\<lambda>c. c\<lparr>fc_doc_id := Some doc\<rparr>) old)"

lemma content_apply_lookup:
  "fmlookup (content_apply m op) k =
     (if k = op_target op then key_apply op (fmlookup m k) else fmlookup m k)"
  by (cases op) (auto simp: key_apply_def split: option.split)

lemma apply_stamped_simps [simp]:
  "apply_stamped [] m = m"
  "apply_stamped (s # ops) m = apply_stamped ops (content_apply m (s_op s))"
  "apply_stamped (xs @ ys) m = apply_stamped ys (apply_stamped xs m)"
  by (simp_all add: apply_stamped_def)

lemma apply_stamped_lookup:
  "fmlookup (apply_stamped ops m) k =
     fold (\<lambda>s. key_apply (s_op s)) (filter (\<lambda>s. op_target (s_op s) = k) ops) (fmlookup m k)"
  by (induction ops arbitrary: m) (auto simp: content_apply_lookup)

lemma filter_sort_key: "filter P (sort_key f xs) = sort_key f (filter P xs)"
  by (rule filter_sort)

lemma fold_content_lookup:
  "fmlookup (fold_content log) k =
     fold (\<lambda>s. key_apply (s_op s)) (sort_key s_ts (filter (\<lambda>s. op_target (s_op s) = k) log)) None"
  by (simp add: fold_content_def apply_stamped_lookup filter_sort_key)

text \<open>
  Re-folding one key of a map whose other keys are up to date gives the full fold: the incremental
  merge is equivalent to folding the whole log again.
\<close>

lemma refold_key_correct:
  assumes "\<And>k. k \<noteq> nid \<Longrightarrow> fmlookup m k = fmlookup (fold_content log) k"
  shows "refold_key m log nid = fold_content log"
proof (rule fmap_ext)
  fix k
  show "fmlookup (refold_key m log nid) k = fmlookup (fold_content log) k"
  proof (cases "k = nid")
    case True
    then show ?thesis
      by (simp add: refold_key_def apply_stamped_lookup fold_content_lookup content_remove_def
          filter_sort_key)
  next
    case False
    then have "filter (\<lambda>s. op_target (s_op s) = k \<and> op_target (s_op s) = nid) log = []"
      by (auto simp: filter_empty_conv)
    with False show ?thesis
      by (simp add: refold_key_def apply_stamped_lookup content_remove_def filter_sort_key
          conj_commute assms)
  qed
qed

text \<open>Appending an operation that is later than all others is one more step of the fold.\<close>

lemma fold_content_asc: "asc_by s_ts log \<Longrightarrow> fold_content log = apply_stamped log fmempty"
  by (simp add: fold_content_def sort_key_asc_by)

lemma fold_content_snoc:
  "asc_by s_ts log \<Longrightarrow> \<forall>s \<in> set log. s_ts s < s_ts x \<Longrightarrow>
    fold_content (log @ [x]) = content_apply (fold_content log) (s_op x)"
  by (simp add: fold_content_asc sorted_wrt_append)

text \<open>An operation on one key leaves the fold at every other key as it was.\<close>

lemma fold_content_other_key:
  "asc_by s_ts log \<Longrightarrow> k \<noteq> op_target (s_op x) \<Longrightarrow>
    fmlookup (fold_content (insert_op s_ts x log)) k = fmlookup (fold_content log) k"
proof -
  assume asc: "asc_by s_ts log" and k: "k \<noteq> op_target (s_op x)"
  have "filter (\<lambda>s. op_target (s_op s) = k) (insert_op s_ts x log)
      = filter (\<lambda>s. op_target (s_op s) = k) log"
    using k filter_append [of "\<lambda>s. op_target (s_op s) = k" "before s_ts (s_ts x) log"
        "from_key s_ts (s_ts x) log"]
    by (simp add: insert_op_def)
  then show ?thesis by (simp add: fold_content_lookup)
qed

text \<open>Bounded histories everywhere.\<close>

definition map_bounded :: "content_map \<Rightarrow> bool" where
  "map_bounded m \<longleftrightarrow> (\<forall>k c. fmlookup m k = Some c \<longrightarrow> fc_bounded c)"

lemma content_apply_bounded: "map_bounded m \<Longrightarrow> map_bounded (content_apply m op)"
  unfolding map_bounded_def content_apply_lookup
  by (auto simp: key_apply_def fc_record_bounded fc_restore_bounded fc_new_bounded
      split: content_op.splits option.splits if_splits)

lemma apply_stamped_bounded: "map_bounded m \<Longrightarrow> map_bounded (apply_stamped ops m)"
  by (induction ops arbitrary: m) (simp_all add: content_apply_bounded)

lemma fold_content_bounded: "map_bounded (fold_content log)"
  using apply_stamped_bounded [of fmempty "sort_key s_ts log"]
  by (simp add: fold_content_def map_bounded_def)

lemma set_content_entries: "(k, c) \<in> set (content_entries m) \<longleftrightarrow> fmlookup m k = Some c"
  by (auto simp: content_entries_def fmlookup_dom_iff image_iff intro: fmdomI)

lemma set_content_all_cids:
  "x \<in> set (content_all_cids m) \<longleftrightarrow> (\<exists>k c. fmlookup m k = Some c \<and> x \<in> fc_cids c)"
proof -
  have "x \<in> set (content_all_cids m) \<longleftrightarrow> (\<exists>e \<in> set (content_entries m). x \<in> fc_cids (snd e))"
    by (simp add: content_all_cids_def set_fc_all_cids)
  also have "\<dots> \<longleftrightarrow> (\<exists>k c. (k, c) \<in> set (content_entries m) \<and> x \<in> fc_cids c)"
    by force
  finally show ?thesis by (simp add: set_content_entries)
qed

lemma content_all_cids_sorted: "sorted (content_all_cids m)" "distinct (content_all_cids m)"
  by (simp_all add: content_all_cids_def sorted_remdups_adj distinct_remdups_adj_sorted)

end
