(* ===== verification/Drive.thy ===== *)
theory Drive
  imports Names ContentMap
begin

text \<open>
  The drive handle, \<open>crates/ce-drive-core/src/drive.rs\<close>: the persisted state (the two operation logs
  and the clock) with the tree and the content map replayed from it, and every operation on them.
  A failing operation returns the error and changes nothing. What the code reads from its
  environment is an argument: \<open>ctr\<close> is the value the process-wide counter of \<open>fresh_node_id\<close> returns,
  \<open>now_ms\<close> and \<open>now_secs\<close> are clock readings.
\<close>

section \<open>Data\<close>

record drive_state =
  ds_name :: string
  ds_replica :: string
  ds_lamport :: u64
  ds_move_log :: "move_op list"
  ds_content_log :: "stamped_op list"

record drive =
  d_state :: drive_state
  d_tree :: drive_tree
  d_content :: content_map

record dir_entry =
  de_name :: string
  de_node_id :: node_id
  de_is_dir :: bool
  de_content :: "file_content option"

record content_conflict =
  cc_node_id :: node_id
  cc_path :: string
  cc_current_cid :: string
  cc_conflict_cids :: "string list"

datatype drive_error =
    InvalidName string name_error
  | NoSuchDirectory string
  | NotADirectory string
  | AlreadyExists string string
  | ExistsAsDirectory string string
  | NoSuchPath string
  | CannotMoveRoot
  | CannotDeleteRoot
  | NotInTrash node_id
  | NoContentHistory string

type_synonym 'a result = "drive_error + 'a"

section \<open>Construction and the clock\<close>

definition drive_init :: "string \<Rightarrow> string \<Rightarrow> drive" where
  "drive_init name rep =
     \<lparr>d_state = \<lparr>ds_name = name, ds_replica = rep, ds_lamport = 0, ds_move_log = [],
        ds_content_log = []\<rparr>,
      d_tree = tree_new, d_content = fmempty\<rparr>"

definition from_state :: "drive_state \<Rightarrow> drive" where
  "from_state st =
     \<lparr>d_state = st, d_tree = apply_all (ds_move_log st) tree_new,
      d_content = fold_content (ds_content_log st)\<rparr>"

definition fresh_node_id :: "u64 \<Rightarrow> u64 \<Rightarrow> node_id" where
  "fresh_node_id lam ctr = hex_padded 12 lam @ hex_padded 8 ctr"

definition set_lamport :: "u64 \<Rightarrow> drive \<Rightarrow> drive" where
  "set_lamport l d = d\<lparr>d_state := (d_state d)\<lparr>ds_lamport := l\<rparr>\<rparr>"

definition tick :: "drive \<Rightarrow> drive \<times> timestamp" where
  "tick d =
     (let l = ds_lamport (d_state d) + 1 in
      (set_lamport l d, Timestamp l (ds_replica (d_state d))))"

definition push_move :: "drive \<Rightarrow> move_op \<Rightarrow> drive" where
  "push_move d op =
     d\<lparr>d_tree := tree_apply (d_tree d) op,
       d_state := (d_state d)\<lparr>ds_move_log := ds_move_log (d_state d) @ [op]\<rparr>\<rparr>"

definition push_content :: "drive \<Rightarrow> content_op \<Rightarrow> drive" where
  "push_content d op =
     (let (d1, ts) = tick d in
      d1\<lparr>d_content := content_apply (d_content d1) op,
         d_state := (d_state d1)\<lparr>ds_content_log :=
            ds_content_log (d_state d1) @ [\<lparr>s_ts = ts, s_op = op\<rparr>]\<rparr>\<rparr>)"

text \<open>A local move: the next tick stamps it.\<close>

definition push_new_move :: "drive \<Rightarrow> node_id \<Rightarrow> node_id \<Rightarrow> string \<Rightarrow> node_kind \<Rightarrow> drive" where
  "push_new_move d child parent name kind =
     (let (d1, ts) = tick d in
      push_move d1 \<lparr>op_ts = ts, op_child = child, op_new_parent = parent, op_new_name = name,
        op_kind = kind\<rparr>)"

section \<open>Merging remote operations\<close>

definition apply_remote_move :: "drive \<Rightarrow> move_op \<Rightarrow> drive" where
  "apply_remote_move d op =
     push_move (set_lamport (max (ds_lamport (d_state d)) (lamport (op_ts op)) + 1) d) op"

definition apply_remote_content :: "drive \<Rightarrow> stamped_op \<Rightarrow> drive" where
  "apply_remote_content d op =
     (let d1 = set_lamport (max (ds_lamport (d_state d)) (lamport (s_ts op)) + 1) d;
          log = ds_content_log (d_state d1);
          pre = before s_ts (s_ts op) log;
          post = from_key s_ts (s_ts op) log in
      if post \<noteq> [] \<and> s_ts (hd post) = s_ts op then d1
      else
        (let log' = pre @ op # post in
         d1\<lparr>d_state := (d_state d1)\<lparr>ds_content_log := log'\<rparr>,
            d_content := refold_key (d_content d1) log' (op_target (s_op op))\<rparr>))"

section \<open>Structural operations\<close>

definition check_name :: "string \<Rightarrow> unit result" where
  "check_name name = (case validate_name name of Inl e \<Rightarrow> Inl (InvalidName name e) | Inr _ \<Rightarrow> Inr ())"

definition resolve_dir :: "drive \<Rightarrow> string \<Rightarrow> node_id result" where
  "resolve_dir d p =
     res_bind (ok_or (NoSuchDirectory p) (resolve (d_tree d) p)) (\<lambda>n.
       if n \<noteq> ROOT \<and> map_option e_kind (tree_edge (d_tree d) n) \<noteq> Some Dir
       then Inl (NotADirectory p) else Inr n)"

definition child_named :: "drive \<Rightarrow> node_id \<Rightarrow> string \<Rightarrow> node_id option" where
  "child_named d parent name =
     map_option snd (find (\<lambda>(n, i). n = name \<and> \<not> is_trashed (d_tree d) i)
                          (raw_children (d_tree d) parent))"

definition mkdir :: "drive \<Rightarrow> u64 \<Rightarrow> string \<Rightarrow> string \<Rightarrow> (node_id \<times> drive) result" where
  "mkdir d ctr parent_path name =
     res_bind (check_name name) (\<lambda>_.
     res_bind (resolve_dir d parent_path) (\<lambda>parent.
       if child_named d parent name \<noteq> None then Inl (AlreadyExists name parent_path)
       else
         (let i = fresh_node_id (ds_lamport (d_state d) + 1) ctr in
          Inr (i, push_new_move d i parent name Dir))))"

definition set_op :: "node_id \<Rightarrow> file_content \<Rightarrow> content_op" where
  "set_op i c = Set i (fc_cid c) (fc_size c) (fc_mode c) (fc_mtime_ms c)"

definition add_file ::
    "drive \<Rightarrow> u64 \<Rightarrow> string \<Rightarrow> string \<Rightarrow> file_content \<Rightarrow> (node_id \<times> drive) result" where
  "add_file d ctr parent_path name content =
     res_bind (check_name name) (\<lambda>_.
     res_bind (resolve_dir d parent_path) (\<lambda>parent.
       (case child_named d parent name of
          Some existing \<Rightarrow>
            if map_option e_kind (tree_edge (d_tree d) existing) = Some File
            then Inr (existing, push_content d (set_op existing content))
            else Inl (ExistsAsDirectory name parent_path)
        | None \<Rightarrow>
            (let i = fresh_node_id (ds_lamport (d_state d) + 1) ctr;
                 d1 = push_new_move d i parent name File in
             Inr (i, push_content d1 (set_op i content))))))"

definition mv :: "drive \<Rightarrow> string \<Rightarrow> string \<Rightarrow> string \<Rightarrow> drive result" where
  "mv d src_path dst_parent_path dst_name =
     res_bind (check_name dst_name) (\<lambda>_.
     res_bind (ok_or (NoSuchPath src_path) (resolve (d_tree d) src_path)) (\<lambda>node.
       if node = ROOT then Inl CannotMoveRoot
       else res_bind (resolve_dir d dst_parent_path) (\<lambda>dst_parent.
         Inr (push_new_move d node dst_parent dst_name (kind_of (d_tree d) node)))))"

definition edge_name :: "drive_tree \<Rightarrow> node_id \<Rightarrow> string" where
  "edge_name t n = (case tree_edge t n of Some e \<Rightarrow> e_name e | None \<Rightarrow> [])"

definition rm :: "drive \<Rightarrow> string \<Rightarrow> drive result" where
  "rm d p =
     res_bind (ok_or (NoSuchPath p) (resolve (d_tree d) p)) (\<lambda>node.
       if node = ROOT then Inl CannotDeleteRoot
       else Inr (push_new_move d node TRASH (edge_name (d_tree d) node) (kind_of (d_tree d) node)))"

section \<open>Trash\<close>

definition entry_of :: "drive \<Rightarrow> string \<times> node_id \<times> node_kind \<Rightarrow> dir_entry" where
  "entry_of d x =
     (case x of (name, i, kind) \<Rightarrow>
        \<lparr>de_name = name, de_node_id = i, de_is_dir = (kind = Dir),
         de_content = content_get (d_content d) i\<rparr>)"

definition trash :: "drive \<Rightarrow> dir_entry list" where
  "trash d = map (entry_of d) (readdir (d_tree d) TRASH)"

definition restore :: "drive \<Rightarrow> node_id \<Rightarrow> string option \<Rightarrow> string option \<Rightarrow> drive result" where
  "restore d node dst_parent_path dst_name =
     (if \<not> is_trashed (d_tree d) node then Inl (NotInTrash node)
      else
        (let name = (case dst_name of Some s \<Rightarrow> s | None \<Rightarrow> edge_name (d_tree d) node);
             parent_path = (case dst_parent_path of Some s \<Rightarrow> s | None \<Rightarrow> ''/'') in
         res_bind (check_name name) (\<lambda>_.
         res_bind (resolve_dir d parent_path) (\<lambda>parent.
           if child_named d parent name \<noteq> None then Inl (AlreadyExists name parent_path)
           else Inr (push_new_move d node parent name (kind_of (d_tree d) node))))))"

text \<open>One iteration of \<open>hard_delete\<close>: detach the node, then drop its content record.\<close>

definition hard_delete_one :: "drive \<Rightarrow> node_id \<Rightarrow> drive" where
  "hard_delete_one d i =
     (let d1 = push_new_move d i LIMBO i (kind_of (d_tree d) i) in
      if content_get (d_content d1) i \<noteq> None then push_content d1 (Remove i) else d1)"

definition hard_delete :: "drive \<Rightarrow> node_id list \<Rightarrow> drive" where
  "hard_delete d ids = fold (\<lambda>i d. hard_delete_one d i) ids d"

definition trash_ids :: "drive \<Rightarrow> node_id list" where
  "trash_ids d = map (\<lambda>x. fst (snd x)) (readdir (d_tree d) TRASH)"

definition empty_trash :: "drive \<Rightarrow> node_id list \<times> drive" where
  "empty_trash d = (trash_ids d, hard_delete d (trash_ids d))"

definition sat_sub :: "u64 \<Rightarrow> u64 \<Rightarrow> u64" where
  "sat_sub a b = (if a < b then 0 else a - b)"

definition sat_mul :: "u64 \<Rightarrow> u64 \<Rightarrow> u64" where
  "sat_mul a b = (if unat a * unat b < 2 ^ 64 then a * b else - 1)"

definition gc_victims :: "drive \<Rightarrow> u64 \<Rightarrow> node_id list" where
  "gc_victims d cutoff_ms =
     filter (\<lambda>i. case content_get (d_content d) i of
                   Some c \<Rightarrow> fc_mtime_ms c \<le> cutoff_ms
                 | None \<Rightarrow> True) (trash_ids d)"

definition gc_trash :: "drive \<Rightarrow> u64 \<Rightarrow> u64 \<Rightarrow> node_id list \<times> drive" where
  "gc_trash d now_secs retention_secs =
     (if retention_secs = 0 then empty_trash d
      else
        (let victims = gc_victims d (sat_mul (sat_sub now_secs retention_secs) 1000) in
         (victims, hard_delete d victims)))"

section \<open>Content\<close>

definition set_content :: "drive \<Rightarrow> node_id \<Rightarrow> file_content \<Rightarrow> drive" where
  "set_content d i content = push_content d (set_op i content)"

definition content_conflicts :: "drive \<Rightarrow> content_conflict list" where
  "content_conflicts d =
     sort_key cc_path
       (concat (map (\<lambda>(i, c).
          if \<not> has_conflict c then []
          else (case path (d_tree d) i of
                  None \<Rightarrow> []
                | Some p \<Rightarrow> [\<lparr>cc_node_id = i, cc_path = p, cc_current_cid = fc_cid c,
                              cc_conflict_cids = map v_cid (conflict_versions c)\<rparr>]))
        (content_entries (d_content d))))"

definition restore_version :: "drive \<Rightarrow> u64 \<Rightarrow> string \<Rightarrow> string \<Rightarrow> drive result" where
  "restore_version d now_ms p cid =
     res_bind (ok_or (NoSuchPath p) (resolve (d_tree d) p)) (\<lambda>node.
       if content_get (d_content d) node = None then Inl (NoContentHistory p)
       else Inr (push_content d (Restore node cid now_ms)))"

section \<open>Queries\<close>

definition ls :: "drive \<Rightarrow> string \<Rightarrow> dir_entry list result" where
  "ls d p = res_bind (resolve_dir d p) (\<lambda>dir. Inr (map (entry_of d) (readdir (d_tree d) dir)))"

definition path_of :: "drive \<Rightarrow> node_id \<Rightarrow> string option" where
  "path_of d i = path (d_tree d) i"

definition all_cids :: "drive \<Rightarrow> string list" where
  "all_cids d = content_all_cids (d_content d)"

definition op_count :: "drive \<Rightarrow> nat" where
  "op_count d = length (ds_move_log (d_state d)) + length (ds_content_log (d_state d))"

section \<open>Compaction\<close>

text \<open>
  The accumulator of the breadth-first loop: the new clock and the two new logs. \<open>next_ts\<close> bumps the
  clock and stamps with this device's replica.
\<close>

record compact_acc =
  ca_lamport :: u64
  ca_moves :: "move_op list"
  ca_content :: "stamped_op list"

definition emit_move :: "replica_id \<Rightarrow> node_id \<Rightarrow> node_id \<Rightarrow> string \<Rightarrow> node_kind \<Rightarrow> compact_acc \<Rightarrow> compact_acc" where
  "emit_move r child parent name kind a =
     (let l = ca_lamport a + 1 in
      a\<lparr>ca_lamport := l, ca_moves := ca_moves a @
          [\<lparr>op_ts = Timestamp l r, op_child = child, op_new_parent = parent, op_new_name = name,
            op_kind = kind\<rparr>]\<rparr>)"

definition emit_content :: "replica_id \<Rightarrow> content_op \<Rightarrow> compact_acc \<Rightarrow> compact_acc" where
  "emit_content r op a =
     (let l = ca_lamport a + 1 in
      a\<lparr>ca_lamport := l, ca_content := ca_content a @ [\<lparr>s_ts = Timestamp l r, s_op = op\<rparr>]\<rparr>)"

text \<open>The content operations that rebuild one record: its versions, its current pointer, its document.\<close>

definition record_ops :: "node_id \<Rightarrow> file_content \<Rightarrow> content_op list" where
  "record_ops i c =
     map (\<lambda>v. Set i (v_cid v) (v_size v) (fc_mode c) (v_set_at_ms v)) (fc_versions c)
     @ [Set i (fc_cid c) (fc_size c) (fc_mode c) (fc_mtime_ms c)]
     @ (case fc_doc_id c of Some doc \<Rightarrow> [SetDoc i doc] | None \<Rightarrow> [])"

definition compact_child ::
    "drive \<Rightarrow> node_id \<Rightarrow> string \<times> node_id \<Rightarrow> compact_acc \<Rightarrow> compact_acc" where
  "compact_child d parent x a =
     (case x of (name, i) \<Rightarrow>
        (let r = ds_replica (d_state d);
             a1 = emit_move r i parent name (kind_of (d_tree d) i) a in
         (case content_get (d_content d) i of
            Some c \<Rightarrow> fold (emit_content r) (record_ops i c) a1
          | None \<Rightarrow> a1)))"

definition kept_children :: "drive_tree \<Rightarrow> node_id \<Rightarrow> (string \<times> node_id) list" where
  "kept_children t p =
     filter (\<lambda>(_, i). \<not> (is_trashed t i \<or> is_limbo t i)) (sort (raw_children t p))"

definition kept_dirs :: "drive_tree \<Rightarrow> node_id \<Rightarrow> node_id list" where
  "kept_dirs t p = filter (\<lambda>i. kind_of t i = Dir) (map snd (kept_children t p))"

text \<open>The queue loop; it returns when the queue is empty.\<close>

partial_function (option) compact_loop ::
    "drive \<Rightarrow> node_id list \<Rightarrow> compact_acc \<Rightarrow> compact_acc option" where
  "compact_loop d queue a =
     (case queue of
        [] \<Rightarrow> Some a
      | parent # rest \<Rightarrow>
          compact_loop d (rest @ kept_dirs (d_tree d) parent)
            (fold (compact_child d parent) (kept_children (d_tree d) parent) a))"

definition compact :: "drive \<Rightarrow> drive option" where
  "compact d =
     (case compact_loop d [ROOT] \<lparr>ca_lamport = 0, ca_moves = [], ca_content = []\<rparr> of
        None \<Rightarrow> None
      | Some a \<Rightarrow>
          Some \<lparr>d_state = (d_state d)\<lparr>ds_move_log := ca_moves a, ds_content_log := ca_content a,
                   ds_lamport := ca_lamport a\<rparr>,
                d_tree = apply_all (ca_moves a) tree_new,
                d_content = fold_content (ca_content a)\<rparr>)"

declare compact_loop.simps [code]

end
