(* ===== verification/DriveInv.thy ===== *)
theory DriveInv
  imports Drive
begin

text \<open>
  The invariant of the drive handle and its preservation by every operation: the tree is the replay
  of the move log, the content map the fold of the content log, the content log strictly ascending,
  and the clock at or above every timestamp. The clock is a wrapping \<open>u64\<close>, so an operation has a
  \<open>room\<close> hypothesis: the ticks it takes do not wrap.
\<close>

section \<open>The invariant\<close>

abbreviation moves_of :: "drive \<Rightarrow> move_op list" where
  "moves_of d \<equiv> ds_move_log (d_state d)"

abbreviation contents_of :: "drive \<Rightarrow> stamped_op list" where
  "contents_of d \<equiv> ds_content_log (d_state d)"

abbreviation clock :: "drive \<Rightarrow> nat" where
  "clock d \<equiv> unat (ds_lamport (d_state d))"

abbreviation canonical_moves :: "drive \<Rightarrow> move_op list" where
  "canonical_moves d \<equiv> insert_all op_ts (moves_of d) []"

definition content_ok :: "drive \<Rightarrow> bool" where
  "content_ok d \<longleftrightarrow> asc_by s_ts (contents_of d) \<and> d_content d = fold_content (contents_of d)"

definition clock_ok :: "drive \<Rightarrow> bool" where
  "clock_ok d \<longleftrightarrow>
     (\<forall>op \<in> set (moves_of d). lamport (op_ts op) \<le> ds_lamport (d_state d)) \<and>
     (\<forall>s \<in> set (contents_of d). lamport (s_ts s) \<le> ds_lamport (d_state d))"

definition drive_inv :: "drive \<Rightarrow> bool" where
  "drive_inv d \<longleftrightarrow> tree_inv (d_tree d) (canonical_moves d) \<and> content_ok d \<and> clock_ok d"

definition room :: "nat \<Rightarrow> drive \<Rightarrow> bool" where
  "room n d \<longleftrightarrow> clock d + n < 2 ^ 64"

lemma drive_invD:
  assumes "drive_inv d"
  shows "tree_inv (d_tree d) (canonical_moves d)" and "content_ok d" and "clock_ok d"
    and "index_ok (d_tree d)" and "t_edges (d_tree d) = replay fmempty (canonical_moves d)"
  using assms by (simp_all add: drive_inv_def tree_inv_def)

lemma room_mono: "room m d \<Longrightarrow> n \<le> m \<Longrightarrow> room n d"
  by (simp add: room_def)

lemma room_next:
  assumes "room n d" and "0 < n"
  shows "ds_lamport (d_state d) < ds_lamport (d_state d) + 1"
    and "unat (ds_lamport (d_state d) + 1) = clock d + 1"
proof -
  show eq: "unat (ds_lamport (d_state d) + 1) = clock d + 1"
    using assms by (subst unat_add_lem [THEN iffD1]) (simp_all add: room_def)
  show "ds_lamport (d_state d) < ds_lamport (d_state d) + 1"
    by (simp add: word_less_nat_alt eq)
qed

section \<open>What the building blocks change\<close>

lemma set_lamport_frame [simp]:
  "d_tree (set_lamport l d) = d_tree d" "d_content (set_lamport l d) = d_content d"
  "moves_of (set_lamport l d) = moves_of d" "contents_of (set_lamport l d) = contents_of d"
  "ds_lamport (d_state (set_lamport l d)) = l"
  "ds_replica (d_state (set_lamport l d)) = ds_replica (d_state d)"
  "ds_name (d_state (set_lamport l d)) = ds_name (d_state d)"
  by (simp_all add: set_lamport_def)

lemma push_move_frame [simp]:
  "d_tree (push_move d op) = integrate (d_tree d) op" "d_content (push_move d op) = d_content d"
  "moves_of (push_move d op) = moves_of d @ [op]" "contents_of (push_move d op) = contents_of d"
  "ds_lamport (d_state (push_move d op)) = ds_lamport (d_state d)"
  "ds_replica (d_state (push_move d op)) = ds_replica (d_state d)"
  "ds_name (d_state (push_move d op)) = ds_name (d_state d)"
  by (simp_all add: push_move_def)

definition next_ts :: "drive \<Rightarrow> timestamp" where
  "next_ts d = Timestamp (ds_lamport (d_state d) + 1) (ds_replica (d_state d))"

lemma tick_eq: "tick d = (set_lamport (ds_lamport (d_state d) + 1) d, next_ts d)"
  by (simp add: tick_def next_ts_def Let_def)

definition new_move :: "drive \<Rightarrow> node_id \<Rightarrow> node_id \<Rightarrow> string \<Rightarrow> node_kind \<Rightarrow> move_op" where
  "new_move d child parent name kind =
     \<lparr>op_ts = next_ts d, op_child = child, op_new_parent = parent, op_new_name = name, op_kind = kind\<rparr>"

lemma push_new_move_eq:
  "push_new_move d c p n k = push_move (set_lamport (ds_lamport (d_state d) + 1) d) (new_move d c p n k)"
  by (simp add: push_new_move_def tick_eq new_move_def)

lemma push_new_move_frame [simp]:
  "d_tree (push_new_move d c p n k) = integrate (d_tree d) (new_move d c p n k)"
  "d_content (push_new_move d c p n k) = d_content d"
  "moves_of (push_new_move d c p n k) = moves_of d @ [new_move d c p n k]"
  "contents_of (push_new_move d c p n k) = contents_of d"
  "ds_lamport (d_state (push_new_move d c p n k)) = ds_lamport (d_state d) + 1"
  "ds_replica (d_state (push_new_move d c p n k)) = ds_replica (d_state d)"
  "ds_name (d_state (push_new_move d c p n k)) = ds_name (d_state d)"
  by (simp_all add: push_new_move_eq)

lemma push_content_frame [simp]:
  "d_tree (push_content d op) = d_tree d"
  "d_content (push_content d op) = content_apply (d_content d) op"
  "moves_of (push_content d op) = moves_of d"
  "contents_of (push_content d op) = contents_of d @ [\<lparr>s_ts = next_ts d, s_op = op\<rparr>]"
  "ds_lamport (d_state (push_content d op)) = ds_lamport (d_state d) + 1"
  "ds_replica (d_state (push_content d op)) = ds_replica (d_state d)"
  "ds_name (d_state (push_content d op)) = ds_name (d_state d)"
  by (simp_all add: push_content_def tick_eq)

lemma new_move_fields [simp]:
  "op_ts (new_move d c p n k) = next_ts d" "op_child (new_move d c p n k) = c"
  "op_new_parent (new_move d c p n k) = p" "op_new_name (new_move d c p n k) = n"
  "op_kind (new_move d c p n k) = k"
  by (simp_all add: new_move_def)

lemma lamport_next_ts [simp]: "lamport (next_ts d) = ds_lamport (d_state d) + 1"
  by (simp add: next_ts_def)

section \<open>Preservation by the building blocks\<close>

lemma drive_init_inv: "drive_inv (drive_init name rep)"
  by (simp add: drive_inv_def drive_init_def tree_new_inv content_ok_def clock_ok_def fold_content_def)

lemma clock_ok_mono: "clock_ok d \<Longrightarrow> ds_lamport (d_state d) \<le> l \<Longrightarrow> clock_ok (set_lamport l d)"
  by (auto simp: clock_ok_def intro: order_trans)

lemma set_lamport_inv: "drive_inv d \<Longrightarrow> ds_lamport (d_state d) \<le> l \<Longrightarrow> drive_inv (set_lamport l d)"
  using clock_ok_mono by (simp add: drive_inv_def content_ok_def)

lemma push_move_inv:
  "drive_inv d \<Longrightarrow> lamport (op_ts op) \<le> ds_lamport (d_state d) \<Longrightarrow> drive_inv (push_move d op)"
  by (auto simp: drive_inv_def content_ok_def clock_ok_def integrate_inv insert_all_asc)

lemma push_new_move_inv: "drive_inv d \<Longrightarrow> room 1 d \<Longrightarrow> drive_inv (push_new_move d c p n k)"
  unfolding push_new_move_eq
  by (intro push_move_inv set_lamport_inv) (simp_all add: less_imp_le [OF room_next(1)])

lemma clock_ok_next:
  assumes "clock_ok d" and "room 1 d"
  shows "op \<in> set (moves_of d) \<Longrightarrow> op_ts op < next_ts d" and "s \<in> set (contents_of d) \<Longrightarrow> s_ts s < next_ts d"
  using assms room_next(1) [OF assms(2)]
  by (auto simp: clock_ok_def intro!: lamport_less_timestamp intro: order.strict_trans1)

lemma push_content_inv:
  assumes inv: "drive_inv d" and "room 1 d"
  shows "drive_inv (push_content d op)"
proof -
  have lt: "\<forall>s \<in> set (contents_of d). s_ts s < next_ts d"
    using clock_ok_next(2) [OF drive_invD(3) [OF inv] assms(2)] by blast
  have "content_ok (push_content d op)"
    using drive_invD(2) [OF inv] lt fold_content_snoc [of "contents_of d" "\<lparr>s_ts = next_ts d, s_op = op\<rparr>"]
    by (simp add: content_ok_def sorted_wrt_append)
  moreover have "clock_ok (push_content d op)"
    using clock_ok_mono [OF drive_invD(3) [OF inv] less_imp_le [OF room_next(1) [OF assms(2)]]]
    by (auto simp: clock_ok_def)
  ultimately show ?thesis
    using inv by (simp add: drive_inv_def)
qed

text \<open>A local move has the latest timestamp: its effect on the edges is one replay step.\<close>

lemma edges_push_new_move:
  assumes "drive_inv d" and "room 1 d"
  shows "t_edges (d_tree (push_new_move d c p n k)) = move_edges (t_edges (d_tree d)) (new_move d c p n k)"
proof -
  have sub: "set (canonical_moves d) \<subseteq> set (moves_of d)"
    using set_insert_all_subset [of op_ts "moves_of d" "[]"] by simp
  have "insert_op op_ts (new_move d c p n k) (canonical_moves d) = canonical_moves d @ [new_move d c p n k]"
    using clock_ok_next(1) [OF drive_invD(3) [OF assms(1)] assms(2)] sub
    by (intro insert_op_append_last) auto
  then show ?thesis
    using integrate_inv [OF drive_invD(1) [OF assms(1)], of "new_move d c p n k"] assms(1)
    by (simp add: insert_all_asc tree_inv_def drive_inv_def)
qed

section \<open>Remote operations\<close>

definition remote_room :: "drive \<Rightarrow> timestamp \<Rightarrow> bool" where
  "remote_room d ts \<longleftrightarrow> room 1 d \<and> unat (lamport ts) + 1 < 2 ^ 64"

lemma remote_clock:
  assumes "remote_room d ts"
  shows "max (ds_lamport (d_state d)) (lamport ts) \<le> max (ds_lamport (d_state d)) (lamport ts) + 1"
proof -
  have "unat (max (ds_lamport (d_state d)) (lamport ts)) + 1 < 2 ^ 64"
    using assms by (simp add: remote_room_def room_def max_def)
  then show ?thesis
    by (simp add: word_le_nat_alt unat_word_ariths)
qed

lemma apply_remote_move_inv:
  assumes "drive_inv d" and "remote_room d (op_ts op)"
  shows "drive_inv (apply_remote_move d op)"
  unfolding apply_remote_move_def
  using remote_clock [OF assms(2)] assms(1)
  by (intro push_move_inv set_lamport_inv) (auto elim: order_trans [rotated])

lemma apply_remote_content_eq:
  assumes "asc_by s_ts (contents_of d)"
  shows "apply_remote_content d op =
    (let d1 = set_lamport (max (ds_lamport (d_state d)) (lamport (s_ts op)) + 1) d;
         log = insert_op s_ts op (contents_of d) in
     if s_ts op \<in> s_ts ` set (contents_of d) then d1
     else d1\<lparr>d_state := (d_state d1)\<lparr>ds_content_log := log\<rparr>,
             d_content := refold_key (d_content d1) log (op_target (s_op op))\<rparr>)"
  using from_key_hd_iff [OF assms, of "s_ts op"]
  by (simp add: apply_remote_content_def Let_def insert_op_def)

lemma apply_remote_content_frame:
  assumes "asc_by s_ts (contents_of d)"
  shows "contents_of (apply_remote_content d op) = insert_op s_ts op (contents_of d)"
    and "d_tree (apply_remote_content d op) = d_tree d"
    and "moves_of (apply_remote_content d op) = moves_of d"
    and "ds_lamport (d_state (apply_remote_content d op))
       = max (ds_lamport (d_state d)) (lamport (s_ts op)) + 1"
  by (simp_all add: apply_remote_content_eq [OF assms] Let_def insert_op_def)

lemma apply_remote_content_ok: "content_ok d \<Longrightarrow> content_ok (apply_remote_content d op)"
proof -
  assume ok: "content_ok d"
  then have asc: "asc_by s_ts (contents_of d)" and fold: "d_content d = fold_content (contents_of d)"
    by (simp_all add: content_ok_def)
  have "d_content (apply_remote_content d op) = fold_content (insert_op s_ts op (contents_of d))"
  proof (cases "s_ts op \<in> s_ts ` set (contents_of d)")
    case True
    then show ?thesis
      by (simp add: apply_remote_content_eq [OF asc] Let_def insert_op_def fold)
  next
    case False
    then show ?thesis
      by (simp add: apply_remote_content_eq [OF asc] Let_def fold refold_key_correct
          fold_content_other_key [OF asc])
  qed
  then show ?thesis
    by (simp add: content_ok_def apply_remote_content_frame [OF asc] insert_op_asc [OF asc])
qed

lemma apply_remote_content_inv:
  assumes "drive_inv d" and "remote_room d (s_ts op)"
  shows "drive_inv (apply_remote_content d op)"
proof -
  have asc: "asc_by s_ts (contents_of d)"
    using drive_invD(2) [OF assms(1)] by (simp add: content_ok_def)
  have "clock_ok (set_lamport (max (ds_lamport (d_state d)) (lamport (s_ts op)) + 1) d)"
    using clock_ok_mono [OF drive_invD(3) [OF assms(1)]] remote_clock [OF assms(2)] by simp
  then have "clock_ok (apply_remote_content d op)"
    using set_insert_op_subset [of s_ts op "contents_of d"] remote_clock [OF assms(2)]
    by (auto simp: clock_ok_def apply_remote_content_frame [OF asc])
  then show ?thesis
    using assms(1) apply_remote_content_ok
    by (simp add: drive_inv_def apply_remote_content_frame [OF asc])
qed

text \<open>The content half of a drive is a convergent log of its own.\<close>

definition content_log_inv :: "drive \<Rightarrow> stamped_op list \<Rightarrow> bool" where
  "content_log_inv d ops \<longleftrightarrow> contents_of d = ops \<and> content_ok d"

definition content_view :: "drive \<Rightarrow> stamped_op list \<times> content_map" where
  "content_view d = (contents_of d, d_content d)"

interpretation content_log:
  convergent_log apply_remote_content "drive_init name rep" s_ts content_log_inv content_view
proof unfold_locales
  show "content_log_inv (drive_init name rep) []"
    by (simp add: content_log_inv_def drive_init_def content_ok_def fold_content_def)
next
  fix d ops op
  assume "content_log_inv d ops" and "asc_by s_ts ops"
  then show "content_log_inv (apply_remote_content d op) (insert_op s_ts op ops)"
    by (simp add: content_log_inv_def apply_remote_content_frame apply_remote_content_ok)
next
  fix d e ops
  assume "content_log_inv d ops" and "content_log_inv e ops"
  then show "content_view d = content_view e"
    by (simp add: content_log_inv_def content_view_def content_ok_def)
qed

end
