(* ===== verification/DriveOps.thy ===== *)
theory DriveOps
  imports DriveInv
begin

text \<open>
  What each operation of the drive does to the edges of the tree and to the content map, on every
  branch. The hypotheses are the invariant of the handle, that no operation of its log moves a
  reserved node, and room on the clock.
\<close>

section \<open>Well-formed drives\<close>

definition drive_ok :: "drive \<Rightarrow> bool" where
  "drive_ok d \<longleftrightarrow> drive_inv d \<and> list_all op_ok (moves_of d)"

abbreviation edges_of :: "drive \<Rightarrow> edge_map" where
  "edges_of d \<equiv> t_edges (d_tree d)"

abbreviation below :: "edge_map \<Rightarrow> node_id \<Rightarrow> node_id \<Rightarrow> bool" where
  "below E m n \<equiv> (m, n) \<in> (parent_rel E)\<^sup>*"

lemma drive_okD:
  assumes "drive_ok d"
  shows "drive_inv d" and "index_ok (d_tree d)" and "reserved_free (edges_of d)"
    and "acyclic (parent_rel (edges_of d))"
proof -
  show inv: "drive_inv d"
    using assms by (simp add: drive_ok_def)
  have tree: "tree_inv (d_tree d) (canonical_moves d)"
    by (rule drive_invD(1) [OF inv])
  then show "index_ok (d_tree d)"
    by (simp add: tree_inv_def)
  show "acyclic (parent_rel (edges_of d))"
    by (rule tree_inv_acyclic [OF tree])
  have "list_all op_ok (canonical_moves d)"
    using assms set_insert_all_subset [of op_ts "moves_of d" "[]"] by (auto simp: drive_ok_def list_all_iff)
  then show "reserved_free (edges_of d)"
    by (rule tree_inv_reserved_free [OF tree])
qed

lemma reserved_freeD:
  "reserved_free E \<Longrightarrow> fmlookup E ROOT = None"
  "reserved_free E \<Longrightarrow> fmlookup E TRASH = None"
  "reserved_free E \<Longrightarrow> fmlookup E LIMBO = None"
  by (simp_all add: reserved_free_def)

lemma below_top:
  "reserved_free E \<Longrightarrow> below E m ROOT \<Longrightarrow> below E m TRASH \<Longrightarrow> False"
  "reserved_free E \<Longrightarrow> below E m ROOT \<Longrightarrow> below E m LIMBO \<Longrightarrow> False"
  "reserved_free E \<Longrightarrow> below E m TRASH \<Longrightarrow> below E m LIMBO \<Longrightarrow> False"
  using below_one_top [of m ROOT E TRASH] below_one_top [of m ROOT E LIMBO] below_one_top [of m TRASH E LIMBO]
  by (auto simp: reserved_free_def)

lemma below_edge:
  "below E m a \<Longrightarrow> m \<noteq> a \<Longrightarrow> \<exists>e. fmlookup E m = Some e \<and> below E (e_parent e) a"
  by (erule converse_rtranclE) auto

lemma resolve_node:
  assumes "drive_ok d" and "resolve (d_tree d) p = Some n"
  shows "below (edges_of d) n ROOT" and "n \<noteq> ROOT \<Longrightarrow> \<exists>e. tree_edge (d_tree d) n = Some e"
    and "n \<noteq> TRASH" and "n \<noteq> LIMBO"
proof -
  have D: "n = ROOT \<or> (\<exists>e. tree_edge (d_tree d) n = Some e \<and> (n, ROOT) \<in> (parent_rel (edges_of d))\<^sup>+ \<and> is_live (d_tree d) n)"
    by (rule resolve_SomeD [OF drive_okD(2,3) [OF assms(1)] assms(2)])
  then show "below (edges_of d) n ROOT" and "n \<noteq> ROOT \<Longrightarrow> \<exists>e. tree_edge (d_tree d) n = Some e"
    by (auto intro: trancl_into_rtrancl)
  show "n \<noteq> TRASH" and "n \<noteq> LIMBO"
    using D reserved_freeD [OF drive_okD(3) [OF assms(1)]] by (auto simp: tree_edge_def)
qed

section \<open>When an operation succeeds\<close>

lemma check_name_Inr [simp]: "check_name n = Inr u \<longleftrightarrow> valid_name n"
  by (simp add: check_name_def split: sum.split)

lemma check_name_Inl: "check_name n = Inl e \<longleftrightarrow> (\<exists>x. validate_name n = Inl x \<and> e = InvalidName n x)"
  by (auto simp: check_name_def split: sum.splits)

definition is_dir :: "drive_tree \<Rightarrow> node_id \<Rightarrow> bool" where
  "is_dir t n \<longleftrightarrow> n = ROOT \<or> map_option e_kind (tree_edge t n) = Some Dir"

lemma resolve_dir_Inr:
  "resolve_dir d p = Inr n \<longleftrightarrow> resolve (d_tree d) p = Some n \<and> is_dir (d_tree d) n"
  by (auto simp: resolve_dir_def is_dir_def split: if_splits)

lemma resolve_dir_Inl:
  "resolve_dir d p = Inl e \<longleftrightarrow>
     resolve (d_tree d) p = None \<and> e = NoSuchDirectory p \<or>
     (\<exists>n. resolve (d_tree d) p = Some n \<and> \<not> is_dir (d_tree d) n \<and> e = NotADirectory p)"
  by (auto simp: resolve_dir_def is_dir_def res_bind_eq_Inl)

lemma mkdir_Inr:
  "mkdir d ctr p name = Inr (i, d') \<longleftrightarrow>
     valid_name name \<and> (\<exists>parent. resolve_dir d p = Inr parent \<and> child_named d parent name = None \<and>
       i = fresh_node_id (ds_lamport (d_state d) + 1) ctr \<and> d' = push_new_move d i parent name Dir)"
  by (auto simp: mkdir_def Let_def split: if_splits)

lemma add_file_Inr:
  "add_file d ctr p name c = Inr (i, d') \<longleftrightarrow>
     valid_name name \<and> (\<exists>parent. resolve_dir d p = Inr parent \<and>
       (child_named d parent name = Some i \<and> map_option e_kind (tree_edge (d_tree d) i) = Some File \<and>
          d' = push_content d (set_op i c) \<or>
        child_named d parent name = None \<and> i = fresh_node_id (ds_lamport (d_state d) + 1) ctr \<and>
          d' = push_content (push_new_move d i parent name File) (set_op i c)))"
  by (cases "resolve_dir d p"; cases "child_named d (projr (resolve_dir d p)) name")
    (auto simp: add_file_def Let_def)

lemma mv_Inr:
  "mv d s dp name = Inr d' \<longleftrightarrow>
     valid_name name \<and> (\<exists>n parent. resolve (d_tree d) s = Some n \<and> n \<noteq> ROOT \<and>
       resolve_dir d dp = Inr parent \<and> d' = push_new_move d n parent name (kind_of (d_tree d) n))"
  by (auto simp: mv_def split: if_splits)

lemma rm_Inr:
  "rm d p = Inr d' \<longleftrightarrow>
     (\<exists>n. resolve (d_tree d) p = Some n \<and> n \<noteq> ROOT \<and>
       d' = push_new_move d n TRASH (edge_name (d_tree d) n) (kind_of (d_tree d) n))"
  by (auto simp: rm_def split: if_splits)

lemma restore_Inr:
  "restore d n pp nm = Inr d' \<longleftrightarrow>
     is_trashed (d_tree d) n \<and>
     (let name = (case nm of Some s \<Rightarrow> s | None \<Rightarrow> edge_name (d_tree d) n) in
      valid_name name \<and> (\<exists>parent. resolve_dir d (case pp of Some s \<Rightarrow> s | None \<Rightarrow> ''/'') = Inr parent \<and>
        child_named d parent name = None \<and> d' = push_new_move d n parent name (kind_of (d_tree d) n)))"
  by (auto simp: restore_def Let_def split: if_splits)

lemma restore_version_Inr:
  "restore_version d now p cid = Inr d' \<longleftrightarrow>
     (\<exists>n. resolve (d_tree d) p = Some n \<and> content_get (d_content d) n \<noteq> None \<and>
       d' = push_content d (Restore n cid now))"
  by (auto simp: restore_version_def split: if_splits)

section \<open>Children by name\<close>

lemma child_named_None:
  assumes "index_ok (d_tree d)"
  shows "child_named d p n = None \<longleftrightarrow>
    (\<forall>i e. tree_edge (d_tree d) i = Some e \<and> e_parent e = p \<and> e_name e = n \<longrightarrow> is_trashed (d_tree d) i)"
  using kids_index [OF assms] by (fastforce simp: child_named_def find_None_iff)

lemma child_named_Some:
  assumes "index_ok (d_tree d)" and "child_named d p n = Some i"
  shows "\<exists>e. tree_edge (d_tree d) i = Some e \<and> e_parent e = p \<and> e_name e = n" and "\<not> is_trashed (d_tree d) i"
proof -
  obtain m where "find (\<lambda>(nm, i). nm = n \<and> \<not> is_trashed (d_tree d) i) (raw_children (d_tree d) p) = Some (m, i)"
    using assms(2) by (auto simp: child_named_def)
  then have "(m, i) \<in> set (raw_children (d_tree d) p)" and "m = n" and live: "\<not> is_trashed (d_tree d) i"
    by (auto simp: find_Some_iff dest: nth_mem)
  then show "\<exists>e. tree_edge (d_tree d) i = Some e \<and> e_parent e = p \<and> e_name e = n" and "\<not> is_trashed (d_tree d) i"
    using kids_index [OF assms(1)] by auto
qed

section \<open>Moves on the edges\<close>

text \<open>A move to a node that is not below the moved one takes effect.\<close>

lemma push_new_move_edges:
  assumes "drive_ok d" and "room 1 d" and "p \<noteq> c" and "\<not> below (edges_of d) p c"
  shows "edges_of (push_new_move d c p n k) = fmupd c \<lparr>e_parent = p, e_name = n, e_kind = k\<rparr> (edges_of d)"
  using assms
  by (simp add: edges_push_new_move drive_okD(1) move_edges_def edges_ancestor_iff edge_of_def
      del: push_new_move_frame(1))

lemma push_new_move_ok:
  assumes "drive_ok d" and "room 1 d" and "c \<noteq> ROOT" and "c \<noteq> TRASH" and "c \<noteq> LIMBO"
  shows "drive_ok (push_new_move d c p n k)"
  using assms push_new_move_inv [of d c p n k] by (simp add: drive_ok_def op_ok_def)

lemma push_content_ok: "drive_ok d \<Longrightarrow> room 1 d \<Longrightarrow> drive_ok (push_content d op)"
  using push_content_inv [of d op] by (simp add: drive_ok_def)

lemma room_push:
  "room (Suc k) d \<Longrightarrow> room k (push_new_move d c p n kd)"
  "room (Suc k) d \<Longrightarrow> room k (push_content d op)"
  using room_next(2) [of "Suc k" d] by (simp_all add: room_def)

text \<open>A walk that ends at a node does not need the node's own edge.\<close>

lemma below_fmupd_same: "below E m n \<Longrightarrow> below (fmupd n e E) m n"
proof (induction rule: converse_rtrancl_induct)
  case (step y z)
  show ?case
  proof (cases "y = n")
    case False
    with step(1) have "(y, z) \<in> parent_rel (fmupd n e E)" by auto
    with step.IH show ?thesis by (rule converse_rtrancl_into_rtrancl [rotated])
  qed simp
qed simp

text \<open>A node whose walk avoids the changed one keeps its walk.\<close>

lemma below_fmupd_other:
  "below E m a \<Longrightarrow> \<not> below E m n \<Longrightarrow> below (fmupd n e E) m a"
proof (induction rule: converse_rtrancl_induct)
  case (step y z)
  then have "y \<noteq> n" and "\<not> below E z n"
    by (auto intro: converse_rtrancl_into_rtrancl)
  with step have "(y, z) \<in> parent_rel (fmupd n e E)" and "below (fmupd n e E) z a"
    by auto
  then show ?case by (rule converse_rtrancl_into_rtrancl)
qed simp

lemma below_fmupd_self: "below (fmupd n e E) (e_parent e) a \<Longrightarrow> below (fmupd n e E) n a"
  by (rule converse_rtrancl_into_rtrancl [of _ "e_parent e"]) simp_all

lemma below_fmupd_fresh: "below E m a \<Longrightarrow> fmlookup E n = None \<Longrightarrow> below (fmupd n e E) m a"
proof (induction rule: converse_rtrancl_induct)
  case (step y z)
  then have "(y, z) \<in> parent_rel (fmupd n e E)" by auto
  with step show ?case by (auto intro: converse_rtrancl_into_rtrancl)
qed simp

text \<open>A node without an edge that is not a root of the tree is not above a node of the tree.\<close>

lemma no_edge_not_above:
  assumes "fmlookup E c = None" and "c \<noteq> ROOT" and "below E p ROOT" and "fmlookup E ROOT = None"
  shows "\<not> below E p c"
  using below_one_top [OF assms(3) _ assms(4,1)] assms(2) by blast

section \<open>New nodes\<close>

text \<open>
  Creating a node under a directory of the tree: its edge is added, all others stay, and the
  directory lists it under its bare name.
\<close>

lemma new_node:
  assumes ok: "drive_ok d" and "room 1 d" and res: "resolve_dir d p = Inr parent"
    and none: "child_named d parent name = None" and fresh: "fmlookup (edges_of d) i = None"
    and i: "i \<noteq> ROOT" "i \<noteq> TRASH" "i \<noteq> LIMBO"
  shows "edges_of (push_new_move d i parent name k)
      = fmupd i \<lparr>e_parent = parent, e_name = name, e_kind = k\<rparr> (edges_of d)" (is "?E' = ?upd")
    and "(name, i, k) \<in> set (readdir (d_tree (push_new_move d i parent name k)) parent)"
proof -
  let ?d' = "push_new_move d i parent name k"
  note rf = reserved_freeD [OF drive_okD(3) [OF ok]]
  have found: "resolve (d_tree d) p = Some parent"
    using res by (simp add: resolve_dir_Inr)
  have root: "below (edges_of d) parent ROOT" and "parent \<noteq> TRASH"
    using resolve_node(1,3) [OF ok found] by simp_all
  have nb: "\<not> below (edges_of d) parent i"
    by (rule no_edge_not_above) (use fresh i root rf in simp_all)
  then have "parent \<noteq> i" by auto
  show E: "?E' = ?upd"
    by (rule push_new_move_edges [OF ok assms(2) \<open>parent \<noteq> i\<close> nb])
  have ok': "drive_ok ?d'"
    by (rule push_new_move_ok [OF ok assms(2) i])
  have edge: "tree_edge (d_tree ?d') j = (if j = i then Some \<lparr>e_parent = parent, e_name = name, e_kind = k\<rparr>
      else tree_edge (d_tree d) j)" for j
    using E by (auto simp: tree_edge_def simp del: push_new_move_frame)
  have "below ?E' i ROOT"
    unfolding E by (rule below_fmupd_self) (simp add: below_fmupd_fresh root fresh)
  then have live: "\<not> is_trashed (d_tree ?d') i"
    using below_top(1) [OF drive_okD(3) [OF ok']] by (auto simp: is_ancestor_iff is_trashed_def)
  have hidden: "is_trashed (d_tree ?d') j" if "tree_edge (d_tree d) j = Some e" "e_parent e = parent" "e_name e = name" for j e
  proof -
    have "is_trashed (d_tree d) j"
      using none that by (auto simp: child_named_None [OF drive_okD(2) [OF ok]])
    then have "below ?E' j TRASH"
      unfolding E by (simp add: is_trashed_def is_ancestor_iff below_fmupd_fresh fresh)
    then show ?thesis by (simp add: is_trashed_def is_ancestor_iff)
  qed
  have listed: "(name, j) \<in> set (listed_children (d_tree ?d') parent) \<longleftrightarrow> j = i" for j
    using live hidden \<open>parent \<noteq> TRASH\<close>
    by (auto simp: mem_listed kids_index [OF drive_okD(2) [OF ok']] edge split: if_splits
        simp del: push_new_move_frame)
  have "(name, i, kind_of (d_tree ?d') i) \<in> set (readdir (d_tree ?d') parent)"
    by (rule readdir_winner) (simp_all add: listed del: push_new_move_frame)
  then show "(name, i, k) \<in> set (readdir (d_tree ?d') parent)"
    by (simp add: kind_of_def edge del: push_new_move_frame)
qed

section \<open>Moving existing nodes\<close>

lemma edge_name_Some: "tree_edge t n = Some e \<Longrightarrow> edge_name t n = e_name e"
  by (simp add: edge_name_def)

lemma kind_of_Some: "tree_edge t n = Some e \<Longrightarrow> kind_of t n = e_kind e"
  by (simp add: kind_of_def)

lemma edge_eqs:
  "\<lparr>e_parent = p, e_name = n, e_kind = e_kind e\<rparr> = e\<lparr>e_parent := p, e_name := n\<rparr>"
  "\<lparr>e_parent = p, e_name = e_name e, e_kind = e_kind e\<rparr> = e\<lparr>e_parent := p\<rparr>"
  by (cases e; simp)+

text \<open>Detaching a node to a top of its own: the trash or limbo.\<close>

lemma detach:
  assumes ok: "drive_ok d" and "room 1 d" and "tree_edge (d_tree d) n = Some e"
    and top: "tp = TRASH \<or> tp = LIMBO"
  shows "edges_of (push_new_move d n tp name k)
      = fmupd n \<lparr>e_parent = tp, e_name = name, e_kind = k\<rparr> (edges_of d)"
    and "drive_ok (push_new_move d n tp name k)"
proof -
  note rf = reserved_freeD [OF drive_okD(3) [OF ok]]
  have n: "n \<noteq> ROOT" "n \<noteq> TRASH" "n \<noteq> LIMBO"
    using assms(3) rf by (auto simp: tree_edge_def)
  have "fmlookup (edges_of d) tp = None" and "tp \<noteq> n"
    using top rf n by auto
  then show "edges_of (push_new_move d n tp name k)
      = fmupd n \<lparr>e_parent = tp, e_name = name, e_kind = k\<rparr> (edges_of d)"
    by (intro push_new_move_edges [OF ok assms(2)]) (simp_all add: top_rtrancl)
  show "drive_ok (push_new_move d n tp name k)"
    by (rule push_new_move_ok [OF ok assms(2) n])
qed

lemma rm_effect:
  assumes ok: "drive_ok d" and "room 1 d" and "rm d p = Inr d'"
  obtains n e where "resolve (d_tree d) p = Some n" and "tree_edge (d_tree d) n = Some e" and "n \<noteq> ROOT"
    and "edges_of d' = fmupd n (e\<lparr>e_parent := TRASH\<rparr>) (edges_of d)" and "drive_ok d'"
    and "d_content d' = d_content d"
proof -
  obtain n where res: "resolve (d_tree d) p = Some n" and "n \<noteq> ROOT"
    and d': "d' = push_new_move d n TRASH (edge_name (d_tree d) n) (kind_of (d_tree d) n)"
    using assms(3) by (auto simp: rm_Inr)
  then obtain e where e: "tree_edge (d_tree d) n = Some e"
    using resolve_node(2) [OF ok res] by auto
  from detach [OF ok assms(2) e, of TRASH "e_name e" "e_kind e"] that [OF res e \<open>n \<noteq> ROOT\<close>] show thesis
    by (simp add: d' edge_name_Some [OF e] kind_of_Some [OF e] edge_eqs)
qed

lemma mv_effect:
  assumes ok: "drive_ok d" and "room 1 d" and "mv d s dp name = Inr d'"
  obtains n parent e where "resolve (d_tree d) s = Some n" and "resolve_dir d dp = Inr parent"
    and "tree_edge (d_tree d) n = Some e" and "valid_name name"
    and "edges_of d' = (if below (edges_of d) parent n then edges_of d
           else fmupd n (e\<lparr>e_parent := parent, e_name := name\<rparr>) (edges_of d))"
    and "drive_ok d'" and "d_content d' = d_content d"
proof -
  obtain n parent where res: "resolve (d_tree d) s = Some n" "resolve_dir d dp = Inr parent"
    and "n \<noteq> ROOT" and v: "valid_name name"
    and d': "d' = push_new_move d n parent name (kind_of (d_tree d) n)"
    using assms(3) by (auto simp: mv_Inr)
  then obtain e where e: "tree_edge (d_tree d) n = Some e"
    using resolve_node(2) [OF ok res(1)] by auto
  have n: "n \<noteq> ROOT" "n \<noteq> TRASH" "n \<noteq> LIMBO"
    using resolve_node(3,4) [OF ok res(1)] \<open>n \<noteq> ROOT\<close> by simp_all
  have "edges_of d' = (if below (edges_of d) parent n then edges_of d
      else fmupd n (e\<lparr>e_parent := parent, e_name := name\<rparr>) (edges_of d))"
    by (auto simp: d' edges_push_new_move [OF drive_okD(1) [OF ok] assms(2)] move_edges_def
        edges_ancestor_iff edge_of_def kind_of_Some [OF e] edge_eqs simp del: push_new_move_frame(1))
  with push_new_move_ok [OF ok assms(2) n] that [OF res e v] show thesis
    by (simp add: d')
qed

lemma restore_effect:
  assumes ok: "drive_ok d" and "room 1 d" and "n \<noteq> TRASH" and "restore d n pp nm = Inr d'"
  obtains parent e where "resolve_dir d (case pp of Some s \<Rightarrow> s | None \<Rightarrow> ''/'') = Inr parent"
    and "tree_edge (d_tree d) n = Some e" and "is_trashed (d_tree d) n"
    and "valid_name (case nm of Some s \<Rightarrow> s | None \<Rightarrow> e_name e)"
    and "child_named d parent (case nm of Some s \<Rightarrow> s | None \<Rightarrow> e_name e) = None"
    and "edges_of d' = fmupd n (e\<lparr>e_parent := parent, e_name := (case nm of Some s \<Rightarrow> s | None \<Rightarrow> e_name e)\<rparr>)
           (edges_of d)"
    and "drive_ok d'" and "d_content d' = d_content d"
proof -
  note rf = reserved_freeD [OF drive_okD(3) [OF ok]]
  have tr: "is_trashed (d_tree d) n" and b: "below (edges_of d) n TRASH"
    using assms(4) by (simp_all add: restore_Inr is_trashed_def is_ancestor_iff)
  obtain e where e: "tree_edge (d_tree d) n = Some e"
    using below_edge [OF b assms(3)] by (auto simp: tree_edge_def)
  let ?nm = "case nm of Some s \<Rightarrow> s | None \<Rightarrow> e_name e"
  have nm: "(case nm of Some s \<Rightarrow> s | None \<Rightarrow> edge_name (d_tree d) n) = ?nm"
    by (simp add: edge_name_Some [OF e] split: option.split)
  obtain parent where res: "resolve_dir d (case pp of Some s \<Rightarrow> s | None \<Rightarrow> ''/'') = Inr parent"
    and v: "valid_name ?nm" and free: "child_named d parent ?nm = None"
    and d': "d' = push_new_move d n parent ?nm (e_kind e)"
    using assms(4) unfolding restore_Inr Let_def nm kind_of_Some [OF e] by blast
  have n: "n \<noteq> ROOT" "n \<noteq> LIMBO"
    using e rf by (auto simp: tree_edge_def)
  have root: "below (edges_of d) parent ROOT"
    using resolve_node(1) [OF ok, of _ parent] res by (auto simp: resolve_dir_Inr)
  have nb: "\<not> below (edges_of d) parent n"
    using below_top(1) [OF drive_okD(3) [OF ok] root] rtrancl_trans [OF _ b] by blast
  then have "parent \<noteq> n" by auto
  from push_new_move_edges [OF ok assms(2) \<open>parent \<noteq> n\<close> nb, of ?nm "e_kind e"]
    push_new_move_ok [OF ok assms(2) n(1) assms(3) n(2), of parent ?nm "e_kind e"]
  show thesis
    by (intro that [OF res e tr v free]) (simp_all add: d' edge_eqs del: push_new_move_frame(1))
qed

end
