(* ===== verification/DriveTrash.thy ===== *)
theory DriveTrash
  imports DriveOps
begin

text \<open>
  The trash of the drive: what permanent deletion does to the edges and the content map, which nodes
  \<open>empty_trash\<close> and \<open>gc_trash\<close> delete, and what a subtree looks like after its top is moved.
\<close>

section \<open>Permanent deletion\<close>

abbreviation limbo_edge :: "node_id \<Rightarrow> node_kind \<Rightarrow> edge" where
  "limbo_edge i k \<equiv> \<lparr>e_parent = LIMBO, e_name = i, e_kind = k\<rparr>"

lemma hard_delete_one_effect:
  assumes ok: "drive_ok d" and room: "room 2 d" and e: "tree_edge (d_tree d) i = Some e"
  shows "edges_of (hard_delete_one d i) = fmupd i (limbo_edge i (e_kind e)) (edges_of d)"
    and "drive_ok (hard_delete_one d i)"
    and "d_content (hard_delete_one d i) = fmdrop i (d_content d)"
proof -
  let ?d1 = "push_new_move d i LIMBO i (e_kind e)"
  have r1: "room 1 d" and r2: "room 1 ?d1"
    using room room_push(1) [of 1 d] by (auto simp: numeral_2_eq_2 elim: room_mono)
  note det = detach [OF ok r1 e, of LIMBO i "e_kind e"]
  have def: "hard_delete_one d i =
      (if content_get (d_content d) i \<noteq> None then push_content ?d1 (Remove i) else ?d1)"
    by (simp add: hard_delete_one_def kind_of_Some [OF e] Let_def)
  show "edges_of (hard_delete_one d i) = fmupd i (limbo_edge i (e_kind e)) (edges_of d)"
    using det(1) by (simp add: def)
  show "drive_ok (hard_delete_one d i)"
    using det(2) push_content_ok [OF _ r2] by (simp add: def)
  show "d_content (hard_delete_one d i) = fmdrop i (d_content d)"
    by (simp add: def content_get_def fmdrop_triv)
qed

lemma hard_delete_one_room: "room (Suc (Suc k)) d \<Longrightarrow> room k (hard_delete_one d i)"
  using room_push(2) [OF room_push(1), of k d] room_mono [OF room_push(1), of "Suc k" d k]
  by (simp add: hard_delete_one_def Let_def)

lemma hard_delete_simps [simp]:
  "hard_delete d [] = d"
  "hard_delete d (i # ids) = hard_delete (hard_delete_one d i) ids"
  by (simp_all add: hard_delete_def)

lemma hard_delete_effect:
  assumes "drive_ok d" and "room (2 * length ids) d" and "\<forall>i \<in> set ids. tree_edge (d_tree d) i \<noteq> None"
  shows "drive_ok (hard_delete d ids) \<and>
    (\<forall>j. tree_edge (d_tree (hard_delete d ids)) j =
      (if j \<in> set ids then Some (limbo_edge j (kind_of (d_tree d) j)) else tree_edge (d_tree d) j)) \<and>
    (\<forall>j. content_get (d_content (hard_delete d ids)) j =
      (if j \<in> set ids then None else content_get (d_content d) j))"
  using assms
proof (induction ids arbitrary: d)
  case (Cons i ids)
  let ?d = "hard_delete_one d i"
  obtain e where e: "tree_edge (d_tree d) i = Some e"
    using Cons.prems(3) by auto
  have r2: "room 2 d"
    using Cons.prems(2) by (auto elim: room_mono)
  note one = hard_delete_one_effect [OF Cons.prems(1) r2 e]
  have edge: "tree_edge (d_tree ?d) j = (if j = i then Some (limbo_edge i (e_kind e)) else tree_edge (d_tree d) j)" for j
    by (simp add: tree_edge_def one(1))
  have "room (2 * length ids) ?d"
    using Cons.prems(2) by (intro hard_delete_one_room) simp
  moreover have "\<forall>j \<in> set ids. tree_edge (d_tree ?d) j \<noteq> None"
    using Cons.prems(3) by (simp add: edge)
  ultimately show ?case
    using Cons.IH [OF one(2)] e by (auto simp: edge one(3) content_get_def kind_of_def)
qed simp

section \<open>The trash listing\<close>

lemma trash_ids_iff:
  assumes "index_ok (d_tree d)"
  shows "i \<in> set (trash_ids d) \<longleftrightarrow> (\<exists>e. tree_edge (d_tree d) i = Some e \<and> e_parent e = TRASH)"
proof -
  have "i \<in> set (trash_ids d) \<longleftrightarrow> i \<in> snd ` set (listed_children (d_tree d) TRASH)"
    using readdir_ids [of "d_tree d" TRASH] by (simp add: trash_ids_def)
  also have "\<dots> \<longleftrightarrow> (\<exists>n. (n, i) \<in> set (listed_children (d_tree d) TRASH))"
    by force
  also have "\<dots> \<longleftrightarrow> (\<exists>e. tree_edge (d_tree d) i = Some e \<and> e_parent e = TRASH)"
    by (auto simp: mem_listed kids_index [OF assms])
  finally show ?thesis .
qed

lemma length_trash_ids [simp]: "length (trash_ids d) = length (trash d)"
  by (simp add: trash_ids_def trash_def)

lemma delete_trashed:
  assumes ok: "drive_ok d" and "room (2 * length ids) d" and "set ids \<subseteq> set (trash_ids d)"
  shows "set (trash_ids (hard_delete d ids)) = set (trash_ids d) - set ids"
    and "drive_ok (hard_delete d ids)"
    and "content_get (d_content (hard_delete d ids)) j =
      (if j \<in> set ids then None else content_get (d_content d) j)"
    and "j \<notin> set ids \<Longrightarrow> tree_edge (d_tree (hard_delete d ids)) j = tree_edge (d_tree d) j"
    and "j \<in> set ids \<Longrightarrow> is_limbo (d_tree (hard_delete d ids)) j"
proof -
  have "\<forall>i \<in> set ids. tree_edge (d_tree d) i \<noteq> None"
    using assms(3) trash_ids_iff [OF drive_okD(2) [OF ok]] by blast
  note eff = hard_delete_effect [OF ok assms(2) this]
  show ok': "drive_ok (hard_delete d ids)"
    and "content_get (d_content (hard_delete d ids)) j =
      (if j \<in> set ids then None else content_get (d_content d) j)"
    and "j \<notin> set ids \<Longrightarrow> tree_edge (d_tree (hard_delete d ids)) j = tree_edge (d_tree d) j"
    using eff by auto
  show "set (trash_ids (hard_delete d ids)) = set (trash_ids d) - set ids"
  proof (rule set_eqI)
    fix i
    show "i \<in> set (trash_ids (hard_delete d ids)) \<longleftrightarrow> i \<in> set (trash_ids d) - set ids"
      using eff
      by (cases "i \<in> set ids")
        (simp_all add: trash_ids_iff [OF drive_okD(2) [OF ok]] trash_ids_iff [OF drive_okD(2) [OF ok']])
  qed
  assume "j \<in> set ids"
  then have "(j, LIMBO) \<in> parent_rel (edges_of (hard_delete d ids))"
    using eff by (auto simp: tree_edge_def)
  then show "is_limbo (d_tree (hard_delete d ids)) j"
    by (auto simp: is_limbo_def is_ancestor_iff)
qed

text \<open>The cutoff of the garbage collector saturates at both ends of the range.\<close>

lemma unat_sat_sub: "unat (sat_sub a b) = unat a - unat b"
  by (auto simp: sat_sub_def word_less_nat_alt unat_sub_if')

lemma unat_sat_mul: "unat (sat_mul a b) = min (unat a * unat b) (2 ^ 64 - 1)"
proof (cases "unat a * unat b < 2 ^ 64")
  case True
  then have "unat (a * b) = unat a * unat b"
    by (subst unat_mult_lem [symmetric]) simp
  with True show ?thesis by (simp add: sat_mul_def)
next
  case False
  have "unat (- 1 :: u64) = 2 ^ 64 - 1"
    by (simp add: unsigned_minus_1_eq_mask mask_eq_exp_minus_1)
  with False show ?thesis by (simp add: sat_mul_def)
qed

section \<open>Moving a subtree\<close>

text \<open>When the top of a subtree changes place, its descendants keep their path relative to it.\<close>

lemma subtree_paths:
  assumes "below E m n" and "placed E n ns" and "placed E m ms" and "fmlookup E ROOT = None"
    and "placed (fmupd n e E) n ns'"
  shows "\<exists>rs. ms = ns @ rs \<and> placed (fmupd n e E) m (ns' @ rs)"
  using assms(1,3)
proof (induction arbitrary: ms rule: converse_rtrancl_induct)
  case base
  then show ?case
    using placed_det [OF assms(2)] assms(5) by auto
next
  case (step y z)
  show ?case
  proof (cases "y = n")
    case True
    with step.prems show ?thesis
      using placed_det [OF assms(2)] assms(5) by auto
  next
    case False
    obtain ey where ey: "fmlookup E y = Some ey" "e_parent ey = z"
      using step.hyps(1) by auto
    have "z \<noteq> ROOT"
    proof
      assume "z = ROOT"
      with step.hyps(2) have "n = ROOT"
        by (simp add: top_rtrancl assms(4))
      with assms(2,4) show False by (auto elim: placedE)
    qed
    with step.prems ey obtain zs where "placed E z zs" and ms: "ms = zs @ [e_name ey]"
      by (subst (asm) placed_iff) auto
    with step.IH obtain rs where rs: "zs = ns @ rs" "placed (fmupd n e E) z (ns' @ rs)" by blast
    then have "placed (fmupd n e E) y ((ns' @ rs) @ [e_name ey])"
      using False ey \<open>z \<noteq> ROOT\<close> by (subst placed_iff) auto
    with rs ms show ?thesis by (intro exI [of _ "rs @ [e_name ey]"]) simp
  qed
qed

text \<open>A subtree cut off from the root has no path left.\<close>

lemma subtree_detached:
  assumes "below E m n" and "e_parent e = TRASH" and "reserved_free (fmupd n e E)"
  shows "below (fmupd n e E) m TRASH" and "\<not> below (fmupd n e E) m ROOT"
proof -
  have "below (fmupd n e E) n TRASH"
    by (rule below_fmupd_self) (simp add: assms(2))
  then show b: "below (fmupd n e E) m TRASH"
    using below_fmupd_same [OF assms(1)] by (rule rtrancl_trans [rotated])
  show "\<not> below (fmupd n e E) m ROOT"
    using below_top(1) [OF assms(3) _ b] by blast
qed

end
