(* ===== verification/Compaction.thy ===== *)
theory Compaction
  imports DriveTrash
begin

text \<open>
  Compaction: the breadth-first loop ends on every well-formed drive, emits one move per node of the
  live tree and the content operations of each, and the rebuilt drive has the same tree below the
  root and the same current content.
\<close>

section \<open>The loop ends\<close>

lemma finite_parent_rel: "finite (parent_rel E)"
proof -
  have "parent_rel E \<subseteq> (\<lambda>c. (c, e_parent (the (fmlookup E c)))) ` fset (fmdom E)"
    by (auto simp: image_iff intro!: bexI fmdomI)
  then show ?thesis
    by (rule finite_subset) simp
qed

lemma set_kept_children:
  assumes "index_ok t"
  shows "(n, i) \<in> set (kept_children t p) \<longleftrightarrow>
    (\<exists>e. fmlookup (t_edges t) i = Some e \<and> e_parent e = p \<and> e_name e = n) \<and> \<not> is_trashed t i \<and> \<not> is_limbo t i"
  using kids_index [OF assms] by (auto simp: kept_children_def tree_edge_def)

lemma kept_dirs_below:
  "index_ok t \<Longrightarrow> i \<in> set (kept_dirs t p) \<Longrightarrow> (i, p) \<in> parent_rel (t_edges t)"
  by (auto simp: kept_dirs_def set_kept_children)

text \<open>Replacing a directory by its subdirectories makes the queue smaller in the multiset order.\<close>

lemma wf_queue: "acyclic (parent_rel E) \<Longrightarrow> wf (inv_image (mult (parent_rel E)) mset)"
  by (intro wf_inv_image wf_mult finite_acyclic_wf finite_parent_rel)

lemma queue_decreases:
  assumes "index_ok t"
  shows "(rest @ kept_dirs t p, p # rest) \<in> inv_image (mult (parent_rel (t_edges t))) mset"
proof -
  have "(mset rest + mset (kept_dirs t p), mset rest + {#p#}) \<in> mult (parent_rel (t_edges t))"
    using kept_dirs_below [OF assms] by (intro one_step_implies_mult) auto
  then show ?thesis by simp
qed

section \<open>What one directory emits\<close>

definition strip_op :: "move_op \<Rightarrow> node_id \<times> edge" where
  "strip_op op = (op_child op, edge_of op)"

definition content_ops :: "drive \<Rightarrow> node_id \<Rightarrow> content_op list" where
  "content_ops d i = (case content_get (d_content d) i of Some c \<Rightarrow> record_ops i c | None \<Rightarrow> [])"

definition child_edges :: "drive_tree \<Rightarrow> node_id \<Rightarrow> (string \<times> node_id) list \<Rightarrow> (node_id \<times> edge) list" where
  "child_edges t p xs = map (\<lambda>(n, i). (i, \<lparr>e_parent = p, e_name = n, e_kind = kind_of t i\<rparr>)) xs"

lemma emit_move_frame [simp]:
  "map strip_op (ca_moves (emit_move r c p n k a))
     = map strip_op (ca_moves a) @ [(c, \<lparr>e_parent = p, e_name = n, e_kind = k\<rparr>)]"
  "ca_content (emit_move r c p n k a) = ca_content a"
  by (simp_all add: emit_move_def Let_def strip_op_def edge_of_def)

lemma emit_contents_frame [simp]:
  "ca_moves (fold (emit_content r) ops a) = ca_moves a"
  "map s_op (ca_content (fold (emit_content r) ops a)) = map s_op (ca_content a) @ ops"
  by (induction ops arbitrary: a) (simp_all add: emit_content_def Let_def)

lemma compact_child_frame:
  "map strip_op (ca_moves (compact_child d p (n, i) a))
     = map strip_op (ca_moves a) @ child_edges (d_tree d) p [(n, i)]"
  "map s_op (ca_content (compact_child d p (n, i) a)) = map s_op (ca_content a) @ content_ops d i"
  by (simp_all add: compact_child_def Let_def content_ops_def child_edges_def split: option.split)

lemma compact_children_frame:
  "map strip_op (ca_moves (fold (compact_child d p) xs a))
     = map strip_op (ca_moves a) @ child_edges (d_tree d) p xs"
  "map s_op (ca_content (fold (compact_child d p) xs a))
     = map s_op (ca_content a) @ concat (map (\<lambda>x. content_ops d (snd x)) xs)"
  by (induction xs arbitrary: a) (auto simp: compact_child_frame child_edges_def)

section \<open>The timestamps of the new logs\<close>

definition acc_size :: "compact_acc \<Rightarrow> nat" where
  "acc_size a = length (ca_moves a) + length (ca_content a)"

definition acc_ok :: "compact_acc \<Rightarrow> bool" where
  "acc_ok a \<longleftrightarrow> acc_size a < 2 ^ 64 \<longrightarrow>
     unat (ca_lamport a) = acc_size a \<and> asc_by op_ts (ca_moves a) \<and> asc_by s_ts (ca_content a) \<and>
     (\<forall>op \<in> set (ca_moves a). lamport (op_ts op) \<le> ca_lamport a) \<and>
     (\<forall>s \<in> set (ca_content a). lamport (s_ts s) \<le> ca_lamport a)"

lemma next_lamport:
  assumes "unat l = k" and "Suc k < 2 ^ 64"
  shows "unat ((l :: u64) + 1) = Suc k" and "x \<le> l \<Longrightarrow> x < l + 1"
proof -
  show eq: "unat (l + 1) = Suc k"
    using assms by (subst unat_add_lem [THEN iffD1]) simp_all
  show "x \<le> l \<Longrightarrow> x < l + 1"
    using eq assms(1) by (simp add: word_less_nat_alt word_le_nat_alt)
qed

lemma emit_move_ok: "acc_ok a \<Longrightarrow> acc_ok (emit_move r c p n k a)"
proof -
  assume ok: "acc_ok a"
  show ?thesis
    unfolding acc_ok_def
  proof (intro impI)
    assume sz: "acc_size (emit_move r c p n k a) < 2 ^ 64"
    then have lt: "Suc (acc_size a) < 2 ^ 64"
      by (simp add: acc_size_def emit_move_def Let_def)
    with ok have lam: "unat (ca_lamport a) = acc_size a"
      and rest: "asc_by op_ts (ca_moves a)" "asc_by s_ts (ca_content a)"
        "\<forall>op \<in> set (ca_moves a). lamport (op_ts op) \<le> ca_lamport a"
        "\<forall>s \<in> set (ca_content a). lamport (s_ts s) \<le> ca_lamport a"
      by (simp_all add: acc_ok_def)
    note nl = next_lamport [OF lam lt]
    show "unat (ca_lamport (emit_move r c p n k a)) = acc_size (emit_move r c p n k a) \<and>
        asc_by op_ts (ca_moves (emit_move r c p n k a)) \<and> asc_by s_ts (ca_content (emit_move r c p n k a)) \<and>
        (\<forall>op \<in> set (ca_moves (emit_move r c p n k a)). lamport (op_ts op) \<le> ca_lamport (emit_move r c p n k a)) \<and>
        (\<forall>s \<in> set (ca_content (emit_move r c p n k a)). lamport (s_ts s) \<le> ca_lamport (emit_move r c p n k a))"
      using rest nl
      by (auto simp: emit_move_def Let_def acc_size_def sorted_wrt_append
          intro: lamport_less_timestamp less_imp_le)
  qed
qed

lemma emit_content_ok: "acc_ok a \<Longrightarrow> acc_ok (emit_content r op a)"
proof -
  assume ok: "acc_ok a"
  show ?thesis
    unfolding acc_ok_def
  proof (intro impI)
    assume sz: "acc_size (emit_content r op a) < 2 ^ 64"
    then have lt: "Suc (acc_size a) < 2 ^ 64"
      by (simp add: acc_size_def emit_content_def Let_def)
    with ok have lam: "unat (ca_lamport a) = acc_size a"
      and rest: "asc_by op_ts (ca_moves a)" "asc_by s_ts (ca_content a)"
        "\<forall>op \<in> set (ca_moves a). lamport (op_ts op) \<le> ca_lamport a"
        "\<forall>s \<in> set (ca_content a). lamport (s_ts s) \<le> ca_lamport a"
      by (simp_all add: acc_ok_def)
    note nl = next_lamport [OF lam lt]
    show "unat (ca_lamport (emit_content r op a)) = acc_size (emit_content r op a) \<and>
        asc_by op_ts (ca_moves (emit_content r op a)) \<and> asc_by s_ts (ca_content (emit_content r op a)) \<and>
        (\<forall>x \<in> set (ca_moves (emit_content r op a)). lamport (op_ts x) \<le> ca_lamport (emit_content r op a)) \<and>
        (\<forall>s \<in> set (ca_content (emit_content r op a)). lamport (s_ts s) \<le> ca_lamport (emit_content r op a))"
      using rest nl
      by (auto simp: emit_content_def Let_def acc_size_def sorted_wrt_append
          intro: lamport_less_timestamp less_imp_le)
  qed
qed

lemma compact_children_ok: "acc_ok a \<Longrightarrow> acc_ok (fold (compact_child d p) xs a)"
proof (induction xs arbitrary: a)
  case (Cons x xs)
  have cs: "acc_ok b \<Longrightarrow> acc_ok (fold (emit_content r) ops b)" for b r ops
    by (induction ops arbitrary: b) (simp_all add: emit_content_ok)
  have "acc_ok (compact_child d p x a)"
    using Cons.prems by (auto simp: compact_child_def Let_def emit_move_ok cs split: prod.split option.split)
  then show ?case
    by (simp add: Cons.IH)
qed simp

section \<open>The invariant of the loop\<close>

text \<open>
  With \<open>T\<close> the emitted moves without their timestamps: no node is emitted twice, every emitted edge is
  an edge of the drive with an emitted parent, the queue holds emitted nodes none of whose children
  has been emitted, and a directory that has left the queue has all its children emitted.
\<close>

definition bfs_inv :: "drive_tree \<Rightarrow> node_id list \<Rightarrow> (node_id \<times> edge) list \<Rightarrow> bool" where
  "bfs_inv t queue T \<longleftrightarrow>
     distinct (map fst T) \<and> distinct queue \<and> set queue \<subseteq> insert ROOT (fst ` set T) \<and>
     (\<forall>(c, e) \<in> set T. tree_edge t c = Some e \<and> e_parent e \<in> insert ROOT (fst ` set T)) \<and>
     (\<forall>c e. tree_edge t c = Some e \<longrightarrow> e_parent e \<in> set queue \<longrightarrow> c \<notin> fst ` set T) \<and>
     (\<forall>c e. tree_edge t c = Some e \<longrightarrow> e_parent e \<in> insert ROOT (fst ` set T) \<longrightarrow> is_dir t (e_parent e) \<longrightarrow>
        e_parent e \<notin> set queue \<longrightarrow> \<not> is_trashed t c \<longrightarrow> \<not> is_limbo t c \<longrightarrow> c \<in> fst ` set T)"

lemma bfs_invD:
  assumes "bfs_inv t queue T"
  shows "distinct (map fst T)" and "distinct queue" and "set queue \<subseteq> insert ROOT (fst ` set T)"
    and "(c, e) \<in> set T \<Longrightarrow> tree_edge t c = Some e \<and> e_parent e \<in> insert ROOT (fst ` set T)"
    and "tree_edge t c = Some e \<Longrightarrow> e_parent e \<in> set queue \<Longrightarrow> c \<notin> fst ` set T"
    and "tree_edge t c = Some e \<Longrightarrow> e_parent e \<in> insert ROOT (fst ` set T) \<Longrightarrow> is_dir t (e_parent e) \<Longrightarrow>
        e_parent e \<notin> set queue \<Longrightarrow> \<not> is_trashed t c \<Longrightarrow> \<not> is_limbo t c \<Longrightarrow> c \<in> fst ` set T"
proof -
  note I = assms [unfolded bfs_inv_def]
  show "distinct (map fst T)" and "distinct queue" and "set queue \<subseteq> insert ROOT (fst ` set T)"
    by (simp_all add: I)
  show "(c, e) \<in> set T \<Longrightarrow> tree_edge t c = Some e \<and> e_parent e \<in> insert ROOT (fst ` set T)"
    using conjunct1 [OF conjunct2 [OF conjunct2 [OF conjunct2 [OF I]]]] by blast
  show "tree_edge t c = Some e \<Longrightarrow> e_parent e \<in> set queue \<Longrightarrow> c \<notin> fst ` set T"
    using conjunct1 [OF conjunct2 [OF conjunct2 [OF conjunct2 [OF conjunct2 [OF I]]]]] by blast
  show "tree_edge t c = Some e \<Longrightarrow> e_parent e \<in> insert ROOT (fst ` set T) \<Longrightarrow> is_dir t (e_parent e) \<Longrightarrow>
        e_parent e \<notin> set queue \<Longrightarrow> \<not> is_trashed t c \<Longrightarrow> \<not> is_limbo t c \<Longrightarrow> c \<in> fst ` set T"
    using conjunct2 [OF conjunct2 [OF conjunct2 [OF conjunct2 [OF conjunct2 [OF I]]]]] by blast
qed

lemma fst_child_edges [simp]: "map fst (child_edges t p xs) = map snd xs"
  by (auto simp: child_edges_def)

lemma child_edges_kept:
  assumes "index_ok t"
  shows "(c, e) \<in> set (child_edges t p (kept_children t p)) \<longleftrightarrow>
    tree_edge t c = Some e \<and> e_parent e = p \<and> \<not> is_trashed t c \<and> \<not> is_limbo t c"
proof -
  have "(c, e) \<in> set (child_edges t p (kept_children t p)) \<longleftrightarrow>
      (\<exists>n. (n, c) \<in> set (kept_children t p) \<and> e = \<lparr>e_parent = p, e_name = n, e_kind = kind_of t c\<rparr>)"
    by (auto simp: child_edges_def)
  also have "\<dots> \<longleftrightarrow> tree_edge t c = Some e \<and> e_parent e = p \<and> \<not> is_trashed t c \<and> \<not> is_limbo t c"
    by (cases e) (auto simp: set_kept_children [OF assms] tree_edge_def kind_of_def)
  finally show ?thesis .
qed

lemma kept_ids: 
  assumes "index_ok t"
  shows "distinct (map snd (kept_children t p))"
    and "c \<in> snd ` set (kept_children t p) \<longleftrightarrow>
      (\<exists>e. tree_edge t c = Some e \<and> e_parent e = p) \<and> \<not> is_trashed t c \<and> \<not> is_limbo t c"
proof -
  have "distinct (kept_children t p)"
    by (simp add: kept_children_def)
  then show "distinct (map snd (kept_children t p))"
    by (auto simp: distinct_map set_kept_children [OF assms] intro!: inj_onI)
  have "c \<in> snd ` set (kept_children t p) \<longleftrightarrow> (\<exists>n. (n, c) \<in> set (kept_children t p))"
    by force
  then show "c \<in> snd ` set (kept_children t p) \<longleftrightarrow>
      (\<exists>e. tree_edge t c = Some e \<and> e_parent e = p) \<and> \<not> is_trashed t c \<and> \<not> is_limbo t c"
    by (auto simp: set_kept_children [OF assms] tree_edge_def)
qed

lemma set_kept_dirs:
  assumes "index_ok t"
  shows "c \<in> set (kept_dirs t p) \<longleftrightarrow> c \<in> snd ` set (kept_children t p) \<and> kind_of t c = Dir"
  by (auto simp: kept_dirs_def)

lemma bfs_step:
  assumes ix: "index_ok t" and ac: "acyclic (parent_rel (t_edges t))" and root: "tree_edge t ROOT = None"
    and inv: "bfs_inv t (p # rest) T"
  shows "bfs_inv t (rest @ kept_dirs t p) (T @ child_edges t p (kept_children t p))"
proof -
  let ?K = "kept_children t p" and ?M = "fst ` set T"
  let ?T = "T @ child_edges t p ?K"
  have fstT: "fst ` set ?T = ?M \<union> snd ` set ?K"
    using arg_cong [OF fst_child_edges [of t p ?K], of set]
    by (simp only: set_map set_append image_Un)
  have pM: "p \<in> insert ROOT ?M" and prest: "p \<notin> set rest" "distinct rest" and sub: "set rest \<subseteq> insert ROOT ?M"
    and T: "\<And>c e. (c, e) \<in> set T \<Longrightarrow> tree_edge t c = Some e \<and> e_parent e \<in> insert ROOT ?M"
    and new: "\<And>c e. tree_edge t c = Some e \<Longrightarrow> e_parent e \<in> set (p # rest) \<Longrightarrow> c \<notin> ?M"
    and closed: "\<And>c e. tree_edge t c = Some e \<Longrightarrow> e_parent e \<in> insert ROOT ?M \<Longrightarrow> is_dir t (e_parent e) \<Longrightarrow>
        e_parent e \<notin> set (p # rest) \<Longrightarrow> \<not> is_trashed t c \<Longrightarrow> \<not> is_limbo t c \<Longrightarrow> c \<in> ?M"
    using bfs_invD [OF inv] by simp_all
  have KnotM: "c \<notin> insert ROOT ?M" if "c \<in> snd ` set ?K" for c
    using that new root by (auto simp: kept_ids [OF ix])
  have noself: "tree_edge t p = Some e \<Longrightarrow> e_parent e \<noteq> p" for e
    using ac r_into_trancl [of p p "parent_rel (t_edges t)"] by (auto simp: acyclic_def tree_edge_def)
  have M_edge: "\<exists>e. tree_edge t c = Some e \<and> e_parent e \<in> insert ROOT ?M" if "c \<in> ?M" for c
    using that T by force
  show ?thesis
    unfolding bfs_inv_def
  proof (intro conjI)
    show "distinct (map fst ?T)"
      using inv KnotM kept_ids(1) [OF ix] by (auto simp: bfs_inv_def)
    show "distinct (rest @ kept_dirs t p)"
      using prest sub KnotM kept_ids(1) [OF ix, of p] set_kept_dirs [OF ix]
      by (auto simp: kept_dirs_def)
    show "set (rest @ kept_dirs t p) \<subseteq> insert ROOT (fst ` set ?T)"
      unfolding fstT using sub set_kept_dirs [OF ix] by auto
    show "\<forall>(c, e) \<in> set ?T. tree_edge t c = Some e \<and> e_parent e \<in> insert ROOT (fst ` set ?T)"
      unfolding fstT
    proof (intro ballI, clarify)
      fix c e
      assume "(c, e) \<in> set ?T"
      then consider "(c, e) \<in> set T" | "(c, e) \<in> set (child_edges t p ?K)"
        by auto
      then show "tree_edge t c = Some e \<and> e_parent e \<in> insert ROOT (?M \<union> snd ` set ?K)"
      proof cases
        case 1
        then show ?thesis using T by blast
      next
        case 2
        then have "tree_edge t c = Some e" and "e_parent e = p"
          by (simp_all add: child_edges_kept [OF ix])
        with pM show ?thesis by blast
      qed
    qed
    show "\<forall>c e. tree_edge t c = Some e \<longrightarrow> e_parent e \<in> set (rest @ kept_dirs t p) \<longrightarrow> c \<notin> fst ` set ?T"
    proof (intro allI impI)
      fix c e
      assume c: "tree_edge t c = Some e" and q: "e_parent e \<in> set (rest @ kept_dirs t p)"
      show "c \<notin> fst ` set ?T"
      proof (cases "e_parent e \<in> set rest")
        case True
        then show ?thesis
          unfolding fstT using new [OF c] c prest by (auto simp: kept_ids [OF ix])
      next
        case False
        with q have k: "e_parent e \<in> snd ` set ?K"
          using set_kept_dirs [OF ix] by auto
        then show ?thesis
          unfolding fstT using KnotM [OF k] M_edge [of c] c noself by (auto simp: kept_ids [OF ix])
      qed
    qed
    show "\<forall>c e. tree_edge t c = Some e \<longrightarrow> e_parent e \<in> insert ROOT (fst ` set ?T) \<longrightarrow> is_dir t (e_parent e) \<longrightarrow>
        e_parent e \<notin> set (rest @ kept_dirs t p) \<longrightarrow> \<not> is_trashed t c \<longrightarrow> \<not> is_limbo t c \<longrightarrow> c \<in> fst ` set ?T"
    proof (intro allI impI)
      fix c e
      assume c: "tree_edge t c = Some e" and q: "e_parent e \<in> insert ROOT (fst ` set ?T)"
        and dir: "is_dir t (e_parent e)" and nq: "e_parent e \<notin> set (rest @ kept_dirs t p)"
        and live: "\<not> is_trashed t c" "\<not> is_limbo t c"
      show "c \<in> fst ` set ?T"
      proof (cases "e_parent e = p")
        case True
        with c live show ?thesis
          unfolding fstT by (auto simp: kept_ids [OF ix])
      next
        case False
        have "e_parent e \<notin> snd ` set ?K"
        proof
          assume k: "e_parent e \<in> snd ` set ?K"
          with dir KnotM [OF k] have "kind_of t (e_parent e) = Dir"
            by (auto simp: is_dir_def kind_of_def)
          with k nq show False by (simp add: set_kept_dirs [OF ix])
        qed
        with q have "e_parent e \<in> insert ROOT ?M"
          unfolding fstT by auto
        with closed [OF c _ dir _ live] False nq show ?thesis
          unfolding fstT by auto
      qed
    qed
  qed
qed

lemma bfs_start: "tree_edge t ROOT = None \<Longrightarrow> bfs_inv t [ROOT] []"
  by (auto simp: bfs_inv_def)

text \<open>Every node below the root is emitted once the queue is empty.\<close>

definition parents_are_dirs :: "drive_tree \<Rightarrow> bool" where
  "parents_are_dirs t \<longleftrightarrow> (\<forall>c e. tree_edge t c = Some e \<longrightarrow> below (t_edges t) (e_parent e) ROOT \<longrightarrow> is_dir t (e_parent e))"

lemma bfs_end:
  assumes inv: "bfs_inv t [] T" and dirs: "parents_are_dirs t" and rf: "reserved_free (t_edges t)"
    and ac: "acyclic (parent_rel (t_edges t))"
  shows "c \<in> fst ` set T \<longleftrightarrow> c \<noteq> ROOT \<and> below (t_edges t) c ROOT"
proof
  have root: "tree_edge t ROOT = None"
    using rf by (simp add: reserved_free_def tree_edge_def)
  have wf: "wf ((parent_rel (t_edges t))\<inverse>)"
    by (intro finite_acyclic_wf_converse finite_parent_rel ac)
  have up: "c \<in> fst ` set T \<longrightarrow> below (t_edges t) c ROOT" for c
  proof (induction c rule: wf_induct_rule [OF wf])
    case (1 c)
    show ?case
    proof
      assume "c \<in> fst ` set T"
      then obtain e where ce: "tree_edge t c = Some e" "e_parent e \<in> insert ROOT (fst ` set T)"
        using inv unfolding bfs_inv_def by fastforce
      then have step: "(c, e_parent e) \<in> parent_rel (t_edges t)"
        by (simp add: tree_edge_def)
      with ce 1 have "below (t_edges t) (e_parent e) ROOT" by auto
      with step show "below (t_edges t) c ROOT" by (rule converse_rtrancl_into_rtrancl)
    qed
  qed
  assume c: "c \<in> fst ` set T"
  then have "tree_edge t c \<noteq> None"
    using inv unfolding bfs_inv_def by fastforce
  with root up c show "c \<noteq> ROOT \<and> below (t_edges t) c ROOT" by auto
next
  assume "c \<noteq> ROOT \<and> below (t_edges t) c ROOT"
  then have "below (t_edges t) c ROOT" and "c \<noteq> ROOT" by auto
  then show "c \<in> fst ` set T"
  proof (induction rule: converse_rtrancl_induct)
    case (step y z)
    then obtain e where e: "tree_edge t y = Some e" "e_parent e = z"
      by (auto simp: tree_edge_def)
    have "below (t_edges t) y ROOT"
      using step.hyps by (rule converse_rtrancl_into_rtrancl)
    then have "\<not> is_trashed t y" "\<not> is_limbo t y"
      using below_root_live [OF _ rf] by auto
    moreover have "is_dir t z"
      using dirs e step.hyps(2) by (auto simp: parents_are_dirs_def)
    moreover have "z \<in> insert ROOT (fst ` set T)"
      using step.IH by auto
    ultimately show ?case
      using bfs_invD(6) [OF inv e(1)] e(2) by simp
  qed simp
qed

text \<open>The accumulator: the invariant of the loop, of the timestamps and of the content operations.\<close>

definition acc_inv :: "drive \<Rightarrow> node_id list \<Rightarrow> compact_acc \<Rightarrow> bool" where
  "acc_inv d queue a \<longleftrightarrow>
     bfs_inv (d_tree d) queue (map strip_op (ca_moves a)) \<and> acc_ok a \<and>
     map s_op (ca_content a) = concat (map (content_ops d) (map op_child (ca_moves a)))"

lemma fst_strip [simp]: "fst \<circ> strip_op = op_child"
  by (rule ext) (simp add: strip_op_def)

lemma compact_loop_correct:
  assumes ok: "drive_ok d" and "acc_inv d queue a"
  shows "\<exists>b. compact_loop d queue a = Some b \<and> acc_inv d [] b"
  using assms(2)
proof (induction queue arbitrary: a rule: wf_induct_rule [OF wf_queue [OF drive_okD(4) [OF ok]]])
  case (1 queue)
  note ix = drive_okD(2) [OF ok]
  have root: "tree_edge (d_tree d) ROOT = None"
    using reserved_freeD [OF drive_okD(3) [OF ok]] by (simp add: tree_edge_def)
  show ?case
  proof (cases queue)
    case Nil
    with 1(2) show ?thesis by (simp add: compact_loop.simps)
  next
    case (Cons p rest)
    let ?K = "kept_children (d_tree d) p"
    let ?a = "fold (compact_child d p) ?K a" and ?q = "rest @ kept_dirs (d_tree d) p"
    have moves: "map op_child (ca_moves ?a) = map op_child (ca_moves a) @ map snd ?K"
      using arg_cong [OF compact_children_frame(1) [of d p ?K a], of "map fst"] by simp
    have "acc_inv d ?q ?a"
      using 1(2) bfs_step [OF ix drive_okD(4) [OF ok] root] compact_children_ok
      by (simp add: acc_inv_def Cons compact_children_frame moves del: map_map) (simp add: comp_def)
    then have "\<exists>b. compact_loop d ?q ?a = Some b \<and> acc_inv d [] b"
      using queue_decreases [OF ix] by (intro 1(1)) (simp_all add: Cons)
    then show ?thesis
      by (subst compact_loop.simps) (simp add: Cons)
  qed
qed

section \<open>The rebuilt drive\<close>

text \<open>Replaying some of a tree's own edges takes every one of them.\<close>

lemma replay_restrict:
  assumes "acyclic (parent_rel E)" and "\<forall>op \<in> set ops. fmlookup E (op_child op) = Some (edge_of op)"
    and "\<And>c e. fmlookup F c = Some e \<Longrightarrow> fmlookup E c = Some e"
  shows "fmlookup (replay F ops) c = (if c \<in> op_child ` set ops then fmlookup E c else fmlookup F c)"
  using assms(2,3)
proof (induction ops arbitrary: F)
  case (Cons op ops)
  have op: "fmlookup E (op_child op) = Some (edge_of op)"
    using Cons.prems(1) by simp
  then have step: "(op_child op, op_new_parent op) \<in> parent_rel E"
    by (simp add: edge_of_def)
  have "\<not> below F (op_new_parent op) (op_child op)"
  proof
    assume "below F (op_new_parent op) (op_child op)"
    moreover have "parent_rel F \<subseteq> parent_rel E"
      using Cons.prems(2) by auto
    ultimately have "below E (op_new_parent op) (op_child op)"
      using rtrancl_mono by blast
    with step have "(op_child op, op_child op) \<in> (parent_rel E)\<^sup>+"
      by (rule rtrancl_into_trancl2)
    with assms(1) show False by (simp add: acyclic_def)
  qed
  then have "move_edges F op = fmupd (op_child op) (edge_of op) F"
    by (auto simp: move_edges_def edges_ancestor_iff)
  moreover have "\<And>c e. fmlookup (fmupd (op_child op) (edge_of op) F) c = Some e \<Longrightarrow> fmlookup E c = Some e"
    using op Cons.prems(2) by (auto split: if_splits)
  ultimately show ?case
    using Cons.IH [of "fmupd (op_child op) (edge_of op) F"] Cons.prems(1) op by auto
qed simp

lemma filter_concat_key:
  assumes "distinct is" and "\<And>i op. op \<in> set (f i) \<Longrightarrow> g op = i"
  shows "filter (\<lambda>op. g op = i) (concat (map f is)) = (if i \<in> set is then f i else [])"
  using assms(1)
proof (induction "is")
  case (Cons j "is")
  have "filter (\<lambda>op. g op = i) (f j) = (if i = j then f j else [])"
    using assms(2) by (auto simp: filter_id_conv filter_empty_conv)
  with Cons show ?case by auto
qed simp

lemma record_ops_target: "op \<in> set (record_ops i c) \<Longrightarrow> op_target op = i"
  by (auto simp: record_ops_def split: option.splits)

lemma content_ops_target: "op \<in> set (content_ops d i) \<Longrightarrow> op_target op = i"
  by (auto simp: content_ops_def dest: record_ops_target split: option.splits)

definition run_key :: "content_op list \<Rightarrow> file_content option \<Rightarrow> file_content option" where
  "run_key ops c = fold key_apply ops c"

definition compacted :: "drive \<Rightarrow> compact_acc \<Rightarrow> drive" where
  "compacted d a =
     \<lparr>d_state = (d_state d)\<lparr>ds_move_log := ca_moves a, ds_content_log := ca_content a,
         ds_lamport := ca_lamport a\<rparr>,
      d_tree = apply_all (ca_moves a) tree_new, d_content = fold_content (ca_content a)\<rparr>"

lemma compact_returns:
  assumes ok: "drive_ok d"
  obtains a where "compact d = Some (compacted d a)" and "acc_inv d [] a"
proof -
  let ?a0 = "\<lparr>ca_lamport = 0, ca_moves = [], ca_content = []\<rparr>"
  have "tree_edge (d_tree d) ROOT = None"
    using reserved_freeD [OF drive_okD(3) [OF ok]] by (simp add: tree_edge_def)
  then have "acc_inv d [ROOT] ?a0"
    by (simp add: acc_inv_def bfs_start acc_ok_def acc_size_def)
  from compact_loop_correct [OF ok this] that show thesis
    by (auto simp: compact_def compacted_def)
qed

lemma emitted_edge:
  assumes "acc_inv d [] a" and "op \<in> set (ca_moves a)"
  shows "fmlookup (edges_of d) (op_child op) = Some (edge_of op)"
proof -
  have "bfs_inv (d_tree d) [] (map strip_op (ca_moves a))"
    using assms(1) by (simp add: acc_inv_def)
  moreover have "(op_child op, edge_of op) \<in> set (map strip_op (ca_moves a))"
    using assms(2) by (auto simp: strip_op_def)
  ultimately show ?thesis
    using bfs_invD(4) by (fastforce simp: tree_edge_def)
qed

lemma emitted_nodes:
  assumes "acc_inv d [] a" and "drive_ok d" and "parents_are_dirs (d_tree d)"
  shows "c \<in> op_child ` set (ca_moves a) \<longleftrightarrow> c \<noteq> ROOT \<and> below (edges_of d) c ROOT"
    and "distinct (map op_child (ca_moves a))"
proof -
  have inv: "bfs_inv (d_tree d) [] (map strip_op (ca_moves a))"
    using assms(1) by (simp add: acc_inv_def)
  have "fst ` set (map strip_op (ca_moves a)) = op_child ` set (ca_moves a)"
    by (simp add: image_comp)
  then show "c \<in> op_child ` set (ca_moves a) \<longleftrightarrow> c \<noteq> ROOT \<and> below (edges_of d) c ROOT"
    using bfs_end [OF inv assms(3) drive_okD(3,4) [OF assms(2)]] by simp
  show "distinct (map op_child (ca_moves a))"
    using bfs_invD(1) [OF inv] by simp
qed

lemma compacted_frame [simp]:
  "moves_of (compacted d a) = ca_moves a" "contents_of (compacted d a) = ca_content a"
  "d_content (compacted d a) = fold_content (ca_content a)"
  "ds_lamport (d_state (compacted d a)) = ca_lamport a"
  "d_tree (compacted d a) = apply_all (ca_moves a) tree_new"
  "op_count (compacted d a) = acc_size a"
  by (simp_all add: compacted_def op_count_def acc_size_def)

lemma compacted_ok:
  assumes ok: "drive_ok d" and inv: "acc_inv d [] a" and size: "acc_size a < 2 ^ 64"
  shows "drive_ok (compacted d a)" and "edges_of (compacted d a) = replay fmempty (ca_moves a)"
proof -
  have acc: "asc_by op_ts (ca_moves a)" "asc_by s_ts (ca_content a)"
    "\<forall>op \<in> set (ca_moves a). lamport (op_ts op) \<le> ca_lamport a"
    "\<forall>s \<in> set (ca_content a). lamport (s_ts s) \<le> ca_lamport a"
    using inv size by (simp_all add: acc_inv_def acc_ok_def)
  note canon = insert_all_id [OF acc(1)]
  have tree: "tree_inv (apply_all (ca_moves a) tree_new) (ca_moves a)"
    using apply_all_inv [of "ca_moves a"] by (simp add: canon)
  then show "edges_of (compacted d a) = replay fmempty (ca_moves a)"
    by (simp add: tree_inv_def)
  have "op_ok op" if "op \<in> set (ca_moves a)" for op
    using emitted_edge [OF inv that] drive_okD(3) [OF ok] by (auto simp: op_ok_def reserved_free_def)
  with tree acc show "drive_ok (compacted d a)"
    by (simp add: drive_ok_def drive_inv_def canon content_ok_def clock_ok_def list_all_iff)
qed

lemma compacted_edges:
  assumes ok: "drive_ok d" and inv: "acc_inv d [] a" and size: "acc_size a < 2 ^ 64"
    and dirs: "parents_are_dirs (d_tree d)"
  shows "fmlookup (edges_of (compacted d a)) c =
    (if c \<noteq> ROOT \<and> below (edges_of d) c ROOT then fmlookup (edges_of d) c else None)"
  unfolding compacted_ok(2) [OF ok inv size]
  using replay_restrict [OF drive_okD(4) [OF ok], of "ca_moves a" fmempty c] emitted_edge [OF inv]
    emitted_nodes(1) [OF inv ok dirs]
  by simp

lemma compacted_content:
  assumes ok: "drive_ok d" and inv: "acc_inv d [] a" and size: "acc_size a < 2 ^ 64"
    and dirs: "parents_are_dirs (d_tree d)"
  shows "content_get (d_content (compacted d a)) c =
    (if c \<noteq> ROOT \<and> below (edges_of d) c ROOT then run_key (content_ops d c) None else None)"
proof -
  have asc: "asc_by s_ts (ca_content a)"
    and ops: "map s_op (ca_content a) = concat (map (content_ops d) (map op_child (ca_moves a)))"
    using inv size by (simp_all add: acc_inv_def acc_ok_def)
  have "fold (\<lambda>s. key_apply (s_op s)) ss = fold key_apply (map s_op ss)" for ss :: "stamped_op list"
    by (simp add: fold_map comp_def)
  moreover have "map s_op (filter (\<lambda>s. op_target (s_op s) = c) ss) = filter (\<lambda>op. op_target op = c) (map s_op ss)" for ss :: "stamped_op list"
    by (simp add: filter_map comp_def)
  ultimately have "fmlookup (fold_content (ca_content a)) c =
      fold key_apply (filter (\<lambda>op. op_target op = c) (map s_op (ca_content a))) None"
    by (simp add: fold_content_asc [OF asc] apply_stamped_lookup)
  also have "filter (\<lambda>op. op_target op = c) (map s_op (ca_content a)) =
      (if c \<in> set (map op_child (ca_moves a)) then content_ops d c else [])"
    unfolding ops by (rule filter_concat_key [OF emitted_nodes(2) [OF inv ok dirs] content_ops_target])
  finally show ?thesis
    using emitted_nodes(1) [OF inv ok dirs, of c] by (simp add: content_get_def run_key_def)
qed

section \<open>The rebuilt content record\<close>

definition newest :: "file_content \<Rightarrow> bool" where
  "newest c \<longleftrightarrow> (\<forall>v \<in> set (fc_versions c). (v_set_at_ms v, v_cid v) < (fc_mtime_ms c, fc_cid c))"

lemma run_key_simps [simp]:
  "run_key [] c = c" "run_key (op # ops) c = run_key ops (key_apply op c)"
  "run_key (xs @ ys) c = run_key ys (run_key xs c)"
  by (simp_all add: run_key_def)

text \<open>Replaying the version history leaves nothing, or a record stamped like one of the versions.\<close>

lemma run_versions:
  assumes "\<And>c. old = Some c \<Longrightarrow> (fc_mtime_ms c, fc_cid c) \<in> S \<and> fc_doc_id c = None"
    and "\<forall>v \<in> set vs. (v_set_at_ms v, v_cid v) \<in> S"
    and "run_key (map (\<lambda>v. Set i (v_cid v) (v_size v) m (v_set_at_ms v)) vs) old = Some c"
  shows "(fc_mtime_ms c, fc_cid c) \<in> S \<and> fc_doc_id c = None"
  using assms
proof (induction vs arbitrary: old)
  case (Cons v vs)
  show ?case
  proof (rule Cons.IH [of "key_apply (Set i (v_cid v) (v_size v) m (v_set_at_ms v)) old"])
    fix c
    assume "key_apply (Set i (v_cid v) (v_size v) m (v_set_at_ms v)) old = Some c"
    then show "(fc_mtime_ms c, fc_cid c) \<in> S \<and> fc_doc_id c = None"
      using Cons.prems(1,2)
      by (auto simp: key_apply_def fc_new_def fc_record_def split: option.splits if_splits)
  qed (use Cons.prems in simp_all)
qed simp

lemma rebuild_current:
  assumes "newest c"
  obtains c' where "run_key (record_ops i c) None = Some c'" and "fc_cid c' = fc_cid c"
    and "fc_mode c' = fc_mode c" and "fc_doc_id c' = fc_doc_id c"
proof -
  let ?vs = "map (\<lambda>v. Set i (v_cid v) (v_size v) (fc_mode c) (v_set_at_ms v)) (fc_versions c)"
  let ?S = "(\<lambda>v. (v_set_at_ms v, v_cid v)) ` set (fc_versions c)"
  let ?set = "Set i (fc_cid c) (fc_size c) (fc_mode c) (fc_mtime_ms c)"
  have "\<exists>c'. key_apply ?set (run_key ?vs None) = Some c' \<and> fc_cid c' = fc_cid c \<and> fc_mode c' = fc_mode c \<and>
      fc_doc_id c' = None"
  proof (cases "run_key ?vs None")
    case None
    then show ?thesis by (simp add: key_apply_def fc_new_def)
  next
    case (Some c0)
    have "(fc_mtime_ms c0, fc_cid c0) \<in> ?S \<and> fc_doc_id c0 = None"
      by (rule run_versions [OF _ _ Some]) auto
    then have "(fc_mtime_ms c0, fc_cid c0) < (fc_mtime_ms c, fc_cid c)" and "fc_doc_id c0 = None"
      using assms by (auto simp: newest_def)
    with Some show ?thesis
      by (auto simp: key_apply_def fc_record_def)
  qed
  then show thesis
    using that by (cases "fc_doc_id c") (auto simp: record_ops_def key_apply_def)
qed

text \<open>Edits keep the current content the newest of its history; so does a restore with a later clock.\<close>

lemma newest_new: "newest (fc_new cid sz mode mtime)"
  by (simp add: newest_def fc_new_def)

lemma push_version_newer:
  "v \<in> set (fc_versions (push_version c w)) \<Longrightarrow> v \<in> set (fc_versions c) \<or> v = w"
  by (auto simp: push_version_def Let_def split: if_splits dest: in_set_dropD)

lemma newest_record: "newest c \<Longrightarrow> newest (fst (fc_record c cid sz mtime))"
  by (auto simp: newest_def fc_record_def dest!: push_version_newer)

lemma newest_restore:
  assumes "newest c" and "fc_mtime_ms c < now" and "\<forall>v \<in> set (fc_versions c). v_set_at_ms v < now"
  shows "newest (fst (fc_restore c cid now))"
  using assms by (auto simp: newest_def fc_restore_def split: option.split dest!: push_version_newer)

end
