(* ===== verification/FreshIds.thy ===== *)
theory FreshIds
  imports DriveOps
begin

text \<open>
  The node ids \<open>fresh_node_id\<close> makes: a zero-padded hexadecimal clock value followed by a zero-padded
  counter value. Two of them are equal only for the same clock and counter while both fit their
  field, and none is a reserved id.
\<close>

definition digit_value :: "char \<Rightarrow> nat" where
  "digit_value c = (let n = of_char c :: nat in if n < 58 then n - 48 else n - 87)"

definition hex_value :: "string \<Rightarrow> nat" where
  "hex_value s = foldl (\<lambda>a c. a * 16 + digit_value c) 0 s"

lemma digit_value_char [simp]: "d < 16 \<Longrightarrow> digit_value (digit_char d) = d"
  by (simp add: digit_value_def digit_char_def Let_def)

lemma hex_value_snoc: "hex_value (s @ [c]) = hex_value s * 16 + digit_value c"
  by (simp add: hex_value_def)

lemma hex_value_digits [simp]: "hex_value (digits_base 16 n) = n"
proof (induction n rule: less_induct)
  case (less n)
  show ?case
  proof (cases "n < 16")
    case True
    then show ?thesis by (simp add: digits_base.simps hex_value_def)
  next
    case False
    with less show ?thesis
      by (subst digits_base.simps) (simp add: hex_value_snoc)
  qed
qed

lemma hex_value_zeros [simp]: "hex_value (replicate k (CHR ''0'') @ s) = hex_value s"
  by (induction k) (simp_all add: hex_value_def digit_value_def)

lemma hex_value_padded [simp]: "hex_value (hex_padded k w) = unat w"
  by (simp add: hex_padded_def Let_def)

lemma length_digits: "n < 16 ^ Suc k \<Longrightarrow> length (digits_base 16 n) \<le> Suc k"
proof (induction k arbitrary: n)
  case 0
  then show ?case by (simp add: digits_base.simps)
next
  case (Suc k)
  show ?case
  proof (cases "n < 16")
    case True
    then show ?thesis by (simp add: digits_base.simps)
  next
    case False
    have "n div 16 < 16 ^ Suc k"
      using Suc.prems by (simp add: div_less_iff_less_mult mult.commute)
    then show ?thesis
      using Suc.IH [of "n div 16"] False by (subst digits_base.simps) simp
  qed
qed

lemma length_hex_padded: "unat w < 16 ^ Suc k \<Longrightarrow> length (hex_padded (Suc k) w) = Suc k"
  using length_digits [of "unat w" k] by (simp add: hex_padded_def Let_def)

lemma fresh_ids_distinct:
  assumes "fresh_node_id l c = fresh_node_id m k" and "unat l < 16 ^ 12" and "unat m < 16 ^ 12"
    and "unat c < 16 ^ 8" and "unat k < 16 ^ 8"
  shows "l = m \<and> c = k"
proof -
  have "length (hex_padded 12 l) = 12" "length (hex_padded 12 m) = 12"
    using length_hex_padded [of l 11] length_hex_padded [of m 11] assms(2,3) by simp_all
  with assms(1) have "hex_padded 12 l = hex_padded 12 m" and "hex_padded 8 c = hex_padded 8 k"
    by (simp_all add: fresh_node_id_def)
  then have "hex_value (hex_padded 12 l) = hex_value (hex_padded 12 m)"
    and "hex_value (hex_padded 8 c) = hex_value (hex_padded 8 k)"
    by simp_all
  then have "unat l = unat m" and "unat c = unat k" by simp_all
  then show ?thesis by (simp add: unsigned_word_eqI)
qed

section \<open>No reserved id\<close>

definition hexish :: "char \<Rightarrow> bool" where
  "hexish c \<longleftrightarrow> (of_char c :: nat) < 58 \<or> 97 \<le> (of_char c :: nat)"

lemma hexish_digit: "d < 16 \<Longrightarrow> hexish (digit_char d)"
  by (simp add: hexish_def digit_char_def)

lemma digits_hexish: "list_all hexish (digits_base 16 n)"
proof (induction n rule: less_induct)
  case (less n)
  then show ?case
    by (subst digits_base.simps) (simp add: hexish_digit)
qed

lemma fresh_hexish: "list_all hexish (fresh_node_id l c)"
proof -
  have "hexish (CHR ''0'')" by (simp add: hexish_def)
  then have "list_all hexish (hex_padded k w)" for k and w :: u64
    using digits_hexish by (auto simp: hex_padded_def Let_def list_all_iff)
  then show ?thesis by (simp add: fresh_node_id_def)
qed

lemma fresh_not_reserved [simp]:
  "fresh_node_id l c \<noteq> ROOT" "fresh_node_id l c \<noteq> TRASH" "fresh_node_id l c \<noteq> LIMBO"
proof -
  have "\<not> list_all hexish ROOT" "\<not> list_all hexish TRASH" "\<not> list_all hexish LIMBO"
    by (simp_all add: ROOT_def TRASH_def LIMBO_def hexish_def)
  then show "fresh_node_id l c \<noteq> ROOT" "fresh_node_id l c \<noteq> TRASH" "fresh_node_id l c \<noteq> LIMBO"
    using fresh_hexish [of l c] by metis+
qed

end
