(* ===== verification/DriveSteps.thy ===== *)
theory DriveSteps
  imports Compaction FreshIds
begin

text \<open>
  The drive as a state machine: one step per public operation, and the invariant of every state
  reached from \<open>init\<close>. A step carries the clock's room; \<open>restore\<close> is for a node other than the trash
  itself, remote moves never move a reserved node.
\<close>

inductive drive_step :: "drive \<Rightarrow> drive \<Rightarrow> bool" where
  step_mkdir: "room 1 d \<Longrightarrow> mkdir d ctr p n = Inr (i, d') \<Longrightarrow> drive_step d d'"
| step_add_file: "room 2 d \<Longrightarrow> add_file d ctr p n c = Inr (i, d') \<Longrightarrow> drive_step d d'"
| step_mv: "room 1 d \<Longrightarrow> mv d s dp n = Inr d' \<Longrightarrow> drive_step d d'"
| step_rm: "room 1 d \<Longrightarrow> rm d p = Inr d' \<Longrightarrow> drive_step d d'"
| step_restore: "room 1 d \<Longrightarrow> i \<noteq> TRASH \<Longrightarrow> restore d i pp nm = Inr d' \<Longrightarrow> drive_step d d'"
| step_empty_trash: "room (2 * length (trash d)) d \<Longrightarrow> drive_step d (snd (empty_trash d))"
| step_gc_trash: "room (2 * length (trash d)) d \<Longrightarrow> drive_step d (snd (gc_trash d now keep))"
| step_set_content: "room 1 d \<Longrightarrow> drive_step d (set_content d i c)"
| step_restore_version: "room 1 d \<Longrightarrow> restore_version d now p cid = Inr d' \<Longrightarrow> drive_step d d'"
| step_remote_move: "remote_room d (op_ts op) \<Longrightarrow> op_ok op \<Longrightarrow> drive_step d (apply_remote_move d op)"
| step_remote_content: "remote_room d (s_ts s) \<Longrightarrow> drive_step d (apply_remote_content d s)"
| step_compact: "compact d = Some d' \<Longrightarrow> op_count d' < 2 ^ 64 \<Longrightarrow> drive_step d d'"

inductive reachable :: "string \<Rightarrow> string \<Rightarrow> drive \<Rightarrow> bool" for name rep where
  reach_init: "reachable name rep (drive_init name rep)"
| reach_step: "reachable name rep d \<Longrightarrow> drive_step d d' \<Longrightarrow> reachable name rep d'"

inductive_cases drive_stepE: "drive_step d d'"

lemma drive_init_ok: "drive_ok (drive_init name rep)"
  using drive_init_inv [of name rep] by (simp add: drive_ok_def drive_init_def)

lemma set_sub_trash: "set (gc_victims d cutoff) \<subseteq> set (trash_ids d)" "length (gc_victims d cutoff) \<le> length (trash d)"
  using length_filter_le [of _ "trash_ids d"] by (auto simp: gc_victims_def)

lemma apply_remote_content_okd: "drive_ok d \<Longrightarrow> remote_room d (s_ts s) \<Longrightarrow> drive_ok (apply_remote_content d s)"
  using apply_remote_content_inv [of d s] drive_invD(2) [of d]
  by (simp add: drive_ok_def content_ok_def apply_remote_content_frame)

lemma drive_step_ok: "drive_step d d' \<Longrightarrow> drive_ok d \<Longrightarrow> drive_ok d'"
proof (induction rule: drive_step.induct)
  case (step_mkdir d ctr p n i d')
  then show ?case by (auto simp: mkdir_Inr intro: push_new_move_ok)
next
  case (step_add_file d ctr p n c i d')
  then have "room 1 d" and "\<And>i parent k. room 1 (push_new_move d i parent n k)"
    using room_push(1) [of 1 d] by (auto simp: numeral_2_eq_2 elim: room_mono)
  with step_add_file show ?case
    by (auto simp: add_file_Inr intro!: push_content_ok push_new_move_ok)
next
  case (step_mv d s dp n d')
  then show ?case by (auto elim: mv_effect)
next
  case (step_rm d p d')
  then show ?case by (auto elim: rm_effect)
next
  case (step_restore d i pp nm d')
  then show ?case by (auto elim: restore_effect)
next
  case (step_empty_trash d)
  then show ?case
    using delete_trashed(2) [of d "trash_ids d"] by (simp add: empty_trash_def)
next
  case (step_gc_trash d now keep)
  have "drive_ok (hard_delete d (gc_victims d cutoff))" for cutoff
    using set_sub_trash(2) [of d cutoff]
    by (intro delete_trashed(2) [OF step_gc_trash(2) _ set_sub_trash(1)] room_mono [OF step_gc_trash(1)]) simp
  moreover have "drive_ok (hard_delete d (trash_ids d))"
    using delete_trashed(2) [of d "trash_ids d"] step_gc_trash by simp
  ultimately show ?case
    by (simp add: gc_trash_def empty_trash_def Let_def)
next
  case (step_set_content d i c)
  then show ?case by (simp add: set_content_def push_content_ok)
next
  case (step_restore_version d now p cid d')
  then show ?case by (auto simp: restore_version_Inr intro: push_content_ok)
next
  case (step_remote_move d op)
  then show ?case
    using apply_remote_move_inv [of d op] by (simp add: drive_ok_def apply_remote_move_def)
next
  case (step_remote_content d s)
  then show ?case by (simp add: apply_remote_content_okd)
next
  case (step_compact d d')
  then show ?case
    by (metis compact_returns compacted_frame(6) compacted_ok(1) option.inject)
qed

lemma reachable_ok: "reachable name rep d \<Longrightarrow> drive_ok d"
  by (induction rule: reachable.induct) (simp_all add: drive_init_ok drive_step_ok)

text \<open>Loading the persisted state of a drive gives the drive back.\<close>

lemma from_state_frame [simp]:
  "d_state (from_state st) = st" "d_tree (from_state st) = apply_all (ds_move_log st) tree_new"
  "d_content (from_state st) = fold_content (ds_content_log st)"
  by (simp_all add: from_state_def)

lemma from_state_view:
  "drive_inv d \<Longrightarrow>
    tree_view (d_tree (from_state (d_state d))) = tree_view (d_tree d) \<and>
    d_content (from_state (d_state d)) = d_content d \<and> drive_inv (from_state (d_state d))"
  using tree_inv_view [OF apply_all_inv [of "moves_of d"], of "d_tree d"]
  by (simp add: drive_inv_def content_ok_def clock_ok_def apply_all_inv)

end
