(* ===== verification/DriveProps.thy ===== *)
theory DriveProps
  imports DriveSteps
begin

text \<open>
  The properties of the content map and of the drive handle, and a small scenario on which the ones
  with a hypothesis are evaluated: a directory with a file of two versions, then deleted.
\<close>

section \<open>The scenario\<close>

definition fc :: "string \<Rightarrow> u64 \<Rightarrow> file_content" where
  "fc cid t = fc_new cid 1 0 t"

definition id_docs :: node_id where "id_docs = ''00000000000100000000''"
definition id_file :: node_id where "id_file = ''00000000000200000001''"

definition w0 :: drive where "w0 = drive_init ''work'' ''dev1''"
definition w1 :: drive where "w1 = snd (projr (mkdir w0 0 ''/'' ''docs''))"
definition w2 :: drive where "w2 = snd (projr (add_file w1 1 ''/docs'' ''a.md'' (fc ''c1'' 5)))"
definition w3 :: drive where "w3 = set_content w2 id_file (fc ''c2'' 9)"
definition w4 :: drive where "w4 = projr (rm w3 ''/docs'')"
definition w5 :: drive where "w5 = projr (restore w4 id_docs (Some ''/'') None)"

lemma w1_step: "mkdir w0 0 ''/'' ''docs'' = Inr (id_docs, w1)"
proof -
  have "\<not> isl (mkdir w0 0 ''/'' ''docs'')" and "fst (projr (mkdir w0 0 ''/'' ''docs'')) = id_docs"
    by code_simp+
  then show ?thesis
    by (cases "mkdir w0 0 ''/'' ''docs''") (auto simp: w1_def)
qed

lemma w2_step: "add_file w1 1 ''/docs'' ''a.md'' (fc ''c1'' 5) = Inr (id_file, w2)"
proof -
  have "\<not> isl (add_file w1 1 ''/docs'' ''a.md'' (fc ''c1'' 5))"
    and "fst (projr (add_file w1 1 ''/docs'' ''a.md'' (fc ''c1'' 5))) = id_file"
    by code_simp+
  then show ?thesis
    by (cases "add_file w1 1 ''/docs'' ''a.md'' (fc ''c1'' 5)") (auto simp: w2_def)
qed

lemma w4_step: "rm w3 ''/docs'' = Inr w4"
proof -
  have "\<not> isl (rm w3 ''/docs'')" by code_simp
  then show ?thesis
    by (cases "rm w3 ''/docs''") (auto simp: w4_def)
qed

lemma w5_step: "restore w4 id_docs (Some ''/'') None = Inr w5"
proof -
  have "\<not> isl (restore w4 id_docs (Some ''/'') None)" by code_simp
  then show ?thesis
    by (cases "restore w4 id_docs (Some ''/'') None") (auto simp: w5_def)
qed

lemma demo_clock:
  "ds_lamport (d_state w0) = 0" "ds_lamport (d_state w1) = 1" "ds_lamport (d_state w2) = 3"
  "ds_lamport (d_state w3) = 4" "ds_lamport (d_state w4) = 5"
  by code_simp+

lemma demo_room [simp]:
  "n < 1000 \<Longrightarrow> room n w0" "n < 1000 \<Longrightarrow> room n w1" "n < 1000 \<Longrightarrow> room n w2" "n < 1000 \<Longrightarrow> room n w3"
  "n < 1000 \<Longrightarrow> room n w4"
  by (simp_all add: room_def demo_clock)

lemma demo_reachable:
  "reachable ''work'' ''dev1'' w0" "reachable ''work'' ''dev1'' w1" "reachable ''work'' ''dev1'' w2"
  "reachable ''work'' ''dev1'' w3" "reachable ''work'' ''dev1'' w4"
proof -
  show r0: "reachable ''work'' ''dev1'' w0"
    unfolding w0_def by (rule reach_init)
  show r1: "reachable ''work'' ''dev1'' w1"
    by (rule reach_step [OF r0 step_mkdir [OF _ w1_step]]) simp
  show r2: "reachable ''work'' ''dev1'' w2"
    by (rule reach_step [OF r1 step_add_file [OF _ w2_step]]) simp
  show r3: "reachable ''work'' ''dev1'' w3"
    unfolding w3_def by (rule reach_step [OF r2 step_set_content]) simp
  show "reachable ''work'' ''dev1'' w4"
    by (rule reach_step [OF r3 step_rm [OF _ w4_step]]) simp
qed

lemmas demo_ok = demo_reachable [THEN reachable_ok]

section \<open>Content records\<close>

text \<open>
  Recording an edit is last-writer-wins by \<open>(mtime, cid)\<close>: the same cid changes nothing, another
  one leaves the larger of the two stamps current, and the result says it won exactly when it did.
\<close>

theorem record_last_writer_wins:
  "if cid = fc_cid c then fc_record c cid sz mtime = (c, False)
   else (fc_mtime_ms (fst (fc_record c cid sz mtime)), fc_cid (fst (fc_record c cid sz mtime)))
          = max (fc_mtime_ms c, fc_cid c) (mtime, cid) \<and>
        snd (fc_record c cid sz mtime) = ((fc_mtime_ms c, fc_cid c) < (mtime, cid))"
  using fc_record_lww [of cid c sz mtime] fc_record_won [of c cid sz mtime] by (auto simp: fc_record_def)

text \<open>
  C7. No edit is lost silently: after recording, both the previous current cid and the recorded one
  are current or in the history, and so is every earlier version while the history is below its cap.
\<close>

theorem record_keeps_both_sides:
  "if length (fc_versions c) < MAX_VERSIONS then insert cid (fc_cids c) \<subseteq> fc_cids (fst (fc_record c cid sz mtime))
   else {fc_cid c, cid} \<subseteq> fc_cids (fst (fc_record c cid sz mtime))"
  using fc_record_keeps [of c cid sz mtime] fc_record_history [of c cid sz mtime]
  by (auto simp: fc_cids_def)

text \<open>
  No content log whatsoever, folded, gives a version history longer than the cap of 32.
\<close>

theorem histories_bounded:
  assumes "content_get (fold_content log) i = Some c"
  shows "length (fc_versions c) \<le> MAX_VERSIONS"
  using fold_content_bounded [of log] assms by (simp add: map_bounded_def fc_bounded_def content_get_def)

definition many_edits :: "stamped_op list" where
  "many_edits = map (\<lambda>n. \<lparr>s_ts = Timestamp (of_nat n) ''a'', s_op = Set ''f'' (digits_base 10 n) 1 0 (of_nat n)\<rparr>) [1..<36]"

theorem histories_bounded_witness:
  "length (fc_versions (the (content_get (fold_content many_edits) ''f''))) = 32"
proof -
  have "content_get (fold_content many_edits) ''f'' = Some (the (content_get (fold_content many_edits) ''f''))"
    and "32 \<le> length (fc_versions (the (content_get (fold_content many_edits) ''f'')))"
    by code_simp+
  with histories_bounded [OF this(1)] show ?thesis by (simp add: MAX_VERSIONS_def)
qed

section \<open>Merging\<close>

text \<open>
  C6. The incremental merge of a remote content operation is equivalent to folding the whole log
  again: it inserts the operation at its timestamp's place, unless that timestamp is there, and
  re-folding the one affected key gives the fold of the new log.
\<close>

theorem incremental_merge_is_full_fold:
  assumes "content_ok d"
  shows "contents_of (apply_remote_content d op) = insert_op s_ts op (contents_of d) \<and>
    d_content (apply_remote_content d op) = fold_content (insert_op s_ts op (contents_of d))"
  using apply_remote_content_ok [OF assms, of op] assms
  by (simp add: content_ok_def apply_remote_content_frame)

theorem incremental_merge_is_full_fold_witness:
  "contents_of (apply_remote_content w3 \<lparr>s_ts = Timestamp 2 ''zz'', s_op = Set id_file ''c9'' 3 0 7\<rparr>)
     = insert_op s_ts \<lparr>s_ts = Timestamp 2 ''zz'', s_op = Set id_file ''c9'' 3 0 7\<rparr> (contents_of w3) \<and>
   d_content (apply_remote_content w3 \<lparr>s_ts = Timestamp 2 ''zz'', s_op = Set id_file ''c9'' 3 0 7\<rparr>)
     = fold_content (insert_op s_ts \<lparr>s_ts = Timestamp 2 ''zz'', s_op = Set id_file ''c9'' 3 0 7\<rparr> (contents_of w3))"
  by (rule incremental_merge_is_full_fold) (rule drive_invD(2) [OF drive_okD(1) [OF demo_ok(4)]])

datatype remote_msg = MoveMsg move_op | ContentMsg stamped_op

fun deliver :: "drive \<Rightarrow> remote_msg \<Rightarrow> drive" where
  "deliver d (MoveMsg op) = apply_remote_move d op"
| "deliver d (ContentMsg s) = apply_remote_content d s"

definition move_msgs :: "remote_msg list \<Rightarrow> move_op list" where
  "move_msgs ms = concat (map (\<lambda>m. case m of MoveMsg op \<Rightarrow> [op] | _ \<Rightarrow> []) ms)"

definition content_msgs :: "remote_msg list \<Rightarrow> stamped_op list" where
  "content_msgs ms = concat (map (\<lambda>m. case m of ContentMsg s \<Rightarrow> [s] | _ \<Rightarrow> []) ms)"

lemma apply_remote_move_frame [simp]:
  "d_tree (apply_remote_move d op) = tree_apply (d_tree d) op"
  "content_view (apply_remote_move d op) = content_view d"
  "contents_of (apply_remote_move d op) = contents_of d"
  "d_content (apply_remote_move d op) = d_content d"
  by (simp_all add: apply_remote_move_def content_view_def)

lemma deliver_tree:
  "content_ok d \<Longrightarrow>
    content_ok (fold (\<lambda>m d. deliver d m) ms d) \<and>
    d_tree (fold (\<lambda>m d. deliver d m) ms d) = apply_all (move_msgs ms) (d_tree d) \<and>
    contents_of (fold (\<lambda>m d. deliver d m) ms d) = insert_all s_ts (content_msgs ms) (contents_of d)"
proof (induction ms arbitrary: d)
  case (Cons m ms)
  have asc: "asc_by s_ts (contents_of d)"
    using Cons.prems by (simp add: content_ok_def)
  have "content_ok (apply_remote_move d op)" for op
    using Cons.prems by (simp add: content_ok_def)
  then have "content_ok (deliver d m)"
    using Cons.prems apply_remote_content_ok by (cases m) simp_all
  from Cons.IH [OF this] show ?case
    by (cases m) (simp_all add: move_msgs_def content_msgs_def apply_remote_content_frame [OF asc])
qed (simp add: move_msgs_def content_msgs_def)

lemma set_msgs: "set (move_msgs ms) = {op. MoveMsg op \<in> set ms}" "set (content_msgs ms) = {s. ContentMsg s \<in> set ms}"
  by (auto simp: move_msgs_def content_msgs_def split: remote_msg.splits)

text \<open>
  C4. Two replicas that start empty and receive the same move and content operations, in whatever
  interleaving, order and repetition, end with the same edges, listings, content log and content map.
\<close>

theorem replicas_converge:
  assumes "set ms = set ns" and "inj_on op_ts {op. MoveMsg op \<in> set ms}" and "inj_on s_ts {s. ContentMsg s \<in> set ms}"
  shows "let d = fold (\<lambda>m d. deliver d m) ms (drive_init n r); e = fold (\<lambda>m d. deliver d m) ns (drive_init k q) in
    edges_of d = edges_of e \<and> kids (d_tree d) = kids (d_tree e) \<and> t_log (d_tree d) = t_log (d_tree e) \<and>
    contents_of d = contents_of e \<and> d_content d = d_content e"
proof -
  let ?d = "fold (\<lambda>m d. deliver d m) ms (drive_init n r)" and ?e = "fold (\<lambda>m d. deliver d m) ns (drive_init k q)"
  have init: "content_ok (drive_init n r)" "d_tree (drive_init n r) = tree_new" "contents_of (drive_init n r) = []" for n r
    by (simp_all add: drive_init_def content_ok_def fold_content_def)
  note D = deliver_tree [OF init(1), of ms n r] and E = deliver_tree [OF init(1), of ns k q]
  have "tree_view (d_tree ?d) = tree_view (d_tree ?e)"
    using tree.converges [of "move_msgs ms" "move_msgs ns"] assms
    by (simp add: D E init set_msgs apply_all_def)
  moreover have "contents_of ?d = contents_of ?e"
    using insert_all_cong [of s_ts "content_msgs ms" "content_msgs ns"] assms
    by (simp add: D E init set_msgs)
  moreover have "d_content ?d = d_content ?e"
    using calculation(2) D E by (simp add: content_ok_def)
  ultimately show ?thesis
    by (simp add: tree_view_def Let_def)
qed

definition demo_msgs :: "remote_msg list" where
  "demo_msgs = map MoveMsg (moves_of w3) @ map ContentMsg (contents_of w3)"

theorem replicas_converge_witness:
  "let d = fold (\<lambda>m d. deliver d m) demo_msgs (drive_init ''x'' ''1'');
       e = fold (\<lambda>m d. deliver d m) (rev demo_msgs @ demo_msgs) (drive_init ''y'' ''2'') in
   edges_of d = edges_of e \<and> kids (d_tree d) = kids (d_tree e) \<and> t_log (d_tree d) = t_log (d_tree e) \<and>
   contents_of d = contents_of e \<and> d_content d = d_content e"
proof (rule replicas_converge)
  show "set demo_msgs = set (rev demo_msgs @ demo_msgs)" by simp
  have "{op. MoveMsg op \<in> set demo_msgs} = set (moves_of w3)" and "{s. ContentMsg s \<in> set demo_msgs} = set (contents_of w3)"
    by (auto simp: demo_msgs_def)
  moreover have "distinct (map op_ts (moves_of w3))" and "distinct (map s_ts (contents_of w3))"
    by code_simp+
  ultimately show "inj_on op_ts {op. MoveMsg op \<in> set demo_msgs}" and "inj_on s_ts {s. ContentMsg s \<in> set demo_msgs}"
    by (simp_all add: distinct_map)
qed

section \<open>The handle as a state machine\<close>



end
