(* ===== verification/DriveOpsProps.thy ===== *)
theory DriveOpsProps
  imports DriveProps
begin

text \<open>
  The properties of the drive's operations: creating, moving, deleting, restoring, emptying the trash
  and compacting; and the concrete histories on which an operation does not do what its documentation
  says.
\<close>

section \<open>Creating\<close>

text \<open>
  A successful \<open>mkdir\<close> with a new id adds exactly one edge, for a directory of that name below the
  resolved parent, and the parent then lists it under that name; no content changes.
\<close>

theorem mkdir_creates:
  assumes "drive_ok d" and "room 1 d" and "mkdir d ctr p name = Inr (i, d')" and "tree_edge (d_tree d) i = None"
  shows "valid_name name \<and> (\<exists>parent. resolve_dir d p = Inr parent \<and>
    edges_of d' = fmupd i \<lparr>e_parent = parent, e_name = name, e_kind = Dir\<rparr> (edges_of d) \<and>
    (name, i, Dir) \<in> set (readdir (d_tree d') parent)) \<and> d_content d' = d_content d"
proof -
  obtain parent where "valid_name name" and res: "resolve_dir d p = Inr parent" and none: "child_named d parent name = None"
    and i: "i = fresh_node_id (ds_lamport (d_state d) + 1) ctr" and d': "d' = push_new_move d i parent name Dir"
    using assms(3) by (auto simp: mkdir_Inr)
  moreover have "fmlookup (edges_of d) i = None"
    using assms(4) by (simp add: tree_edge_def)
  ultimately show ?thesis
    using new_node [OF assms(1,2) res none, of i Dir] by (simp add: i d' del: push_new_move_frame(1))
qed

theorem mkdir_creates_witness:
  "valid_name ''docs'' \<and> (\<exists>parent. resolve_dir w0 ''/'' = Inr parent \<and>
    edges_of w1 = fmupd id_docs \<lparr>e_parent = parent, e_name = ''docs'', e_kind = Dir\<rparr> (edges_of w0) \<and>
    (''docs'', id_docs, Dir) \<in> set (readdir (d_tree w1) parent)) \<and> d_content w1 = d_content w0"
proof (rule mkdir_creates [OF demo_ok(1) _ w1_step])
  show "tree_edge (d_tree w0) id_docs = None" by code_simp
qed simp



text \<open>
  C25. Fresh node ids do not collide: within the range of the two hexadecimal fields, two ids are equal
  only for the same clock and the same counter value, and none is a reserved id.
\<close>

theorem fresh_ids_unique:
  assumes "unat l < 16 ^ 12" and "unat m < 16 ^ 12" and "unat c < 16 ^ 8" and "unat k < 16 ^ 8"
  shows "(fresh_node_id l c = fresh_node_id m k) = (l = m \<and> c = k) \<and>
    fresh_node_id l c \<noteq> ROOT \<and> fresh_node_id l c \<noteq> TRASH \<and> fresh_node_id l c \<noteq> LIMBO"
  using fresh_ids_distinct [of l c m k] assms by auto

theorem fresh_ids_unique_witness:
  "(fresh_node_id 1 12 = fresh_node_id 11 2) = ((1 :: u64) = 11 \<and> (12 :: u64) = 2) \<and>
   fresh_node_id 1 12 \<noteq> ROOT \<and> fresh_node_id 1 12 \<noteq> TRASH \<and> fresh_node_id 1 12 \<noteq> LIMBO"
  by (rule fresh_ids_unique) simp_all

section \<open>Moving\<close>

text \<open>
  C10. A move changes one edge and carries the subtree along: unless the target is inside the moved
  node (then nothing changes), a node below the moved one at \<open>ns @ rs\<close> is at the moved node's new
  path followed by \<open>rs\<close>; no content changes.
\<close>

theorem mv_moves_subtree:
  assumes "drive_ok d" and "room 1 d" and "mv d s dp name = Inr d'"
    and "resolve (d_tree d) s = Some n" and "resolve_dir d dp = Inr parent"
  shows "d_content d' = d_content d \<and>
    (if is_ancestor (d_tree d) n parent then edges_of d' = edges_of d
     else tree_edge (d_tree d') n = Some \<lparr>e_parent = parent, e_name = name, e_kind = kind_of (d_tree d) n\<rparr> \<and>
       fmdrop n (edges_of d') = fmdrop n (edges_of d) \<and>
       (below (edges_of d) m n \<and> placed (edges_of d) n ns \<and> placed (edges_of d) m (ns @ rs) \<and>
          placed (edges_of d') n ns' \<longrightarrow> placed (edges_of d') m (ns' @ rs)))"
proof -
  obtain e where e: "tree_edge (d_tree d) n = Some e"
    and E: "edges_of d' = (if below (edges_of d) parent n then edges_of d
           else fmupd n (e\<lparr>e_parent := parent, e_name := name\<rparr>) (edges_of d))"
    and C: "d_content d' = d_content d"
    using mv_effect [OF assms(1-3)] assms(4,5) by (metis Inr_inject option.inject)
  have root: "fmlookup (edges_of d) ROOT = None"
    by (rule reserved_freeD(1) [OF drive_okD(3) [OF assms(1)]])
  have "fmdrop n (fmupd n x F) = fmdrop n F" for x and F :: edge_map
    by (rule fmap_ext) auto
  then show ?thesis
    using E C subtree_paths [OF _ _ _ root, of m n ns "ns @ rs" _ ns']
    by (auto simp: is_ancestor_iff tree_edge_def kind_of_Some [OF e] edge_eqs)
qed

definition w7 :: drive where "w7 = projr (mv w3 ''/docs'' ''/'' ''papers'')"

lemma w3_edges:
  "edges_of w3 = fmap_of_list [(id_docs, \<lparr>e_parent = ROOT, e_name = ''docs'', e_kind = Dir\<rparr>),
     (id_file, \<lparr>e_parent = id_docs, e_name = ''a.md'', e_kind = File\<rparr>)]"
  by code_simp

lemma demo_ids [simp]: "id_docs \<noteq> id_file" "id_file \<noteq> id_docs" "id_docs \<noteq> ROOT" "id_file \<noteq> ROOT" "ROOT \<noteq> id_docs"
  by code_simp+

lemma w3_placed: "placed (edges_of w3) id_docs [''docs'']" "placed (edges_of w3) id_file ([''docs''] @ [''a.md''])"
  by (simp_all add: placed_iff [of _ id_docs] placed_iff [of _ id_file] w3_edges fmlookup_of_list)

theorem mv_moves_subtree_witness:
  "placed (edges_of w7) id_file ([''papers''] @ [''a.md'']) \<and>
   tree_edge (d_tree w7) id_docs = Some \<lparr>e_parent = ROOT, e_name = ''papers'', e_kind = Dir\<rparr> \<and>
   d_content w7 = d_content w3"
proof -
  have "\<not> isl (mv w3 ''/docs'' ''/'' ''papers'')" and res: "resolve (d_tree w3) ''/docs'' = Some id_docs"
    and "\<not> isl (resolve_dir w3 ''/'')" and "projr (resolve_dir w3 ''/'') = ROOT"
    and na: "\<not> is_ancestor (d_tree w3) id_docs ROOT" and kind: "kind_of (d_tree w3) id_docs = Dir"
    by code_simp+
  then have mv: "mv w3 ''/docs'' ''/'' ''papers'' = Inr w7" and dir: "resolve_dir w3 ''/'' = Inr ROOT"
    by (simp_all add: w7_def sum.collapse(2)) (metis sum.collapse(2))
  have new: "placed (edges_of w7) id_docs [''papers'']"
    if "tree_edge (d_tree w7) id_docs = Some \<lparr>e_parent = ROOT, e_name = ''papers'', e_kind = Dir\<rparr>"
    using that by (subst placed_iff) (simp add: tree_edge_def)
  have "below (edges_of w3) id_file id_docs"
    by (rule r_into_rtrancl) (simp add: w3_edges fmlookup_of_list)
  then show ?thesis
    using mv_moves_subtree [OF demo_ok(4) _ mv res dir, of id_file "[''docs'']" "[''a.md'']" "[''papers'']"]
      na kind new w3_placed by simp
qed

section \<open>Deleting and restoring\<close>

text \<open>
  C11. After \<open>rm\<close> the node and everything below it is in the trash and has no path; nothing else
  moved and every content record is still there.
\<close>

theorem rm_hides_subtree:
  assumes "drive_ok d" and "room 1 d" and "rm d p = Inr d'" and "resolve (d_tree d) p = Some n"
  shows "fmdrop n (edges_of d') = fmdrop n (edges_of d) \<and> d_content d' = d_content d \<and>
    (is_ancestor (d_tree d) n m \<longrightarrow> is_trashed (d_tree d') m \<and> path_of d' m = None)"
proof -
  obtain e where e: "tree_edge (d_tree d) n = Some e"
    and E: "edges_of d' = fmupd n (e\<lparr>e_parent := TRASH\<rparr>) (edges_of d)" and ok': "drive_ok d'"
    and C: "d_content d' = d_content d"
    using rm_effect [OF assms(1-3)] assms(4) by (metis option.inject)
  have rf: "reserved_free (edges_of d')" by (rule drive_okD(3) [OF ok'])
  have "fmdrop n (fmupd n x F) = fmdrop n F" for x and F :: edge_map
    by (rule fmap_ext) auto
  moreover have "is_trashed (d_tree d') m \<and> path_of d' m = None" if "is_ancestor (d_tree d) n m"
  proof -
    have "below (edges_of d) m n"
      using that by (simp add: is_ancestor_iff)
    from subtree_detached [OF this, of "e\<lparr>e_parent := TRASH\<rparr>"] rf E
    have "below (edges_of d') m TRASH" and "\<not> below (edges_of d') m ROOT" by simp_all
    then show ?thesis
      using path_iff_below_root [OF reserved_freeD(1) [OF rf], of m]
      by (auto simp: is_trashed_def is_ancestor_iff path_of_def)
  qed
  ultimately show ?thesis using E C by simp
qed

theorem rm_hides_subtree_witness:
  "fmdrop id_docs (edges_of w4) = fmdrop id_docs (edges_of w3) \<and> d_content w4 = d_content w3 \<and>
    is_trashed (d_tree w4) id_file \<and> path_of w4 id_file = None"
proof -
  have "resolve (d_tree w3) ''/docs'' = Some id_docs" and "is_ancestor (d_tree w3) id_docs id_file"
    by code_simp+
  then show ?thesis
    using rm_hides_subtree [OF demo_ok(4) _ w4_step, of id_docs id_file] by simp
qed

text \<open>
  C12. Deleting a node and restoring it to its old directory under its own name gives back exactly the
  tree there was.
\<close>

theorem rm_restore_roundtrip:
  assumes "drive_ok d" and "room 2 d" and "rm d p = Inr d1" and "resolve (d_tree d) p = Some n"
    and "restore d1 n (Some pp) None = Inr d2" and "resolve_dir d1 pp = Inr (e_parent (the (tree_edge (d_tree d) n)))"
  shows "edges_of d2 = edges_of d \<and> d_content d2 = d_content d"
proof -
  have r1: "room 1 d" using assms(2) by (rule room_mono) simp
  obtain e where e: "tree_edge (d_tree d) n = Some e"
    and E: "edges_of d1 = fmupd n (e\<lparr>e_parent := TRASH\<rparr>) (edges_of d)" and ok1: "drive_ok d1"
    and C: "d_content d1 = d_content d" and "n \<noteq> ROOT"
    using rm_effect [OF assms(1) r1 assms(3)] assms(4) by (metis option.inject)
  have r1': "room 1 d1"
    using assms(2,3) room_push(1) [of 1 d] by (auto simp: rm_Inr numeral_2_eq_2)
  have nT: "n \<noteq> TRASH"
    using e reserved_freeD [OF drive_okD(3) [OF assms(1)]] by (auto simp: tree_edge_def)
  obtain parent e1 where par: "resolve_dir d1 pp = Inr parent" and e1: "tree_edge (d_tree d1) n = Some e1"
    and E2: "edges_of d2 = fmupd n (e1\<lparr>e_parent := parent, e_name := e_name e1\<rparr>) (edges_of d1)"
    and C2: "d_content d2 = d_content d1"
    by (rule restore_effect [OF ok1 r1' nT assms(5)]) (rule that, simp_all)
  have P: "parent = e_parent e"
    using par assms(6) by (simp add: e)
  have "e1 = e\<lparr>e_parent := TRASH\<rparr>"
    using e1 by (simp add: tree_edge_def E)
  then have "e1\<lparr>e_parent := parent, e_name := e_name e1\<rparr> = e"
    by (cases e) (simp add: P)
  then have "edges_of d2 = fmupd n e (edges_of d1)"
    using E2 by (simp only:)
  moreover have "fmupd n e (edges_of d) = edges_of d"
    using e by (simp add: tree_edge_def fmupd_triv)
  ultimately show ?thesis
    by (simp add: E C C2)
qed

theorem rm_restore_roundtrip_witness: "edges_of w5 = edges_of w3 \<and> d_content w5 = d_content w3"
proof (rule rm_restore_roundtrip [OF demo_ok(4) _ w4_step _ w5_step])
  show "resolve (d_tree w3) ''/docs'' = Some id_docs" by code_simp
  have "\<not> isl (resolve_dir w4 ''/'')" and "projr (resolve_dir w4 ''/'') = e_parent (the (tree_edge (d_tree w3) id_docs))"
    by code_simp+
  then show "resolve_dir w4 ''/'' = Inr (e_parent (the (tree_edge (d_tree w3) id_docs)))"
    by (cases "resolve_dir w4 ''/''") auto
qed simp





section \<open>Compaction\<close>

text \<open>Restricting the edges to what is below the root changes no node's place.\<close>

lemma placed_restrict:
  assumes F: "\<And>c. fmlookup F c = (if c \<noteq> ROOT \<and> below E c ROOT then fmlookup E c else None)"
    and root: "fmlookup E ROOT = None"
  shows "placed F c ns = placed E c ns"
proof
  assume "placed E c ns"
  then show "placed F c ns"
  proof (induction rule: placed.induct)
    case (placed_root c e)
    then show ?case
      using F [of c] root by (intro placed.placed_root) auto
  next
    case (placed_step c e ns)
    then have "placed E c (ns @ [e_name e])" by (intro placed.placed_step)
    then have "below E c ROOT" by (auto dest: placed_rtrancl intro: trancl_into_rtrancl)
    with placed_step root show ?case
      using F [of c] by (intro placed.placed_step) auto
  qed
next
  assume "placed F c ns"
  then show "placed E c ns"
  proof (induction rule: placed.induct)
    case (placed_root c e)
    then show ?case
      using F [of c] by (intro placed.placed_root) (auto split: if_splits)
  next
    case (placed_step c e ns)
    then show ?case
      using F [of c] by (intro placed.placed_step) (auto split: if_splits)
  qed
qed

text \<open>
  C8. Compaction always returns, and as long as the new log fits the clock the compacted drive is
  well-formed and has, for every node, the path it had and the edge it had if it is below the root;
  its log holds exactly one move per such node. (Every parent in the tree must be a directory.)
\<close>

theorem compact_keeps_tree:
  assumes "drive_ok d" and "parents_are_dirs (d_tree d)"
  shows "\<exists>d'. compact d = Some d' \<and> distinct (map op_child (moves_of d')) \<and>
    (op_count d' < 2 ^ 64 \<longrightarrow> drive_ok d' \<and> path_of d' = path_of d \<and>
      (\<forall>n. tree_edge (d_tree d') n =
         (if n \<noteq> ROOT \<and> is_ancestor (d_tree d) ROOT n then tree_edge (d_tree d) n else None)) \<and>
      op_child ` set (moves_of d') = {n. n \<noteq> ROOT \<and> is_ancestor (d_tree d) ROOT n})"
proof -
  obtain a where c: "compact d = Some (compacted d a)" and inv: "acc_inv d [] a"
    by (rule compact_returns [OF assms(1)])
  have paths: "path_of (compacted d a) = path_of d" if size: "acc_size a < 2 ^ 64"
  proof
    fix n
    let ?E = "edges_of d" and ?F = "edges_of (compacted d a)"
    have F: "fmlookup ?F c = (if c \<noteq> ROOT \<and> below ?E c ROOT then fmlookup ?E c else None)" for c
      by (rule compacted_edges [OF assms(1) inv size assms(2)])
    have root: "fmlookup ?E ROOT = None"
      by (rule reserved_freeD(1) [OF drive_okD(3) [OF assms(1)]])
    have "path_of (compacted d a) n = Some p \<longleftrightarrow> path_of d n = Some p" for p
      by (simp add: path_of_def path_eq_Some placed_restrict [OF F root] del: compacted_frame(5))
    then show "path_of (compacted d a) n = path_of d n"
      by (metis not_None_eq)
  qed
  have nodes: "op_child ` set (ca_moves a) = {n. n \<noteq> ROOT \<and> is_ancestor (d_tree d) ROOT n}"
    using emitted_nodes(1) [OF inv assms(1,2)] by (auto simp: is_ancestor_iff)
  show ?thesis
    using c compacted_ok(1) [OF assms(1) inv] emitted_nodes(2) [OF inv assms(1,2)] nodes paths
      compacted_edges [OF assms(1) inv _ assms(2)]
    by (simp add: tree_edge_def is_ancestor_iff del: compacted_frame(5))
qed


section \<open>The scenario compacted\<close>

lemma w3_dirs: "parents_are_dirs (d_tree w3)"
  by (auto simp: parents_are_dirs_def tree_edge_def w3_edges fmlookup_of_list is_dir_def split: if_splits)

definition w6 :: drive where "w6 = the (compact w3)"

lemma w6_step: "compact w3 = Some w6"
  using compact_returns [OF demo_ok(4)] by (metis option.sel w6_def)

lemma w6_count: "op_count w6 < 2 ^ 64"
proof -
  have "length (moves_of w6) = 2" and "length (contents_of w6) = 2"
    by code_simp+
  then show ?thesis by (simp add: op_count_def)
qed

theorem compact_keeps_tree_witness:
  "compact w3 = Some w6 \<and> drive_ok w6 \<and> path_of w6 = path_of w3 \<and>
   op_child ` set (moves_of w6) = {n. n \<noteq> ROOT \<and> is_ancestor (d_tree w3) ROOT n}"
  using compact_keeps_tree [OF demo_ok(4) w3_dirs] w6_step w6_count by simp


end
