(* ===== verification/Changes.thy ===== *)
theory Changes
  imports DriveProps
begin

text \<open>
  The change feed, \<open>crates/ce-drive-core/src/changes.rs\<close>: the two operation logs merged by timestamp
  and read from a cursor, a page at a time. The hash set of nodes already seen is the list of them.
\<close>

section \<open>Data\<close>

record cursor =
  cur_last :: "timestamp option"

definition cursor_beginning :: cursor where
  "cursor_beginning = \<lparr>cur_last = None\<rparr>"

definition cursor_at :: "timestamp \<Rightarrow> cursor" where
  "cursor_at ts = \<lparr>cur_last = Some ts\<rparr>"

definition admits :: "cursor \<Rightarrow> timestamp \<Rightarrow> bool" where
  "admits cur ts = (case cur_last cur of None \<Rightarrow> True | Some seen \<Rightarrow> seen < ts)"

datatype change_kind =
    Created bool
  | Moved
  | Trashed
  | ContentChanged string u64
  | ContentRemoved

record change =
  ch_ts :: timestamp
  ch_node :: node_id
  ch_kind :: change_kind
  ch_path :: "string option"
  ch_name :: "string option"

section \<open>The feed\<close>

definition move_kind :: "bool \<Rightarrow> move_op \<Rightarrow> change_kind" where
  "move_kind first op =
     (if op_new_parent op = TRASH then Trashed
      else if first then Created (op_kind op = Dir) else Moved)"

fun move_changes :: "cursor \<Rightarrow> node_id list \<Rightarrow> move_op list \<Rightarrow> change list" where
  "move_changes cur seen [] = []"
| "move_changes cur seen (op # ops) =
     (let first = (op_child op \<notin> set seen); seen' = List.insert (op_child op) seen in
      if \<not> admits cur (op_ts op) then move_changes cur seen' ops
      else \<lparr>ch_ts = op_ts op, ch_node = op_child op, ch_kind = move_kind first op, ch_path = None,
             ch_name = Some (op_new_name op)\<rparr> # move_changes cur seen' ops)"

fun content_kind :: "content_op \<Rightarrow> change_kind" where
  "content_kind (Set nid cid sz mode mtime) = ContentChanged cid sz"
| "content_kind (Restore nid cid now) = ContentChanged cid 0"
| "content_kind (Remove nid) = ContentRemoved"
| "content_kind (SetDoc nid doc) = ContentChanged [] 0"

definition content_change :: "stamped_op \<Rightarrow> change" where
  "content_change s =
     \<lparr>ch_ts = s_ts s, ch_node = op_target (s_op s), ch_kind = content_kind (s_op s), ch_path = None,
      ch_name = None\<rparr>"

definition content_changes :: "cursor \<Rightarrow> stamped_op list \<Rightarrow> change list" where
  "content_changes cur log = map content_change (filter (\<lambda>s. admits cur (s_ts s)) log)"

definition fill :: "drive_tree \<Rightarrow> change \<Rightarrow> change" where
  "fill t ch =
     ch\<lparr>ch_path := (if ch_path ch = None then path t (ch_node ch) else ch_path ch),
        ch_name := (if ch_name ch = None then map_option e_name (tree_edge t (ch_node ch)) else ch_name ch)\<rparr>"

definition page :: "nat \<Rightarrow> 'a list \<Rightarrow> 'a list" where
  "page limit xs = (if limit \<noteq> 0 \<and> length xs > limit then take limit xs else xs)"

definition feed_since ::
    "move_op list \<Rightarrow> stamped_op list \<Rightarrow> drive_tree \<Rightarrow> cursor \<Rightarrow> nat \<Rightarrow> change list \<times> cursor" where
  "feed_since moves contents t cur limit =
     (let merged = sort_key ch_ts (move_changes cur [] moves @ content_changes cur contents);
          out = map (fill t) (page limit merged) in
      (out, if out = [] then cur else cursor_at (ch_ts (last out))))"

definition changes_since :: "drive \<Rightarrow> cursor \<Rightarrow> nat \<Rightarrow> change list \<times> cursor" where
  "changes_since d cur limit = feed_since (moves_of d) (contents_of d) (d_tree d) cur limit"

definition max_ts :: "timestamp list \<Rightarrow> timestamp option" where
  "max_ts xs = (case xs of [] \<Rightarrow> None | y # ys \<Rightarrow> Some (fold max ys y))"

definition feed_head :: "move_op list \<Rightarrow> stamped_op list \<Rightarrow> cursor" where
  "feed_head moves contents =
     \<lparr>cur_last =
        (case (max_ts (map op_ts moves), max_ts (map s_ts contents)) of
           (Some a, Some b) \<Rightarrow> Some (max a b)
         | (Some a, None) \<Rightarrow> Some a
         | (None, Some b) \<Rightarrow> Some b
         | (None, None) \<Rightarrow> None)\<rparr>"

definition changes_head :: "drive \<Rightarrow> cursor" where
  "changes_head d = feed_head (moves_of d) (contents_of d)"

section \<open>The feed as one sorted history\<close>

lemma admits_simps [simp]: "admits cursor_beginning ts" "admits (cursor_at k) ts \<longleftrightarrow> k < ts"
  by (simp_all add: admits_def cursor_beginning_def cursor_at_def)

lemma move_changes_filter:
  "move_changes cur seen ops = filter (\<lambda>ch. admits cur (ch_ts ch)) (move_changes cursor_beginning seen ops)"
  by (induction ops arbitrary: seen) (simp_all add: Let_def)

lemma content_changes_filter:
  "content_changes cur log = filter (\<lambda>ch. admits cur (ch_ts ch)) (content_changes cursor_beginning log)"
  by (simp add: content_changes_def filter_map comp_def content_change_def)

definition history :: "move_op list \<Rightarrow> stamped_op list \<Rightarrow> change list" where
  "history moves contents =
     sort_key ch_ts (move_changes cursor_beginning [] moves @ content_changes cursor_beginning contents)"

lemma move_changes_ts: "map ch_ts (move_changes cursor_beginning seen ops) = map op_ts ops"
  by (induction ops arbitrary: seen) (simp_all add: Let_def)

lemma content_changes_ts: "map ch_ts (content_changes cursor_beginning log) = map s_ts log"
  by (simp add: content_changes_def content_change_def comp_def)

lemma feed_is_history:
  "sort_key ch_ts (move_changes cur [] moves @ content_changes cur contents)
     = filter (\<lambda>ch. admits cur (ch_ts ch)) (history moves contents)"
  by (subst move_changes_filter, subst content_changes_filter) (simp add: history_def filter_sort)

lemma history_ts:
  "mset (map ch_ts (history moves contents)) = mset (map op_ts moves @ map s_ts contents)"
proof -
  have "mset (map ch_ts (history moves contents))
      = mset (map ch_ts (move_changes cursor_beginning [] moves) @ map ch_ts (content_changes cursor_beginning contents))"
    by (simp add: history_def)
  then show ?thesis by (simp only: move_changes_ts content_changes_ts)
qed

lemma history_asc:
  "distinct (map op_ts moves @ map s_ts contents) \<Longrightarrow> asc_by ch_ts (history moves contents)"
proof -
  assume d: "distinct (map op_ts moves @ map s_ts contents)"
  have "distinct (map ch_ts (history moves contents))"
    using d history_ts [of moves contents] by (metis mset_eq_imp_distinct_iff)
  moreover have "sorted (map ch_ts (history moves contents))"
    by (simp add: history_def)
  ultimately have "sorted_wrt (<) (map ch_ts (history moves contents))"
    by (simp only: strict_sorted_iff)
  then show ?thesis by (simp add: sorted_wrt_map)
qed

text \<open>Cutting a strictly ascending list: what is later than the last element of a prefix is the rest.\<close>

lemma filter_after_prefix:
  assumes "asc_by f (xs @ ys)" and "xs \<noteq> []"
  shows "filter (\<lambda>y. f (last xs) < f y) (xs @ ys) = ys"
proof -
  have "filter (\<lambda>y. f (last xs) < f y) xs = []"
  proof (rule ccontr)
    assume "filter (\<lambda>y. f (last xs) < f y) xs \<noteq> []"
    then obtain y where y: "y \<in> set xs" "f (last xs) < f y"
      by (auto simp: filter_empty_conv)
    have "asc_by f (butlast xs @ [last xs])"
      using assms by (simp add: sorted_wrt_append)
    then have "y = last xs \<or> f y < f (last xs)"
      using y(1) assms(2) by (metis Un_iff append_butlast_last_id empty_iff insert_iff list.set(1,2) set_append sorted_wrt_append)
    with y(2) show False by auto
  qed
  moreover have "filter (\<lambda>y. f (last xs) < f y) ys = ys"
    using assms by (auto simp: sorted_wrt_append filter_id_conv)
  ultimately show ?thesis by simp
qed

lemma fill_ts [simp]: "ch_ts (fill t ch) = ch_ts ch"
  by (simp add: fill_def)

lemma feed_since_eq:
  "feed_since moves contents t cur limit =
     (let out = page limit (filter (\<lambda>ch. admits cur (ch_ts ch)) (history moves contents)) in
      (map (fill t) out, if out = [] then cur else cursor_at (ch_ts (last out))))"
  by (simp add: feed_since_def feed_is_history Let_def last_map)

lemma admits_trans: "admits cur ts \<Longrightarrow> ts < ts' \<Longrightarrow> admits cur ts'"
  by (auto simp: admits_def split: option.splits)

lemma feed_split:
  assumes "distinct (map op_ts moves @ map s_ts contents)" and "feed_since moves contents t cur limit = (out, next)"
  shows "fst (feed_since moves contents t cur 0) = out @ fst (feed_since moves contents t next 0)"
proof -
  let ?H = "history moves contents" and ?F = "filter (\<lambda>ch. admits cur (ch_ts ch)) (history moves contents)"
  have "\<exists>ys. ?F = page limit ?F @ ys"
    by (simp add: page_def) (metis append_take_drop_id)
  then obtain ys where ys: "?F = page limit ?F @ ys" ..
  have asc: "asc_by ch_ts ?F"
    by (simp add: history_asc [OF assms(1)] sorted_wrt_filter)
  show ?thesis
  proof (cases "page limit ?F = []")
    case True
    then show ?thesis
      using assms(2) by (auto simp: feed_since_eq Let_def)
  next
    case False
    let ?k = "ch_ts (last (page limit ?F))"
    have "last (page limit ?F) \<in> set ?F"
      using last_in_set [OF False] arg_cong [OF ys, of set] by (simp only: set_append) blast
    then have adm: "admits cur ?k" by simp
    have "filter (\<lambda>ch. admits (cursor_at ?k) (ch_ts ch)) ?H = filter (\<lambda>ch. ?k < ch_ts ch) ?F"
      unfolding filter_filter admits_simps
      by (rule filter_cong [OF refl]) (use admits_trans [OF adm] in blast)
    also have "\<dots> = ys"
      using filter_after_prefix [OF _ False, of ch_ts ys] asc unfolding ys [symmetric] by simp
    finally have rest: "filter (\<lambda>ch. admits (cursor_at ?k) (ch_ts ch)) ?H = ys" .
    have "map (fill t) ?F = map (fill t) (page limit ?F) @ map (fill t) ys"
      by (subst ys) simp
    then show ?thesis
      using assms(2) False rest by (auto simp: feed_since_eq Let_def page_def [of 0])
  qed
qed

section \<open>The head of the feed\<close>

lemma fold_max_ge: "x \<in> insert y (set ys) \<Longrightarrow> x \<le> fold max ys (y :: timestamp)"
proof (induction ys arbitrary: x y)
  case (Cons a ys)
  have "max a y \<le> fold max ys (max a y)"
    by (rule Cons.IH) simp
  then have "a \<le> fold max ys (max a y)" and "y \<le> fold max ys (max a y)"
    by simp_all
  with Cons.IH [of x "max a y"] Cons.prems show ?case by auto
qed simp

lemma max_ts_None [simp]: "max_ts xs = None \<longleftrightarrow> xs = []"
  by (cases xs) (simp_all add: max_ts_def)

lemma max_ts_ge: "max_ts xs = Some m \<Longrightarrow> x \<in> set xs \<Longrightarrow> x \<le> m"
  by (cases xs) (auto simp: max_ts_def fold_max_ge)

lemma head_admits_none:
  assumes "x \<in> set (map op_ts moves @ map s_ts contents)"
  shows "\<not> admits (feed_head moves contents) x"
proof (cases "max_ts (map op_ts moves)")
  case None
  then have "moves = []" by simp
  with assms show ?thesis
    using max_ts_ge [of "map s_ts contents" _ x]
    by (cases "max_ts (map s_ts contents)") (auto simp: feed_head_def admits_def max_ts_def [of "[]"])
next
  case (Some a)
  then show ?thesis
    using assms max_ts_ge [of "map op_ts moves" a x] max_ts_ge [of "map s_ts contents" _ x]
    by (cases "max_ts (map s_ts contents)")
      (auto simp: feed_head_def admits_def not_less le_max_iff_disj max_ts_def [of "[]"])
qed

section \<open>Properties\<close>

text \<open>A client that polls a page at a time, for at most so many polls.\<close>

fun poll_pages :: "nat \<Rightarrow> drive \<Rightarrow> cursor \<Rightarrow> nat \<Rightarrow> change list" where
  "poll_pages 0 d cur limit = []"
| "poll_pages (Suc k) d cur limit =
     (case changes_since d cur limit of
        (out, next) \<Rightarrow> if out = [] then [] else out @ poll_pages k d next limit)"


text \<open>
  C20. Paging loses and repeats nothing: as long as no two operations share a timestamp, polling pages
  of any positive size, each from the cursor the last one returned, gives exactly the unbounded feed.
\<close>

theorem pages_give_the_feed:
  assumes "distinct (map op_ts (moves_of d) @ map s_ts (contents_of d))" and "limit \<noteq> 0"
    and "length (fst (changes_since d cur 0)) \<le> polls"
  shows "poll_pages polls d cur limit = fst (changes_since d cur 0)"
  using assms(3)
proof (induction polls arbitrary: cur)
  case (Suc k)
  obtain out cur' where page: "changes_since d cur limit = (out, cur')"
    by (cases "changes_since d cur limit")
  then have split: "fst (changes_since d cur 0) = out @ fst (changes_since d cur' 0)"
    using feed_split [OF assms(1)] by (simp add: changes_since_def)
  show ?case
  proof (cases "out = []")
    case True
    with page assms(2) have "fst (changes_since d cur 0) = []"
      by (auto simp: changes_since_def feed_since_eq Let_def page_def split: if_splits)
    with page True show ?thesis by simp
  next
    case False
    then have "length (fst (changes_since d cur' 0)) \<le> k"
      using Suc.prems split by (cases out) auto
    from Suc.IH [OF this] page False split show ?thesis by simp
  qed
qed simp

theorem pages_give_the_feed_witness:
  "poll_pages 4 w3 cursor_beginning 1 = fst (changes_since w3 cursor_beginning 0)"
proof (rule pages_give_the_feed)
  show "distinct (map op_ts (moves_of w3) @ map s_ts (contents_of w3))"
    by code_simp
  have "length (fst (changes_since w3 cursor_beginning 0)) = 4"
    by code_simp
  then show "length (fst (changes_since w3 cursor_beginning 0)) \<le> 4" by simp
qed simp

end
