(* ===== verification/Share.thy ===== *)
theory Share
  imports DriveOpsProps
begin

text \<open>
  Sharing, \<open>crates/ce-drive-core/src/share.rs\<close>: the abilities of a grant, minting grants and share links,
  and the authorization of a path. The capability chains are the \<open>ce-cap\<close> package: \<open>issue\<close> (with the
  device's identity in it), \<open>encode_chain\<close>, \<open>authorize\<close> and the \<open>path_prefix\<close> caveat of a capability are
  parameters here, and so is the hexadecimal decoder of the \<open>hex\<close> package.
\<close>

section \<open>Abilities\<close>

datatype ability = Read | Comment | Write | Admin

fun ability_str :: "ability \<Rightarrow> string" where
  "ability_str Read = ''drive:read''"
| "ability_str Comment = ''drive:comment''"
| "ability_str Write = ''drive:write''"
| "ability_str Admin = ''drive:admin''"

fun implied :: "ability \<Rightarrow> string list" where
  "implied Read = [''drive:read'']"
| "implied Comment = [''drive:read'', ''drive:comment'']"
| "implied Write = [''drive:read'', ''drive:comment'', ''drive:write'']"
| "implied Admin = [''drive:read'', ''drive:comment'', ''drive:write'', ''drive:admin'']"

definition ability_parse :: "string \<Rightarrow> ability option" where
  "ability_parse s =
     (if s = ''drive:read'' \<or> s = ''read'' then Some Read
      else if s = ''drive:comment'' \<or> s = ''comment'' then Some Comment
      else if s = ''drive:write'' \<or> s = ''write'' then Some Write
      else if s = ''drive:admin'' \<or> s = ''admin'' then Some Admin
      else None)"

section \<open>Scopes\<close>

definition normalize_scope :: "string \<Rightarrow> string" where
  "normalize_scope scope =
     (let trimmed = trim_matches (CHR ''/'') (trim scope) in
      if trimmed = [] then ''/'' else ''/'' @ trimmed)"

datatype share_error =
    BadNodeId
  | Denied string
  | BackslashInPath
  | ControlInPath
  | DotInPath
  | OutsideScope string string

definition path_prefix_ok :: "string \<Rightarrow> string \<Rightarrow> bool" where
  "path_prefix_ok pfx norm \<longleftrightarrow> pfx = ''/'' \<or> norm = pfx \<or> starts_with norm (pfx @ ''/'')"

text \<open>\<open>caveat\<close> reads the \<open>path_prefix\<close> caveat of a capability; the leaf of the chain is its last link.\<close>

definition enforce_path_scope :: "('cap \<Rightarrow> string option) \<Rightarrow> string \<Rightarrow> 'cap list \<Rightarrow> share_error + unit" where
  "enforce_path_scope caveat p chain =
     (if CHR 0x5C \<in> set p then Inl BackslashInPath
      else if list_ex (\<lambda>c. (of_char c :: nat) < 32) p then Inl ControlInPath
      else if list_ex (\<lambda>x. x = ''..'' \<or> x = ''.'') (split_on (CHR ''/'') p) then Inl DotInPath
      else
        (case (if chain = [] then None else caveat (last chain)) of
           None \<Rightarrow> Inr ()
         | Some prefix \<Rightarrow>
             (let norm = normalize_scope p; pfx = normalize_scope prefix in
              if path_prefix_ok pfx norm then Inr () else Inl (OutsideScope norm pfx))))"

section \<open>Grants\<close>

type_synonym id_bytes = "8 word list"

definition parse_node_id :: "(string \<Rightarrow> id_bytes option) \<Rightarrow> string \<Rightarrow> share_error + id_bytes" where
  "parse_node_id hex_decode s =
     (case hex_decode (trim s) of
        Some bytes \<Rightarrow> if length bytes = 32 then Inr bytes else Inl BadNodeId
      | None \<Rightarrow> Inl BadNodeId)"

record grant =
  gr_token :: string
  gr_scope :: string
  gr_ability :: ability
  gr_audience :: string
  gr_expires :: u64
  gr_revoke_nonce :: u64

text \<open>The fields of the caveats the code sets: \<open>not_after\<close> and \<open>path_prefix\<close>.\<close>

record caveats =
  cv_not_after :: u64
  cv_path_prefix :: "string option"

definition grant_to ::
    "(string \<Rightarrow> id_bytes option) \<Rightarrow> (id_bytes \<Rightarrow> string list \<Rightarrow> caveats \<Rightarrow> u64 \<Rightarrow> 'cap) \<Rightarrow> ('cap list \<Rightarrow> string) \<Rightarrow>
     string \<Rightarrow> ability \<Rightarrow> string \<Rightarrow> u64 \<Rightarrow> u64 \<Rightarrow> share_error + grant" where
  "grant_to hex_decode issue encode_chain audience_hex a scope expires nonce =
     res_bind (parse_node_id hex_decode audience_hex) (\<lambda>audience.
       let cav = \<lparr>cv_not_after = expires, cv_path_prefix = Some (normalize_scope scope)\<rparr>;
           cap = issue audience (implied a) cav nonce in
       Inr \<lparr>gr_token = encode_chain [cap], gr_scope = normalize_scope scope, gr_ability = a,
            gr_audience = audience_hex, gr_expires = expires, gr_revoke_nonce = nonce\<rparr>)"

definition link_ability :: "ability \<Rightarrow> ability" where
  "link_ability a = (case a of Write \<Rightarrow> Read | Admin \<Rightarrow> Read | _ \<Rightarrow> a)"

definition share_link ::
    "(string \<Rightarrow> id_bytes option) \<Rightarrow> (id_bytes \<Rightarrow> string list \<Rightarrow> caveats \<Rightarrow> u64 \<Rightarrow> 'cap) \<Rightarrow> ('cap list \<Rightarrow> string) \<Rightarrow>
     string \<Rightarrow> ability \<Rightarrow> string \<Rightarrow> u64 \<Rightarrow> u64 \<Rightarrow> share_error + grant" where
  "share_link hex_decode issue encode_chain holder_hex a scope expires nonce =
     grant_to hex_decode issue encode_chain holder_hex (link_ability a) scope expires nonce"

record workspace =
  ws_self :: id_bytes
  ws_roots :: "id_bytes list"

definition workspace_new :: "id_bytes \<Rightarrow> workspace" where
  "workspace_new self = \<lparr>ws_self = self, ws_roots = []\<rparr>"

definition with_root :: "workspace \<Rightarrow> id_bytes \<Rightarrow> workspace" where
  "with_root ws root = ws\<lparr>ws_roots := ws_roots ws @ [root]\<rparr>"

text \<open>
  \<open>authorize\<close> takes this device's id, the accepted roots, the time, the requester, the action, the
  chain and the revocation test.
\<close>

definition authorize_path ::
    "(string \<Rightarrow> id_bytes option) \<Rightarrow>
     (id_bytes \<Rightarrow> id_bytes list \<Rightarrow> u64 \<Rightarrow> id_bytes \<Rightarrow> string \<Rightarrow> 'cap list \<Rightarrow> (id_bytes \<Rightarrow> u64 \<Rightarrow> bool) \<Rightarrow> string + unit) \<Rightarrow>
     ('cap \<Rightarrow> string option) \<Rightarrow> workspace \<Rightarrow> string \<Rightarrow> string \<Rightarrow> string \<Rightarrow> 'cap list \<Rightarrow> u64 \<Rightarrow>
     (id_bytes \<times> u64) set \<Rightarrow> share_error + unit" where
  "authorize_path hex_decode authorize caveat ws requester_hex action p chain now revoked =
     res_bind (parse_node_id hex_decode requester_hex) (\<lambda>requester.
       case authorize (ws_self ws) (ws_roots ws) now requester action chain (\<lambda>issuer nonce. (issuer, nonce) \<in> revoked) of
         Inl e \<Rightarrow> Inl (Denied e)
       | Inr _ \<Rightarrow> enforce_path_scope caveat p chain)"

section \<open>Lemmas\<close>

lemma enforce_Inr:
  "enforce_path_scope caveat p chain = Inr u \<longleftrightarrow>
     CHR 0x5C \<notin> set p \<and> \<not> list_ex (\<lambda>c. (of_char c :: nat) < 32) p \<and>
     \<not> list_ex (\<lambda>x. x = ''..'' \<or> x = ''.'') (split_on (CHR ''/'') p) \<and>
     (chain \<noteq> [] \<longrightarrow> (\<forall>pfx. caveat (last chain) = Some pfx \<longrightarrow>
        path_prefix_ok (normalize_scope pfx) (normalize_scope p)))"
  by (auto simp: enforce_path_scope_def Let_def split: option.splits if_splits)

lemma case_Inr: "(case x of Inl e \<Rightarrow> Inl (f e) | Inr (_ :: unit) \<Rightarrow> r) = Inr u \<Longrightarrow> r = Inr u"
  by (cases x) simp_all

text \<open>Resolution of a path inside a scope passes through what the scope resolves to.\<close>

lemma scope_confines_resolve:
  assumes ix: "index_ok t" and "path_prefix_ok (normalize_scope pfx) (normalize_scope p)"
    and "trim pfx = pfx" and "trim p = p" and res: "resolve t p = Some n"
  shows "\<exists>s. resolve t pfx = Some s \<and> is_ancestor t s n"
proof -
  let ?tp = "trim_matches (CHR ''/'') pfx" and ?tn = "trim_matches (CHR ''/'') p"
  have below_root: "below (t_edges t) n ROOT"
    using res resolve_from_below [OF ix] by (auto simp: resolve_def Let_def split: if_splits)
  show ?thesis
  proof (cases "?tp = []")
    case True
    with below_root show ?thesis
      by (simp add: resolve_def is_ancestor_iff)
  next
    case False
    then have pfx: "normalize_scope pfx = CHR ''/'' # ?tp"
      by (simp add: normalize_scope_def assms(3))
    have p: "normalize_scope p = (if ?tn = [] then ''/'' else CHR ''/'' # ?tn)"
      by (simp add: normalize_scope_def assms(4))
    from assms(2) False consider "?tn = ?tp" | rest where "?tn = ?tp @ CHR ''/'' # rest"
      by (auto simp: path_prefix_ok_def pfx p starts_with_iff split: if_splits)
    then show ?thesis
    proof cases
      case 1
      then have "resolve t p = resolve t pfx" by (simp add: resolve_def)
      with res show ?thesis by (auto simp: is_ancestor_iff)
    next
      case (2 rest)
      then have "resolve_from t ROOT (split_on (CHR ''/'') ?tp @ split_on (CHR ''/'') rest) = Some n"
        using res by (simp add: resolve_def split_on_append)
      then obtain s where "resolve_from t ROOT (split_on (CHR ''/'') ?tp) = Some s"
        and "resolve_from t s (split_on (CHR ''/'') rest) = Some n"
        by (auto simp: resolve_from_append bind_eq_Some_conv)
      with False resolve_from_below [OF ix] show ?thesis
        by (auto simp: resolve_def is_ancestor_iff)
    qed
  qed
qed

section \<open>Properties\<close>

text \<open>
  C14. Authorization confines to the granted subtree: if a path is authorized by a chain whose leaf is
  scoped, and neither the path nor the scope has surrounding white space, then on any drive the node
  the path resolves to is the scope's node or below it, and the path has no dot component.
\<close>

theorem authorized_path_in_scope:
  assumes "authorize_path hex_decode auth caveat ws requester action p chain now revoked = Inr ()"
    and "drive_ok d" and "chain \<noteq> []" and "caveat (last chain) = Some pfx" and "trim pfx = pfx" and "trim p = p"
    and "resolve (d_tree d) p = Some n"
  shows "(\<exists>s. resolve (d_tree d) pfx = Some s \<and> is_ancestor (d_tree d) s n) \<and>
    ''..'' \<notin> set (split_on (CHR ''/'') p) \<and> ''.'' \<notin> set (split_on (CHR ''/'') p)"
proof -
  have "enforce_path_scope caveat p chain = Inr ()"
    using assms(1) by (auto simp: authorize_path_def dest: case_Inr)
  then have ok: "path_prefix_ok (normalize_scope pfx) (normalize_scope p)"
    and dots: "\<not> list_ex (\<lambda>x. x = ''..'' \<or> x = ''.'') (split_on (CHR ''/'') p)"
    using assms(3,4) by (simp_all add: enforce_Inr)
  from scope_confines_resolve [OF drive_okD(2) [OF assms(2)] ok assms(5-7)] dots show ?thesis
    by (auto simp: list_ex_iff)
qed

text \<open>A capability is its caveat alone, and every chain is accepted.\<close>

definition demo_hex :: "string \<Rightarrow> id_bytes option" where
  "demo_hex s = Some (replicate 32 0)"

theorem authorized_path_in_scope_witness:
  "(\<exists>s. resolve (d_tree w3) ''/docs'' = Some s \<and> is_ancestor (d_tree w3) s id_file) \<and>
    ''..'' \<notin> set (split_on (CHR ''/'') ''/docs/a.md'') \<and> ''.'' \<notin> set (split_on (CHR ''/'') ''/docs/a.md'')"
proof (rule authorized_path_in_scope [OF _ demo_ok(4)])
  let ?chain = "[Some ''/docs'']"
  show "authorize_path demo_hex (\<lambda>_ _ _ _ _ _ _. Inr ()) (\<lambda>cap. cap) (workspace_new []) ''aa'' ''drive:read''
      ''/docs/a.md'' ?chain 0 {} = Inr ()"
    by code_simp
  show "?chain \<noteq> []" and "last ?chain = Some ''/docs''" by simp_all
  show "trim ''/docs'' = ''/docs''" and "trim ''/docs/a.md'' = ''/docs/a.md''"
    by code_simp+
  show "resolve (d_tree w3) ''/docs/a.md'' = Some id_file" by code_simp
qed



text \<open>
  C33. Ability names round-trip, and the abilities are a chain: each implies itself and everything a
  lower one implies, so a grant of a lower ability is an attenuation of a higher one.
\<close>

fun ability_rank :: "ability \<Rightarrow> nat" where
  "ability_rank Read = 1" | "ability_rank Comment = 2" | "ability_rank Write = 3" | "ability_rank Admin = 4"

theorem abilities_are_a_chain:
  "ability_parse (ability_str a) = Some a \<and> ability_str a \<in> set (implied a) \<and>
   (set (implied a) \<subseteq> set (implied b)) = (ability_rank a \<le> ability_rank b)"
  by (cases a; cases b) (simp_all add: ability_parse_def)

section \<open>White space in scopes\<close>

definition w8 :: drive where "w8 = snd (projr (mkdir w3 7 ''/'' ''docs ''))"

text \<open>
  Without the white-space condition confinement fails: \<open>normalize_scope\<close> trims its argument, but
  names may end in a space and resolution does not trim. With a second directory named \<open>docs\<close> and a
  space, a chain scoped to \<open>/docs\<close> is accepted for that other directory, which is not below it.
\<close>

theorem scope_ignores_trailing_space:
  "enforce_path_scope (\<lambda>cap. cap) ''/docs '' [Some ''/docs''] = Inr () \<and>
   (case (resolve (d_tree w8) ''/docs '', resolve (d_tree w8) ''/docs'') of
      (Some n, Some s) \<Rightarrow> n \<noteq> s \<and> \<not> is_ancestor (d_tree w8) s n | _ \<Rightarrow> False)"
  by code_simp

end
