(* ===== verification/Sync.thy ===== *)
theory Sync
  imports DriveOpsProps
begin

text \<open>
  Multi-writer sync, \<open>crates/ce-drive-core/src/sync.rs\<close>. The replicated logs are the \<open>ce-coord\<close> package:
  what \<open>Merged\<close> holds at a call, the union of all writers' operations, is an argument (\<open>moves\<close>,
  \<open>contents\<close>), documented to be ordered by key without repetitions, and \<open>net\<close> says whether a proposal
  is refused. The device's own state is its clock; \<open>sy_sent\<close> records the accepted proposals.
\<close>

section \<open>The merge machines\<close>

definition tree_merge_apply :: "drive_tree \<Rightarrow> move_op \<Rightarrow> drive_tree" where
  "tree_merge_apply t op = tree_apply t op"

definition content_merge_apply :: "content_map \<Rightarrow> stamped_op \<Rightarrow> content_map" where
  "content_merge_apply m s = content_apply m (s_op s)"

definition tree_merge_key :: "move_op \<Rightarrow> timestamp" where
  "tree_merge_key op = op_ts op"

definition content_merge_key :: "stamped_op \<Rightarrow> timestamp" where
  "content_merge_key s = s_ts s"

text \<open>What a read of the merged collection shows: the fold of the union from the default.\<close>

definition merged_tree :: "move_op list \<Rightarrow> drive_tree" where
  "merged_tree moves = fold (\<lambda>op t. tree_merge_apply t op) moves tree_new"

definition merged_content :: "stamped_op list \<Rightarrow> content_map" where
  "merged_content contents = fold (\<lambda>s m. content_merge_apply m s) contents fmempty"

section \<open>The handle\<close>

datatype proposal = ProposeMove move_op | ProposeContent stamped_op

datatype sync_error = Rejected drive_error | Network string

record synced =
  sy_name :: string
  sy_replica :: string
  sy_lamport :: u64
  sy_sent :: "proposal list"

type_synonym network = "proposal \<Rightarrow> string option"

definition sync_open :: "string \<Rightarrow> string \<Rightarrow> synced" where
  "sync_open name node_id = \<lparr>sy_name = name, sy_replica = node_id, sy_lamport = 0, sy_sent = []\<rparr>"

definition sync_tick :: "synced \<Rightarrow> synced \<times> timestamp" where
  "sync_tick s = (let l = sy_lamport s + 1 in (s\<lparr>sy_lamport := l\<rparr>, Timestamp l (sy_replica s)))"

definition observe :: "synced \<Rightarrow> timestamp \<Rightarrow> synced" where
  "observe s ts = s\<lparr>sy_lamport := max (sy_lamport s) (lamport ts)\<rparr>"

text \<open>\<open>with_tree\<close> advances the clock past the merged tree's log, then reads.\<close>

definition with_tree :: "synced \<Rightarrow> move_op list \<Rightarrow> synced \<times> drive_tree" where
  "with_tree s moves =
     (let t = merged_tree moves in
      (case log_max_ts t of Some ts \<Rightarrow> observe s ts | None \<Rightarrow> s, t))"

definition propose :: "network \<Rightarrow> synced \<Rightarrow> proposal \<Rightarrow> synced \<times> (sync_error + unit)" where
  "propose net s p =
     (case net p of
        None \<Rightarrow> (s\<lparr>sy_sent := sy_sent s @ [p]\<rparr>, Inr ())
      | Some e \<Rightarrow> (s, Inl (Network e)))"

definition propose_content :: "network \<Rightarrow> synced \<Rightarrow> content_op \<Rightarrow> synced \<times> (sync_error + unit)" where
  "propose_content net s op =
     (let (s1, ts) = sync_tick s in propose net s1 (ProposeContent \<lparr>s_ts = ts, s_op = op\<rparr>))"

definition propose_move ::
    "network \<Rightarrow> synced \<Rightarrow> timestamp \<Rightarrow> node_id \<Rightarrow> node_id \<Rightarrow> string \<Rightarrow> node_kind \<Rightarrow> synced \<times> (sync_error + unit)" where
  "propose_move net s ts child parent name kind =
     propose net s (ProposeMove \<lparr>op_ts = ts, op_child = child, op_new_parent = parent, op_new_name = name,
       op_kind = kind\<rparr>)"

definition fresh_sync_id :: "timestamp \<Rightarrow> u64 \<Rightarrow> node_id" where
  "fresh_sync_id ts ctr =
     hex_padded 12 (lamport ts) @ ''-'' @ take_chars 8 (replica ts) @ ''-'' @ hex_padded 8 ctr"

definition sync_resolve_dir :: "drive_tree \<Rightarrow> string \<Rightarrow> node_id result" where
  "sync_resolve_dir t p =
     res_bind (ok_or (NoSuchDirectory p) (resolve t p)) (\<lambda>n.
       if n \<noteq> ROOT \<and> map_option e_kind (tree_edge t n) \<noteq> Some Dir then Inl (NotADirectory p) else Inr n)"

definition sync_child_named :: "drive_tree \<Rightarrow> node_id \<Rightarrow> string \<Rightarrow> node_id option" where
  "sync_child_named t parent name =
     map_option snd (find (\<lambda>(n, i). n = name \<and> \<not> is_trashed t i) (raw_children t parent))"

section \<open>The two collections\<close>

text \<open>
  The calls on the collections themselves, which are states of \<open>ce-coord\<close> (\<open>'t\<close> and \<open>'c\<close>): each does the same
  call on the tree's and then on the content's, and stops at the first error, with the first one done.
\<close>

definition sync_open_logs ::
    "(string \<Rightarrow> string \<Rightarrow> string list \<Rightarrow> string + 't) \<Rightarrow> (string \<Rightarrow> string \<Rightarrow> string list \<Rightarrow> string + 'c) \<Rightarrow>
     string \<Rightarrow> string \<Rightarrow> string list \<Rightarrow> sync_error + synced \<times> 't \<times> 'c" where
  "sync_open_logs open_tree open_content name node_id peers =
     (case open_tree (''drive-'' @ name @ ''-tree'') node_id peers of
        Inl e \<Rightarrow> Inl (Network e)
      | Inr t \<Rightarrow>
          (case open_content (''drive-'' @ name @ ''-content'') node_id peers of
             Inl e \<Rightarrow> Inl (Network e)
           | Inr c \<Rightarrow> Inr (sync_open name node_id, t, c)))"

definition sync_both ::
    "('t \<Rightarrow> 't \<times> (string + 'a)) \<Rightarrow> ('c \<Rightarrow> 'c \<times> (string + 'b)) \<Rightarrow> 't \<times> 'c \<Rightarrow> ('t \<times> 'c) \<times> (sync_error + 'a \<times> 'b)" where
  "sync_both on_tree on_content tc =
     (case tc of (t, c) \<Rightarrow>
      (case on_tree t of
         (t1, Inl e) \<Rightarrow> ((t1, c), Inl (Network e))
       | (t1, Inr a) \<Rightarrow>
           (case on_content c of
              (c1, Inl e) \<Rightarrow> ((t1, c1), Inl (Network e))
            | (c1, Inr b) \<Rightarrow> ((t1, c1), Inr (a, b)))))"

definition sync_add_writer ::
    "(string \<Rightarrow> 't \<Rightarrow> 't \<times> (string + unit)) \<Rightarrow> (string \<Rightarrow> 'c \<Rightarrow> 'c \<times> (string + unit)) \<Rightarrow> string \<Rightarrow> 't \<times> 'c \<Rightarrow>
     ('t \<times> 'c) \<times> (sync_error + unit)" where
  "sync_add_writer add_tree add_content peer tc =
     apsnd (map_sum id (\<lambda>_. ())) (sync_both (add_tree peer) (add_content peer) tc)"

definition sync_refresh :: "('t \<Rightarrow> 't) \<Rightarrow> ('c \<Rightarrow> 'c) \<Rightarrow> 't \<times> 'c \<Rightarrow> 't \<times> 'c" where
  "sync_refresh pull_tree pull_content tc = (pull_tree (fst tc), pull_content (snd tc))"

definition sync_checkpoint ::
    "('t \<Rightarrow> 't \<times> (string + 'p)) \<Rightarrow> ('c \<Rightarrow> 'c \<times> (string + 'p)) \<Rightarrow> 't \<times> 'c \<Rightarrow> ('t \<times> 'c) \<times> (sync_error + 'p \<times> 'p)" where
  "sync_checkpoint checkpoint_tree checkpoint_content tc = sync_both checkpoint_tree checkpoint_content tc"

section \<open>Operations\<close>

definition sync_mkdir ::
    "network \<Rightarrow> move_op list \<Rightarrow> synced \<Rightarrow> u64 \<Rightarrow> string \<Rightarrow> string \<Rightarrow> synced \<times> (sync_error + node_id)" where
  "sync_mkdir net moves s ctr parent_path name =
     (let (s1, t) = with_tree s moves in
      (case sync_resolve_dir t parent_path of
         Inl e \<Rightarrow> (s1, Inl (Rejected e))
       | Inr parent \<Rightarrow>
           (let (s2, ts) = sync_tick s1; i = fresh_sync_id ts ctr in
            (case propose_move net s2 ts i parent name Dir of
               (s3, Inl e) \<Rightarrow> (s3, Inl e)
             | (s3, Inr _) \<Rightarrow> (s3, Inr i)))))"

definition sync_add_file ::
    "network \<Rightarrow> move_op list \<Rightarrow> synced \<Rightarrow> u64 \<Rightarrow> string \<Rightarrow> string \<Rightarrow> file_content \<Rightarrow> synced \<times> (sync_error + node_id)" where
  "sync_add_file net moves s ctr parent_path name content =
     (let (s1, t) = with_tree s moves in
      (case sync_resolve_dir t parent_path of
         Inl e \<Rightarrow> (s1, Inl (Rejected e))
       | Inr parent \<Rightarrow>
           (case sync_child_named t parent name of
              Some existing \<Rightarrow>
                (case propose_content net s1 (set_op existing content) of
                   (s2, Inl e) \<Rightarrow> (s2, Inl e)
                 | (s2, Inr _) \<Rightarrow> (s2, Inr existing))
            | None \<Rightarrow>
                (let (s2, ts) = sync_tick s1; i = fresh_sync_id ts ctr in
                 (case propose_move net s2 ts i parent name File of
                    (s3, Inl e) \<Rightarrow> (s3, Inl e)
                  | (s3, Inr _) \<Rightarrow>
                      (case propose_content net s3 (set_op i content) of
                         (s4, Inl e) \<Rightarrow> (s4, Inl e)
                       | (s4, Inr _) \<Rightarrow> (s4, Inr i)))))))"

definition sync_mv ::
    "network \<Rightarrow> move_op list \<Rightarrow> synced \<Rightarrow> string \<Rightarrow> string \<Rightarrow> string \<Rightarrow> synced \<times> (sync_error + unit)" where
  "sync_mv net moves s src_path dst_parent_path dst_name =
     (let (s1, t) = with_tree s moves in
      (case resolve t src_path of
         None \<Rightarrow> (s1, Inl (Rejected (NoSuchPath src_path)))
       | Some node \<Rightarrow>
           if node = ROOT then (s1, Inl (Rejected CannotMoveRoot))
           else
             (case sync_resolve_dir t dst_parent_path of
                Inl e \<Rightarrow> (s1, Inl (Rejected e))
              | Inr dst_parent \<Rightarrow>
                  (let (s2, ts) = sync_tick s1 in
                   propose_move net s2 ts node dst_parent dst_name (kind_of t node)))))"

definition sync_rm ::
    "network \<Rightarrow> move_op list \<Rightarrow> synced \<Rightarrow> string \<Rightarrow> synced \<times> (sync_error + unit)" where
  "sync_rm net moves s p =
     (let (s1, t) = with_tree s moves in
      (case resolve t p of
         None \<Rightarrow> (s1, Inl (Rejected (NoSuchPath p)))
       | Some node \<Rightarrow>
           if node = ROOT then (s1, Inl (Rejected CannotDeleteRoot))
           else
             (let (s2, ts) = sync_tick s1 in
              propose_move net s2 ts node TRASH (edge_name t node) (kind_of t node))))"

definition sync_set_content :: "network \<Rightarrow> synced \<Rightarrow> node_id \<Rightarrow> file_content \<Rightarrow> synced \<times> (sync_error + unit)" where
  "sync_set_content net s i content = propose_content net s (set_op i content)"

definition sync_ls ::
    "move_op list \<Rightarrow> stamped_op list \<Rightarrow> synced \<Rightarrow> string \<Rightarrow> synced \<times> dir_entry list result" where
  "sync_ls moves contents s p =
     (let content = merged_content contents; (s1, t) = with_tree s moves in
      (s1, res_bind (sync_resolve_dir t p) (\<lambda>dir.
         Inr (map (\<lambda>(name, i, kind). \<lparr>de_name = name, de_node_id = i, de_is_dir = (kind = Dir),
                     de_content = content_get content i\<rparr>) (readdir t dir)))))"

definition sync_content_of :: "stamped_op list \<Rightarrow> node_id \<Rightarrow> file_content option" where
  "sync_content_of contents i = content_get (merged_content contents) i"

definition sync_path_of :: "synced \<Rightarrow> move_op list \<Rightarrow> node_id \<Rightarrow> synced \<times> string option" where
  "sync_path_of s moves i = (let (s1, t) = with_tree s moves in (s1, path t i))"

definition sync_resolve :: "synced \<Rightarrow> move_op list \<Rightarrow> string \<Rightarrow> synced \<times> node_id option" where
  "sync_resolve s moves p = (let (s1, t) = with_tree s moves in (s1, resolve t p))"

definition sync_all_cids :: "stamped_op list \<Rightarrow> string list" where
  "sync_all_cids contents = content_all_cids (merged_content contents)"

text \<open>\<open>sync_status\<close>: the tree log's versions per writer, each with the content log's version or 0.\<close>

definition sync_status :: "(string \<times> u64) list \<Rightarrow> (string \<times> u64) list \<Rightarrow> (string \<times> u64 \<times> u64) list" where
  "sync_status tree content =
     (let m = fmap_of_list (rev content) in
      map (\<lambda>(i, tv). (i, tv, case fmlookup m i of Some v \<Rightarrow> v | None \<Rightarrow> 0)) tree)"

section \<open>Lemmas\<close>

lemma merged_tree_eq: "merged_tree moves = apply_all moves tree_new"
  by (simp add: merged_tree_def tree_merge_apply_def apply_all_def)

lemma merged_content_eq: "merged_content contents = apply_stamped contents fmempty"
  by (simp add: merged_content_def content_merge_apply_def apply_stamped_def)

lemma merged_tree_inv: "asc_by op_ts moves \<Longrightarrow> tree_inv (merged_tree moves) moves"
  using apply_all_inv [of moves] by (simp add: merged_tree_eq insert_all_id)

lemma log_max_merged:
  "asc_by op_ts moves \<Longrightarrow>
    log_max_ts (merged_tree moves) = (if moves = [] then None else Some (op_ts (last moves)))"
proof -
  assume asc: "asc_by op_ts moves"
  have log: "t_log (merged_tree moves) = annot fmempty moves"
    using merged_tree_inv [OF asc] by (simp add: tree_inv_def)
  have "moves \<noteq> [] \<Longrightarrow> le_op (last (annot fmempty moves)) = last moves"
    using last_map [of "annot fmempty moves" le_op] by simp
  then show ?thesis
    by (simp add: log_max_ts_def log entry_ts_def)
qed

lemma asc_last_max: "asc_by f xs \<Longrightarrow> x \<in> set xs \<Longrightarrow> f x \<le> f (last xs)"
  by (cases xs rule: rev_cases) (auto simp: sorted_wrt_append less_imp_le)

text \<open>After \<open>with_tree\<close> the next tick is later than the whole merged tree log.\<close>

lemma with_tree_clock:
  assumes "asc_by op_ts moves" and "op \<in> set moves"
  shows "lamport (op_ts op) \<le> sy_lamport (fst (with_tree s moves))"
proof -
  have "moves \<noteq> []" using assms(2) by auto
  have "op_ts op \<le> op_ts (last moves)"
    by (rule asc_last_max [OF assms])
  then have "lamport (op_ts op) \<le> lamport (op_ts (last moves))"
    using timestamp_less_lamport by (auto simp: le_less)
  then show ?thesis
    using \<open>moves \<noteq> []\<close> by (simp add: with_tree_def Let_def log_max_merged [OF assms(1)] observe_def le_max_iff_disj)
qed

lemma with_tree_frame [simp]:
  "snd (with_tree s moves) = merged_tree moves"
  "sy_replica (fst (with_tree s moves)) = sy_replica s" "sy_sent (fst (with_tree s moves)) = sy_sent s"
  by (auto simp: with_tree_def Let_def observe_def split: option.split)

text \<open>A new last operation on the merged tree is one replay step.\<close>

lemma merged_tree_snoc:
  assumes "asc_by op_ts moves" and "\<forall>m \<in> set moves. op_ts m < op_ts op"
  shows "asc_by op_ts (moves @ [op])"
    and "t_edges (merged_tree (moves @ [op])) = move_edges (t_edges (merged_tree moves)) op"
proof -
  show asc: "asc_by op_ts (moves @ [op])"
    using assms by (simp add: sorted_wrt_append)
  show "t_edges (merged_tree (moves @ [op])) = move_edges (t_edges (merged_tree moves)) op"
    using merged_tree_inv [OF assms(1)] merged_tree_inv [OF asc] by (simp add: tree_inv_def)
qed

lemma tick_after:
  assumes "unat (sy_lamport s) + 1 < 2 ^ 64" and "lamport k \<le> sy_lamport s"
  shows "k < Timestamp (sy_lamport s + 1) r"
proof (rule lamport_less_timestamp)
  have "sy_lamport s < sy_lamport s + 1"
    using next_lamport(2) [of "sy_lamport s" "unat (sy_lamport s)" "sy_lamport s"] assms(1) by simp
  with assms(2) show "lamport k < lamport (Timestamp (sy_lamport s + 1) r)" by simp
qed

lemma fresh_sync_not_reserved: "fresh_sync_id ts ctr \<noteq> ROOT" "fresh_sync_id ts ctr \<noteq> TRASH" "fresh_sync_id ts ctr \<noteq> LIMBO"
proof -
  have "CHR ''-'' \<in> set (fresh_sync_id ts ctr)"
    by (simp add: fresh_sync_id_def)
  moreover have "CHR ''-'' \<notin> set ROOT" "CHR ''-'' \<notin> set TRASH" "CHR ''-'' \<notin> set LIMBO"
    by (simp_all add: ROOT_def TRASH_def LIMBO_def)
  ultimately show "fresh_sync_id ts ctr \<noteq> ROOT" "fresh_sync_id ts ctr \<noteq> TRASH" "fresh_sync_id ts ctr \<noteq> LIMBO"
    by metis+
qed

lemma sync_resolve_dir_Inr:
  "sync_resolve_dir t p = Inr n \<longleftrightarrow> resolve t p = Some n \<and> is_dir t n"
  by (auto simp: sync_resolve_dir_def is_dir_def split: if_splits)

section \<open>Properties\<close>


definition s9 :: synced where "s9 = fst (sync_mkdir (\<lambda>_. None) (moves_of w3) (sync_open ''work'' ''dev2'') 0 ''/docs'' ''sub'')"


text \<open>
  The multi-writer handle reads what the single-writer one does: over the same two key-ordered logs,
  \<open>ls\<close>, path resolution, the derived path, the content record and the referenced cids are those of the
  drive loaded from the logs.
\<close>

theorem sync_reads_like_drive:
  assumes "asc_by op_ts moves" and "asc_by s_ts contents"
  shows "let d = from_state \<lparr>ds_name = n, ds_replica = r, ds_lamport = l, ds_move_log = moves, ds_content_log = contents\<rparr> in
    snd (sync_ls moves contents s p) = ls d p \<and> snd (sync_resolve s moves p) = resolve (d_tree d) p \<and>
    snd (sync_path_of s moves i) = path_of d i \<and> sync_content_of contents i = content_get (d_content d) i \<and>
    sync_all_cids contents = all_cids d"
proof -
  have "sync_resolve_dir (apply_all moves tree_new) p = resolve_dir (from_state \<lparr>ds_name = n, ds_replica = r,
      ds_lamport = l, ds_move_log = moves, ds_content_log = contents\<rparr>) p"
    by (simp add: sync_resolve_dir_def resolve_dir_def from_state_def)
  moreover have "entry_of d = (\<lambda>(name, i, kind). \<lparr>de_name = name, de_node_id = i, de_is_dir = (kind = Dir),
      de_content = content_get (d_content d) i\<rparr>)" for d
    by (rule ext) (simp add: entry_of_def)
  ultimately show ?thesis
    by (simp add: Let_def sync_ls_def split_beta sync_resolve_def sync_path_of_def sync_content_of_def
        sync_all_cids_def merged_tree_eq merged_content_eq fold_content_asc [OF assms(2)] ls_def
        path_of_def all_cids_def from_state_def)
qed

theorem sync_reads_like_drive_witness:
  "let d = from_state (d_state w3) in
   snd (sync_ls (moves_of w3) (contents_of w3) (sync_open ''work'' ''dev2'') ''/docs'') = ls d ''/docs'' \<and>
   snd (sync_resolve (sync_open ''work'' ''dev2'') (moves_of w3) ''/docs'') = resolve (d_tree d) ''/docs'' \<and>
   snd (sync_path_of (sync_open ''work'' ''dev2'') (moves_of w3) id_file) = path_of d id_file \<and>
   sync_content_of (contents_of w3) id_file = content_get (d_content d) id_file \<and>
   sync_all_cids (contents_of w3) = all_cids d"
proof -
  have asc: "asc_by op_ts (moves_of w3)" "asc_by s_ts (contents_of w3)"
    by code_simp+
  have st: "\<lparr>ds_name = ds_name (d_state w3), ds_replica = ds_replica (d_state w3), ds_lamport = ds_lamport (d_state w3),
      ds_move_log = moves_of w3, ds_content_log = contents_of w3\<rparr> = d_state w3"
    by simp
  show ?thesis
    using sync_reads_like_drive [OF asc, of "ds_name (d_state w3)" "ds_replica (d_state w3)" "ds_lamport (d_state w3)"]
    unfolding st .
qed

definition old_edit :: stamped_op where
  "old_edit = \<lparr>s_ts = Timestamp 1 ''dev1'', s_op = Set ''f'' ''c1'' 1 0 5\<rparr>"

definition reopened :: "synced \<times> (sync_error + unit)" where
  "reopened = sync_set_content (\<lambda>_. None) (sync_open ''work'' ''dev1'') ''f'' (fc ''c2'' 9)"

text \<open>
  The handle's clock starts at zero and observes the tree log only, so a content edit made after a
  restart can be lost: here the device's own earlier edit is in the merged content log, the new edit is
  accepted, but it carries the same timestamp, and the union by key keeps the old one.
\<close>

theorem content_edit_lost_after_restart:
  "snd reopened = Inr () \<and>
   (case sy_sent (fst reopened) of
      [ProposeContent new_edit] \<Rightarrow>
        s_ts new_edit = s_ts old_edit \<and>
        map_option fc_cid (content_get (merged_content (insert_op s_ts new_edit [old_edit])) ''f'') = Some ''c1''
    | _ \<Rightarrow> False)"
  by code_simp

end
