(* ===== verification/Vfs.thy ===== *)
theory Vfs
  imports DriveOpsProps
begin

text \<open>
  The mount engine, \<open>crates/ce-drive-mount/src/vfs.rs\<close> (and the block store interface of
  \<open>store_iface.rs\<close>): the inode table, the open handles with their write-back buffers, and the calls of
  the kernel adapters on the drive model. The block store is a parameter: \<open>get_object\<close> and \<open>put_bytes\<close>
  answer an error or a result. Clock readings and the id counter are arguments. The lock sections of
  an operation are separate definitions where the code releases the lock in between.

  An operation gives the new state and an error or a result: what it did before failing stays done.
  Sums of \<open>u64\<close> wrap, as in a release build; a slice whose end lies before its start panics.
\<close>

section \<open>Data\<close>

type_synonym bytes = "8 word list"
type_synonym ino = u64

definition ROOT_INO :: ino where
  "ROOT_INO = 1"

definition DEFAULT_MAX_FILE_SIZE :: u64 where
  "DEFAULT_MAX_FILE_SIZE = 2147483648"

record attr =
  a_ino :: ino
  a_size :: u64
  a_mode :: u32
  a_mtime_ms :: u64
  a_is_dir :: bool

record dir_entry_plus =
  dp_name :: string
  dp_attr :: attr
  dp_node_id :: node_id

record open_file =
  of_ino :: ino
  of_buf :: "bytes option"
  of_dirty :: bool

record flush_result =
  fl_cid :: string
  fl_uploaded :: nat

record put_result =
  pr_content :: file_content
  pr_uploaded :: nat

record vfs =
  v_drive :: drive
  v_ino_of :: "(node_id, ino) fmap"
  v_node_of :: "(ino, node_id) fmap"
  v_next_ino :: ino
  v_open :: "(u64, open_file) fmap"
  v_next_fh :: u64
  v_dirty_model :: bool
  v_max_file_size :: u64

datatype vfs_error =
    UnknownInode ino
  | UnknownParent ino
  | UnknownNewParent ino
  | NoEdge ino
  | NoEntry string
  | BadHandle u64
  | NotHydrated u64
  | HandleHasNoNode
  | StoreFailed string
  | WriteTooBig u64 u64
  | TruncateTooBig u64 u64
  | NotAddressable string
  | SourceMissing string
  | InodeVanished ino
  | DriveFailed drive_error
  | SlicePanic

type_synonym get_object = "string \<Rightarrow> string + bytes"
type_synonym put_bytes = "bytes \<Rightarrow> u32 \<Rightarrow> u64 \<Rightarrow> string + put_result"

section \<open>The handle\<close>

definition vfs_new :: "drive \<Rightarrow> vfs" where
  "vfs_new d =
     \<lparr>v_drive = d, v_ino_of = fmupd ROOT ROOT_INO fmempty, v_node_of = fmupd ROOT_INO ROOT fmempty,
      v_next_ino = ROOT_INO + 1, v_open = fmempty, v_next_fh = 1, v_dirty_model = False,
      v_max_file_size = DEFAULT_MAX_FILE_SIZE\<rparr>"

definition with_max_file_size :: "vfs \<Rightarrow> u64 \<Rightarrow> vfs" where
  "with_max_file_size v m = v\<lparr>v_max_file_size := m\<rparr>"

definition revalidate :: "vfs \<Rightarrow> drive_state \<Rightarrow> vfs" where
  "revalidate v st = v\<lparr>v_drive := from_state st, v_dirty_model := False\<rparr>"

definition vfs_state :: "vfs \<Rightarrow> drive_state" where
  "vfs_state v = d_state (v_drive v)"

definition intern :: "vfs \<Rightarrow> node_id \<Rightarrow> vfs \<times> ino" where
  "intern v node =
     (case fmlookup (v_ino_of v) node of
        Some i \<Rightarrow> (v, i)
      | None \<Rightarrow>
          (let i = v_next_ino v in
           (v\<lparr>v_next_ino := i + 1, v_ino_of := fmupd node i (v_ino_of v),
              v_node_of := fmupd i node (v_node_of v)\<rparr>, i)))"

section \<open>Reading the manifest\<close>

definition attr_of_locked :: "vfs \<Rightarrow> ino \<Rightarrow> vfs_error + attr" where
  "attr_of_locked v i =
     (if i = ROOT_INO then
        Inr \<lparr>a_ino = ROOT_INO, a_size = 0, a_mode = 0x1ED, a_mtime_ms = 0, a_is_dir = True\<rparr>
      else
        res_bind (ok_or (UnknownInode i) (fmlookup (v_node_of v) i)) (\<lambda>node.
        res_bind (ok_or (NoEdge i) (tree_edge (d_tree (v_drive v)) node)) (\<lambda>e.
          let dir = (e_kind e = Dir); content = content_get (d_content (v_drive v)) node in
          Inr \<lparr>a_ino = i,
               a_size = (case content of Some c \<Rightarrow> fc_size c | None \<Rightarrow> 0),
               a_mode = (case content of Some c \<Rightarrow> fc_mode c | None \<Rightarrow> if dir then 0x1ED else 0x1A4),
               a_mtime_ms = (case content of Some c \<Rightarrow> fc_mtime_ms c | None \<Rightarrow> 0),
               a_is_dir = dir\<rparr>)))"

definition getattr :: "vfs \<Rightarrow> ino \<Rightarrow> vfs_error + attr" where
  "getattr v i = attr_of_locked v i"

definition node_at :: "vfs \<Rightarrow> ino \<Rightarrow> vfs_error + node_id" where
  "node_at v i = ok_or (UnknownInode i) (fmlookup (v_node_of v) i)"

definition parent_at :: "vfs \<Rightarrow> ino \<Rightarrow> vfs_error + node_id" where
  "parent_at v i = ok_or (UnknownParent i) (fmlookup (v_node_of v) i)"

definition new_parent_at :: "vfs \<Rightarrow> ino \<Rightarrow> vfs_error + node_id" where
  "new_parent_at v i = ok_or (UnknownNewParent i) (fmlookup (v_node_of v) i)"

definition intern_attr :: "vfs \<Rightarrow> node_id \<Rightarrow> vfs \<times> (vfs_error + attr)" where
  "intern_attr v node = (let (v1, i) = intern v node in (v1, attr_of_locked v1 i))"

definition lookup :: "vfs \<Rightarrow> ino \<Rightarrow> string \<Rightarrow> vfs \<times> (vfs_error + attr)" where
  "lookup v parent name =
     (case parent_at v parent of
        Inl e \<Rightarrow> (v, Inl e)
      | Inr parent_node \<Rightarrow>
          (case find (\<lambda>(n, _, _). n = name) (readdir (d_tree (v_drive v)) parent_node) of
             None \<Rightarrow> (v, Inl (NoEntry name))
           | Some (_, child, _) \<Rightarrow> intern_attr v child))"

definition lookup_path :: "vfs \<Rightarrow> string \<Rightarrow> vfs \<times> (vfs_error + attr)" where
  "lookup_path v p =
     (if p = ''/'' \<or> p = [] then (v, attr_of_locked v ROOT_INO)
      else
        (case resolve (d_tree (v_drive v)) p of
           None \<Rightarrow> (v, Inl (NoEntry p))
         | Some node \<Rightarrow> intern_attr v node))"

fun readdir_loop :: "vfs \<Rightarrow> (string \<times> node_id \<times> node_kind) list \<Rightarrow> vfs \<times> (string \<times> ino \<times> bool) list" where
  "readdir_loop v [] = (v, [])"
| "readdir_loop v ((name, i, kind) # es) =
     (let (v1, child) = intern v i; (v2, out) = readdir_loop v1 es in (v2, (name, child, kind = Dir) # out))"

definition vfs_readdir :: "vfs \<Rightarrow> ino \<Rightarrow> vfs \<times> (vfs_error + (string \<times> ino \<times> bool) list)" where
  "vfs_readdir v i =
     (case node_at v i of
        Inl e \<Rightarrow> (v, Inl e)
      | Inr node \<Rightarrow> (let (v1, out) = readdir_loop v (readdir (d_tree (v_drive v)) node) in (v1, Inr out)))"

fun readdirplus_loop ::
    "vfs \<Rightarrow> (string \<times> node_id \<times> node_kind) list \<Rightarrow> vfs \<times> (vfs_error + dir_entry_plus list)" where
  "readdirplus_loop v [] = (v, Inr [])"
| "readdirplus_loop v ((name, i, kind) # es) =
     (case intern_attr v i of
        (v1, Inl e) \<Rightarrow> (v1, Inl e)
      | (v1, Inr a) \<Rightarrow>
          (case readdirplus_loop v1 es of
             (v2, Inl e) \<Rightarrow> (v2, Inl e)
           | (v2, Inr out) \<Rightarrow> (v2, Inr (\<lparr>dp_name = name, dp_attr = a, dp_node_id = i\<rparr> # out))))"

definition readdirplus :: "vfs \<Rightarrow> ino \<Rightarrow> vfs \<times> (vfs_error + dir_entry_plus list)" where
  "readdirplus v i =
     (case node_at v i of
        Inl e \<Rightarrow> (v, Inl e)
      | Inr node \<Rightarrow> readdirplus_loop v (readdir (d_tree (v_drive v)) node))"

definition readdirplus_path :: "vfs \<Rightarrow> string \<Rightarrow> vfs \<times> (vfs_error + dir_entry_plus list)" where
  "readdirplus_path v p =
     (case lookup_path v p of
        (v1, Inl e) \<Rightarrow> (v1, Inl e)
      | (v1, Inr a) \<Rightarrow> readdirplus v1 (a_ino a))"

section \<open>Open files\<close>

definition open_handle :: "vfs \<Rightarrow> open_file \<Rightarrow> vfs \<times> u64" where
  "open_handle v f =
     (let fh = v_next_fh v in (v\<lparr>v_next_fh := fh + 1, v_open := fmupd fh f (v_open v)\<rparr>, fh))"

definition vfs_open :: "vfs \<Rightarrow> ino \<Rightarrow> vfs \<times> (vfs_error + u64)" where
  "vfs_open v i =
     (if fmlookup (v_node_of v) i = None then (v, Inl (UnknownInode i))
      else (let (v1, fh) = open_handle v \<lparr>of_ino = i, of_buf = None, of_dirty = False\<rparr> in (v1, Inr fh)))"

definition set_handle :: "vfs \<Rightarrow> u64 \<Rightarrow> open_file \<Rightarrow> vfs" where
  "set_handle v fh f = v\<lparr>v_open := fmupd fh f (v_open v)\<rparr>"

text \<open>The bytes \<open>hydrate\<close> fetches: of the node's current cid, none for an empty or missing one.\<close>

definition fetch_for :: "get_object \<Rightarrow> vfs \<Rightarrow> node_id \<Rightarrow> vfs_error + bytes" where
  "fetch_for get_object v node =
     (case map_option fc_cid (content_get (d_content (v_drive v)) node) of
        Some cid \<Rightarrow>
          if cid \<noteq> [] then (case get_object cid of Inl e \<Rightarrow> Inl (StoreFailed e) | Inr b \<Rightarrow> Inr b)
          else Inr []
      | None \<Rightarrow> Inr [])"

definition hydrate :: "get_object \<Rightarrow> vfs \<Rightarrow> u64 \<Rightarrow> vfs \<times> (vfs_error + unit)" where
  "hydrate get_object v fh =
     (case fmlookup (v_open v) fh of
        None \<Rightarrow> (v, Inl (BadHandle fh))
      | Some f \<Rightarrow>
          if of_buf f \<noteq> None then (v, Inr ())
          else
            (case fmlookup (v_node_of v) (of_ino f) of
               None \<Rightarrow> (v, Inl HandleHasNoNode)
             | Some node \<Rightarrow>
                 (case fetch_for get_object v node of
                    Inl e \<Rightarrow> (v, Inl e)
                  | Inr b \<Rightarrow> (set_handle v fh (f\<lparr>of_buf := Some b\<rparr>), Inr ()))))"

text \<open>\<open>buf.resize(n, 0)\<close>.\<close>

definition resize :: "nat \<Rightarrow> bytes \<Rightarrow> bytes" where
  "resize n b = take n b @ replicate (n - length b) 0"

definition vfs_read :: "get_object \<Rightarrow> vfs \<Rightarrow> u64 \<Rightarrow> u64 \<Rightarrow> u32 \<Rightarrow> vfs \<times> (vfs_error + bytes)" where
  "vfs_read get_object v fh offset sz =
     (case hydrate get_object v fh of
        (v1, Inl e) \<Rightarrow> (v1, Inl e)
      | (v1, Inr _) \<Rightarrow>
          (v1,
           res_bind (ok_or (BadHandle fh) (fmlookup (v_open v1) fh)) (\<lambda>f.
           res_bind (ok_or (NotHydrated fh) (of_buf f)) (\<lambda>buf.
             let start = min (unat offset) (length buf);
                 stop = min (unat (offset + ucast sz)) (length buf) in
             if stop < start then Inl SlicePanic else Inr (take (stop - start) (drop start buf))))))"

definition vfs_write :: "get_object \<Rightarrow> vfs \<Rightarrow> u64 \<Rightarrow> u64 \<Rightarrow> bytes \<Rightarrow> vfs \<times> (vfs_error + nat)" where
  "vfs_write get_object v fh offset data =
     (let stop = offset + of_nat (length data) in
      if v_max_file_size v \<noteq> 0 \<and> stop > v_max_file_size v then (v, Inl (WriteTooBig stop (v_max_file_size v)))
      else
        (case hydrate get_object v fh of
           (v1, Inl e) \<Rightarrow> (v1, Inl e)
         | (v1, Inr _) \<Rightarrow>
             (case fmlookup (v_open v1) fh of
                None \<Rightarrow> (v1, Inl (BadHandle fh))
              | Some f \<Rightarrow>
                  (let buf = (case of_buf f of Some b \<Rightarrow> b | None \<Rightarrow> []);
                       buf1 = (if length buf < unat stop then resize (unat stop) buf else buf) in
                   if unat stop < unat offset then (set_handle v1 fh (f\<lparr>of_buf := Some buf1\<rparr>), Inl SlicePanic)
                   else
                     (set_handle v1 fh
                        (f\<lparr>of_buf := Some (take (unat offset) buf1 @ data @ drop (unat stop) buf1), of_dirty := True\<rparr>),
                      Inr (length data))))))"

definition vfs_truncate :: "get_object \<Rightarrow> vfs \<Rightarrow> u64 \<Rightarrow> u64 \<Rightarrow> vfs \<times> (vfs_error + unit)" where
  "vfs_truncate get_object v fh sz =
     (if v_max_file_size v \<noteq> 0 \<and> sz > v_max_file_size v then (v, Inl (TruncateTooBig sz (v_max_file_size v)))
      else
        (case hydrate get_object v fh of
           (v1, Inl e) \<Rightarrow> (v1, Inl e)
         | (v1, Inr _) \<Rightarrow>
             (case fmlookup (v_open v1) fh of
                None \<Rightarrow> (v1, Inl (BadHandle fh))
              | Some f \<Rightarrow>
                  (let buf = (case of_buf f of Some b \<Rightarrow> b | None \<Rightarrow> []) in
                   (set_handle v1 fh (f\<lparr>of_buf := Some (resize (unat sz) buf), of_dirty := True\<rparr>), Inr ())))))"

section \<open>Write-back\<close>

text \<open>
  \<open>flush\<close> takes a snapshot under the lock, uploads without it, then records the new content and clears
  the dirty flag under the lock again.
\<close>

definition flush_snapshot :: "vfs \<Rightarrow> u64 \<Rightarrow> vfs_error + ino \<times> bytes \<times> bool" where
  "flush_snapshot v fh =
     res_bind (ok_or (BadHandle fh) (fmlookup (v_open v) fh)) (\<lambda>f.
       Inr (of_ino f, (case of_buf f of Some b \<Rightarrow> b | None \<Rightarrow> []), of_dirty f))"

definition flush_record :: "vfs \<Rightarrow> u64 \<Rightarrow> ino \<Rightarrow> put_result \<Rightarrow> vfs \<times> (vfs_error + flush_result option)" where
  "flush_record v fh i stored =
     (case fmlookup (v_node_of v) i of
        None \<Rightarrow> (v, Inl (InodeVanished i))
      | Some node \<Rightarrow>
          (let v1 = v\<lparr>v_drive := set_content (v_drive v) node (pr_content stored), v_dirty_model := True\<rparr>;
               v2 = (case fmlookup (v_open v1) fh of Some f \<Rightarrow> set_handle v1 fh (f\<lparr>of_dirty := False\<rparr>) | None \<Rightarrow> v1) in
           (v2, Inr (Some \<lparr>fl_cid = fc_cid (pr_content stored), fl_uploaded = pr_uploaded stored\<rparr>))))"

definition flush :: "put_bytes \<Rightarrow> u64 \<Rightarrow> vfs \<Rightarrow> u64 \<Rightarrow> vfs \<times> (vfs_error + flush_result option)" where
  "flush put_bytes now v fh =
     (case flush_snapshot v fh of
        Inl e \<Rightarrow> (v, Inl e)
      | Inr (i, b, dirty) \<Rightarrow>
          if \<not> dirty then (v, Inr None)
          else
            (case put_bytes b 0x1A4 now of
               Inl e \<Rightarrow> (v, Inl (StoreFailed e))
             | Inr stored \<Rightarrow> flush_record v fh i stored))"

definition release :: "put_bytes \<Rightarrow> u64 \<Rightarrow> vfs \<Rightarrow> u64 \<Rightarrow> vfs \<times> (vfs_error + flush_result option)" where
  "release put_bytes now v fh =
     (case flush put_bytes now v fh of
        (v1, Inl e) \<Rightarrow> (v1, Inl e)
      | (v1, Inr res) \<Rightarrow> (v1\<lparr>v_open := fmdrop fh (v_open v1)\<rparr>, Inr res))"

section \<open>Structural operations\<close>

definition join_path :: "string \<Rightarrow> string \<Rightarrow> string" where
  "join_path dir name =
     (if dir = ''/'' then ''/'' @ name else trim_end_matches (CHR ''/'') dir @ ''/'' @ name)"

definition dir_path :: "vfs \<Rightarrow> ino \<Rightarrow> vfs_error + string" where
  "dir_path v i = res_bind (parent_at v i) (\<lambda>node. ok_or (NotAddressable ''parent'') (path (d_tree (v_drive v)) node))"

definition set_drive :: "vfs \<Rightarrow> drive \<Rightarrow> vfs" where
  "set_drive v d = v\<lparr>v_drive := d, v_dirty_model := True\<rparr>"

definition vfs_create :: "u64 \<Rightarrow> u64 \<Rightarrow> vfs \<Rightarrow> ino \<Rightarrow> string \<Rightarrow> vfs \<times> (vfs_error + attr \<times> u64)" where
  "vfs_create ctr now v parent name =
     (case dir_path v parent of
        Inl e \<Rightarrow> (v, Inl e)
      | Inr parent_path \<Rightarrow>
          (case add_file (v_drive v) ctr parent_path name (fc_new [] 0 0x1A4 now) of
             Inl e \<Rightarrow> (v, Inl (DriveFailed e))
           | Inr (node, d) \<Rightarrow>
               (let (v1, i) = intern (set_drive v d) node in
                (case attr_of_locked v1 i of
                   Inl e \<Rightarrow> (v1, Inl e)
                 | Inr a \<Rightarrow>
                     (let (v2, fh) = open_handle v1 \<lparr>of_ino = i, of_buf = Some [], of_dirty = True\<rparr> in
                      (v2, Inr (a, fh)))))))"

definition vfs_mkdir :: "u64 \<Rightarrow> vfs \<Rightarrow> ino \<Rightarrow> string \<Rightarrow> vfs \<times> (vfs_error + attr)" where
  "vfs_mkdir ctr v parent name =
     (case dir_path v parent of
        Inl e \<Rightarrow> (v, Inl e)
      | Inr parent_path \<Rightarrow>
          (case mkdir (v_drive v) ctr parent_path name of
             Inl e \<Rightarrow> (v, Inl (DriveFailed e))
           | Inr (node, d) \<Rightarrow> intern_attr (set_drive v d) node))"

definition vfs_unlink :: "vfs \<Rightarrow> ino \<Rightarrow> string \<Rightarrow> vfs \<times> (vfs_error + unit)" where
  "vfs_unlink v parent name =
     (case dir_path v parent of
        Inl e \<Rightarrow> (v, Inl e)
      | Inr parent_path \<Rightarrow>
          (case rm (v_drive v) (join_path parent_path name) of
             Inl e \<Rightarrow> (v, Inl (DriveFailed e))
           | Inr d \<Rightarrow> (set_drive v d, Inr ())))"

definition vfs_rename :: "vfs \<Rightarrow> ino \<Rightarrow> string \<Rightarrow> ino \<Rightarrow> string \<Rightarrow> vfs \<times> (vfs_error + unit)" where
  "vfs_rename v parent name new_parent new_name =
     (case (parent_at v parent, new_parent_at v new_parent) of
        (Inl e, _) \<Rightarrow> (v, Inl e)
      | (_, Inl e) \<Rightarrow> (v, Inl e)
      | (Inr parent_node, Inr new_parent_node) \<Rightarrow>
          (let t = d_tree (v_drive v) in
           (case (path t parent_node, path t new_parent_node) of
              (None, _) \<Rightarrow> (v, Inl (NotAddressable ''src parent''))
            | (_, None) \<Rightarrow> (v, Inl (NotAddressable ''dst parent''))
            | (Some src_dir, Some dst_dir) \<Rightarrow>
                (let src = join_path src_dir name in
                 (case resolve t src of
                    None \<Rightarrow> (v, Inl (SourceMissing src))
                  | Some src_node \<Rightarrow>
                      (let dst_existing = join_path dst_dir new_name;
                           displaced = (case resolve t dst_existing of
                               Some n \<Rightarrow> if n \<noteq> src_node then Some n else None | None \<Rightarrow> None) in
                       (case mv (v_drive v) src dst_dir new_name of
                          Inl e \<Rightarrow> (v, Inl (DriveFailed e))
                        | Inr d \<Rightarrow>
                            (let d' = (case displaced of
                                 None \<Rightarrow> d
                               | Some old \<Rightarrow>
                                   (let trash_path = (case path (d_tree d) old of Some p \<Rightarrow> p | None \<Rightarrow> join_path dst_dir new_name) in
                                    (case rm d trash_path of Inr d2 \<Rightarrow> d2 | Inl _ \<Rightarrow> d))) in
                             (set_drive v d', Inr ())))))))))"

end
