(* ===== verification/VfsProps.thy ===== *)
theory VfsProps
  imports Vfs
begin

text \<open>
  The properties of the mount engine: inodes are a bijection and never change while the mount lives,
  writes and reads agree, and two concrete runs on which a call does not do what it should.
\<close>

section \<open>The inode table\<close>

definition inode_inv :: "vfs \<Rightarrow> bool" where
  "inode_inv v \<longleftrightarrow>
     (\<forall>n i. fmlookup (v_ino_of v) n = Some i \<longleftrightarrow> fmlookup (v_node_of v) i = Some n) \<and>
     fmlookup (v_ino_of v) ROOT = Some ROOT_INO \<and>
     (\<forall>n i. fmlookup (v_ino_of v) n = Some i \<longrightarrow> i < v_next_ino v)"

definition keeps_inodes :: "vfs \<Rightarrow> vfs \<Rightarrow> bool" where
  "keeps_inodes v v' \<longleftrightarrow> (\<forall>n i. fmlookup (v_ino_of v) n = Some i \<longrightarrow> fmlookup (v_ino_of v') n = Some i)"

text \<open>A change that assigns at most \<open>k\<close> inodes, while the counter has room for them.\<close>

definition stable_by :: "nat \<Rightarrow> vfs \<Rightarrow> vfs \<Rightarrow> bool" where
  "stable_by k v v' \<longleftrightarrow>
     (inode_inv v \<longrightarrow> unat (v_next_ino v) + k < 2 ^ 64 \<longrightarrow>
       inode_inv v' \<and> keeps_inodes v v' \<and> unat (v_next_ino v') \<le> unat (v_next_ino v) + k)"

lemma stable_refl [simp]: "stable_by k v v"
  by (simp add: stable_by_def keeps_inodes_def)

lemma stable_trans: "stable_by a v v1 \<Longrightarrow> stable_by b v1 v2 \<Longrightarrow> stable_by (a + b) v v2"
  unfolding stable_by_def keeps_inodes_def by auto

lemma stable_mono: "stable_by a v v' \<Longrightarrow> a \<le> b \<Longrightarrow> stable_by b v v'"
  unfolding stable_by_def by auto

definition same_inodes :: "vfs \<Rightarrow> vfs \<Rightarrow> bool" where
  "same_inodes v v' \<longleftrightarrow>
     v_ino_of v' = v_ino_of v \<and> v_node_of v' = v_node_of v \<and> v_next_ino v' = v_next_ino v"

lemma same_inodes_stable: "same_inodes v v' \<Longrightarrow> stable_by k v v'"
  unfolding same_inodes_def stable_by_def inode_inv_def keeps_inodes_def by simp

lemma same_inodes_trans [trans]: "same_inodes v v1 \<Longrightarrow> same_inodes v1 v2 \<Longrightarrow> same_inodes v v2"
  by (simp add: same_inodes_def)

lemma same_inodes_basic [simp]:
  "same_inodes v v" "same_inodes v (set_drive v d)" "same_inodes v (set_handle v fh f)"
  "same_inodes v (fst (open_handle v f))" "same_inodes v (with_max_file_size v m)" "same_inodes v (revalidate v st)"
  "same_inodes v (v\<lparr>v_open := hs\<rparr>)"
  by (simp_all add: same_inodes_def set_drive_def set_handle_def open_handle_def with_max_file_size_def
      revalidate_def Let_def)

lemma intern_stable: "stable_by 1 v (fst (intern v n))"
  unfolding stable_by_def
proof (intro impI)
  assume inv: "inode_inv v" and room: "unat (v_next_ino v) + 1 < 2 ^ 64"
  note nl = next_lamport [of "v_next_ino v" "unat (v_next_ino v)", OF refl]
  have lt: "x \<le> v_next_ino v \<Longrightarrow> x < v_next_ino v + 1" and eq: "unat (v_next_ino v + 1) = unat (v_next_ino v) + 1" for x
    using nl room by simp_all
  have new: "fmlookup (v_node_of v) (v_next_ino v) = None"
    using inv unfolding inode_inv_def by (metis less_irrefl not_None_eq)
  show "inode_inv (fst (intern v n)) \<and> keeps_inodes v (fst (intern v n)) \<and>
      unat (v_next_ino (fst (intern v n))) \<le> unat (v_next_ino v) + 1"
  proof (cases "fmlookup (v_ino_of v) n")
    case (Some i)
    with inv show ?thesis by (simp add: intern_def keeps_inodes_def)
  next
    case None
    have old: "fmlookup (v_node_of v) i \<noteq> Some n" for i
      using inv None unfolding inode_inv_def by (metis option.distinct(1))
    have "fmlookup (v_node_of v) i = Some m \<Longrightarrow> i < v_next_ino v + 1" for i m
      using inv lt [of i] unfolding inode_inv_def by (auto simp: less_imp_le)
    with inv new lt eq None old show ?thesis
      unfolding inode_inv_def keeps_inodes_def
      by (auto simp: intern_def Let_def)
  qed
qed

lemma intern_attr_stable: "stable_by 1 v (fst (intern_attr v n))"
  using intern_stable [of v n] by (simp add: intern_attr_def split_beta Let_def)

lemma readdir_loop_stable: "stable_by (length es) v (fst (readdir_loop v es))"
proof (induction v es rule: readdir_loop.induct)
  case (2 v name i kind es)
  have "stable_by (1 + length es) v (fst (readdir_loop (fst (intern v i)) es))"
    using 2 [of "intern v i" "fst (intern v i)" "snd (intern v i)"] intern_stable by (intro stable_trans) auto
  then show ?case by (simp add: split_beta Let_def)
qed simp

lemma readdirplus_loop_stable: "stable_by (length es) v (fst (readdirplus_loop v es))"
proof (induction es arbitrary: v)
  case (Cons x es)
  obtain name i kind where x: "x = (name, i, kind)" by (cases x)
  have one: "stable_by 1 v (fst (intern_attr v i))"
    by (rule intern_attr_stable)
  then have "stable_by (1 + length es) v (fst (intern_attr v i))"
    by (rule stable_mono) simp
  moreover have "stable_by (1 + length es) v (fst (readdirplus_loop (fst (intern_attr v i)) es))"
    by (rule stable_trans [OF one Cons.IH])
  ultimately show ?case
    by (auto simp: x split: prod.split sum.split)
qed simp

lemma hydrate_inodes: "same_inodes v (fst (hydrate get v fh))"
  by (auto simp: hydrate_def split: option.split sum.split)

lemma open_inodes: "same_inodes v (fst (vfs_open v i))"
  using same_inodes_basic(4) [of v] by (simp add: vfs_open_def split_beta Let_def)

lemma read_inodes: "same_inodes v (fst (vfs_read get v fh off sz))"
  using hydrate_inodes [of v get fh] by (auto simp: vfs_read_def split: prod.split sum.split)

lemma write_inodes: "same_inodes v (fst (vfs_write get v fh off data))"
  using hydrate_inodes [of v get fh] same_inodes_trans [OF _ same_inodes_basic(3)]
  by (auto simp: vfs_write_def Let_def split: prod.split sum.split option.split)

lemma truncate_inodes: "same_inodes v (fst (vfs_truncate get v fh sz))"
  using hydrate_inodes [of v get fh] same_inodes_trans [OF _ same_inodes_basic(3)]
  by (auto simp: vfs_truncate_def Let_def split: prod.split sum.split option.split)

lemma flush_record_inodes: "same_inodes v (fst (flush_record v fh i r))"
  by (auto simp: flush_record_def Let_def same_inodes_def set_handle_def split: option.split)

lemma flush_inodes: "same_inodes v (fst (flush put now v fh))"
  using flush_record_inodes by (auto simp: flush_def split: sum.split prod.split)

lemma release_inodes: "same_inodes v (fst (release put now v fh))"
  using flush_inodes [of v put now fh] same_inodes_trans [OF _ same_inodes_basic(7)]
  by (auto simp: release_def split: prod.split sum.split)

lemma create_stable: "stable_by 1 v (fst (vfs_create ctr now v p name))"
proof -
  have "stable_by (0 + 1) v (fst (intern (set_drive v d) n))" for d n
    by (rule stable_trans [OF same_inodes_stable intern_stable]) simp
  then have one: "stable_by 1 v (fst (intern (set_drive v d) n))" for d n by simp
  have "stable_by (1 + 0) v (fst (open_handle (fst (intern (set_drive v d) n)) f))" for d n f
    by (rule stable_trans [OF one [of d n] same_inodes_stable]) simp
  with one show ?thesis
    by (auto simp: vfs_create_def Let_def split_beta split: sum.split prod.split)
qed

lemma mkdir_stable: "stable_by 1 v (fst (vfs_mkdir ctr v p name))"
proof -
  have "stable_by (0 + 1) v (fst (intern_attr (set_drive v d) n))" for d n
    by (rule stable_trans [OF same_inodes_stable intern_attr_stable]) simp
  then show ?thesis
    by (auto simp: vfs_mkdir_def split: sum.split prod.split)
qed

lemma unlink_inodes: "same_inodes v (fst (vfs_unlink v p name))"
  by (auto simp: vfs_unlink_def split: sum.split)

lemma rename_inodes: "same_inodes v (fst (vfs_rename v p name q new_name))"
  by (auto simp: vfs_rename_def Let_def split: sum.split option.split prod.split)

lemma lookup_stable: "stable_by 1 v (fst (lookup v p name))"
  using intern_attr_stable by (auto simp: lookup_def split: sum.split option.split prod.split)

lemma lookup_path_stable: "stable_by 1 v (fst (lookup_path v p))"
  using intern_attr_stable by (auto simp: lookup_path_def split: option.split)

section \<open>Runs of the engine\<close>

text \<open>One call of an adapter, with a bound on the inodes it can assign.\<close>

inductive vfs_step :: "nat \<Rightarrow> vfs \<Rightarrow> vfs \<Rightarrow> bool" where
  vs_lookup: "vfs_step 1 v (fst (lookup v p name))"
| vs_lookup_path: "vfs_step 1 v (fst (lookup_path v pt))"
| vs_readdir: "node_at v i = Inr node \<Longrightarrow>
    vfs_step (length (readdir (d_tree (v_drive v)) node)) v (fst (vfs_readdir v i))"
| vs_readdirplus: "node_at v i = Inr node \<Longrightarrow>
    vfs_step (length (readdir (d_tree (v_drive v)) node)) v (fst (readdirplus v i))"
| vs_open: "vfs_step 0 v (fst (vfs_open v i))"
| vs_read: "vfs_step 0 v (fst (vfs_read get v fh off sz))"
| vs_write: "vfs_step 0 v (fst (vfs_write get v fh off data))"
| vs_truncate: "vfs_step 0 v (fst (vfs_truncate get v fh n))"
| vs_flush: "vfs_step 0 v (fst (flush put now v fh))"
| vs_flush_record: "vfs_step 0 v (fst (flush_record v fh i stored))"
| vs_release: "vfs_step 0 v (fst (release put now v fh))"
| vs_create: "vfs_step 1 v (fst (vfs_create ctr now v p name))"
| vs_mkdir: "vfs_step 1 v (fst (vfs_mkdir ctr v p name))"
| vs_unlink: "vfs_step 0 v (fst (vfs_unlink v p name))"
| vs_rename: "vfs_step 0 v (fst (vfs_rename v p name q new_name))"
| vs_revalidate: "vfs_step 0 v (revalidate v st)"

inductive vfs_run :: "nat \<Rightarrow> vfs \<Rightarrow> vfs \<Rightarrow> bool" where
  run_done: "vfs_run 0 v v"
| run_call: "vfs_run m v v1 \<Longrightarrow> vfs_step k v1 v2 \<Longrightarrow> vfs_run (m + k) v v2"

lemma vfs_step_stable: "vfs_step k v v' \<Longrightarrow> stable_by k v v'"
proof (induction rule: vfs_step.induct)
  case (vs_readdir v i node)
  then show ?case
    using readdir_loop_stable [of "readdir (d_tree (v_drive v)) node" v]
    by (simp add: vfs_readdir_def split_beta Let_def)
next
  case (vs_readdirplus v i node)
  then show ?case
    using readdirplus_loop_stable [of "readdir (d_tree (v_drive v)) node" v]
    by (simp add: readdirplus_def)
qed (simp_all only: lookup_stable lookup_path_stable create_stable mkdir_stable same_inodes_stable open_inodes
    read_inodes write_inodes truncate_inodes flush_inodes flush_record_inodes release_inodes unlink_inodes
    rename_inodes same_inodes_basic)

lemma vfs_run_stable: "vfs_run k v v' \<Longrightarrow> stable_by k v v'"
  by (induction rule: vfs_run.induct) (auto intro: stable_trans vfs_step_stable)

lemma vfs_new_inv: "inode_inv (vfs_new d)" "unat (v_next_ino (vfs_new d)) = 2"
  by (auto simp: inode_inv_def vfs_new_def ROOT_INO_def)

section \<open>Reads and writes\<close>

definition handle_buf :: "vfs \<Rightarrow> u64 \<Rightarrow> bytes option" where
  "handle_buf v fh = (case fmlookup (v_open v) fh of Some f \<Rightarrow> of_buf f | None \<Rightarrow> None)"

lemma set_handle_lookup [simp]: "fmlookup (v_open (set_handle v fh f)) fh = Some f"
  by (simp add: set_handle_def)

lemma hydrate_buf: "hydrate get v fh = (v1, Inr u) \<Longrightarrow> \<exists>f b. fmlookup (v_open v1) fh = Some f \<and> of_buf f = Some b"
  by (auto simp: hydrate_def split: option.splits sum.splits if_splits)

lemma hydrate_done: "handle_buf v fh = Some b \<Longrightarrow> hydrate get v fh = (v, Inr ())"
  by (auto simp: hydrate_def handle_buf_def split: option.splits)

lemma length_resize [simp]: "length (resize n b) = n"
  by (simp add: resize_def)

lemma nth_resize: "j < n \<Longrightarrow> resize n b ! j = (if j < length b then b ! j else 0)"
  by (simp add: resize_def nth_append)

lemma unat_end:
  "unat (off :: u64) + n < 2 ^ 64 \<Longrightarrow> unat (off + of_nat n) = unat off + n"
proof -
  assume lt: "unat off + n < 2 ^ 64"
  then have "unat (of_nat n :: u64) = n"
    by (simp add: unat_of_nat)
  with lt show ?thesis
    by (simp add: unat_word_ariths)
qed

text \<open>The buffer after a write: the data at the offset, the old bytes elsewhere, zeros in a gap.\<close>

definition spliced :: "bytes \<Rightarrow> nat \<Rightarrow> bytes \<Rightarrow> bytes" where
  "spliced old off data =
     map (\<lambda>j. if off \<le> j \<and> j < off + length data then data ! (j - off)
               else if j < length old then old ! j else 0)
       [0..<max (length old) (off + length data)]"

lemma write_splices:
  assumes "vfs_write get v fh off data = (v', Inr n)" and "unat off + length data < 2 ^ 64"
  shows "n = length data \<and> (\<exists>old. handle_buf (fst (hydrate get v fh)) fh = Some old \<and>
    handle_buf v' fh = Some (spliced old (unat off) data)) \<and>
    map_option of_dirty (fmlookup (v_open v') fh) = Some True"
proof -
  let ?stop = "unat off + length data"
  note e = unat_end [OF assms(2)]
  obtain v1 u where h: "hydrate get v fh = (v1, Inr u)"
    using assms(1) by (auto simp: vfs_write_def Let_def split: if_splits prod.splits sum.splits)
  obtain f old where f: "fmlookup (v_open v1) fh = Some f" "of_buf f = Some old"
    using hydrate_buf [OF h] by auto
  let ?b1 = "if length old < ?stop then resize ?stop old else old"
  have out: "n = length data" "v' = set_handle v1 fh
      (f\<lparr>of_buf := Some (take (unat off) ?b1 @ data @ drop ?stop ?b1), of_dirty := True\<rparr>)"
    using assms(1) h f by (auto simp: vfs_write_def Let_def e split: if_splits)
  have "take (unat off) ?b1 @ data @ drop ?stop ?b1 = spliced old (unat off) data"
  proof (rule nth_equalityI)
    show "length (take (unat off) ?b1 @ data @ drop ?stop ?b1) = length (spliced old (unat off) data)"
      by (simp add: spliced_def)
    fix j
    assume "j < length (take (unat off) ?b1 @ data @ drop ?stop ?b1)"
    then show "(take (unat off) ?b1 @ data @ drop ?stop ?b1) ! j = spliced old (unat off) data ! j"
      by (auto simp: spliced_def nth_append nth_resize)
  qed
  with out h f show ?thesis
    by (simp add: handle_buf_def)
qed

lemma read_range:
  assumes "handle_buf v fh = Some b" and "unat off + unat (ucast sz :: u64) < 2 ^ 64"
  shows "vfs_read get v fh off sz
    = (v, Inr (take (unat (ucast sz :: u64)) (drop (unat off) b)))"
proof -
  obtain f where f: "fmlookup (v_open v) fh = Some f" "of_buf f = Some b"
    using assms(1) by (auto simp: handle_buf_def split: option.splits)
  have e: "unat (off + ucast sz) = unat off + unat (ucast sz :: u64)"
    using assms(2) by (simp add: unat_word_ariths)
  have "take (min (unat off + n) (length b) - min (unat off) (length b)) (drop (min (unat off) (length b)) b)
      = take n (drop (unat off) b)" for n
    by (cases "unat off \<le> length b") (auto simp: min_def)
  then show ?thesis
    using f by (simp add: vfs_read_def hydrate_done [OF assms(1)] e Let_def)
qed

section \<open>Properties\<close>

text \<open>
  C27. Inodes are stable: in every state a mount can reach, the inode table is a bijection between the
  nodes seen and their inodes, with inode 1 for the root; and no later call of any kind, failing ones
  and revalidations included, changes or reuses an inode once given out. (The counter must not wrap.)
\<close>

theorem inodes_are_stable:
  assumes "vfs_run m (vfs_new d) v" and "vfs_run k v v'" and "m + k + 2 < 2 ^ 64"
    and "fmlookup (v_ino_of v) n = Some i"
  shows "fmlookup (v_ino_of v') n = Some i \<and> fmlookup (v_node_of v') i = Some n \<and>
    (fmlookup (v_ino_of v') other = Some i) = (other = n) \<and> fmlookup (v_ino_of v') ROOT = Some ROOT_INO"
proof -
  have "inode_inv v" and nl: "unat (v_next_ino v) \<le> 2 + m"
    using vfs_run_stable [OF assms(1)] assms(3) vfs_new_inv [of d] by (simp_all add: stable_by_def)
  then have inv: "inode_inv v'" and keep: "keeps_inodes v v'"
    using vfs_run_stable [OF assms(2)] assms(3) by (simp_all add: stable_by_def)
  have i: "fmlookup (v_ino_of v') n = Some i"
    using keep assms(4) by (simp add: keeps_inodes_def)
  then have j: "fmlookup (v_node_of v') i = Some n"
    using inv unfolding inode_inv_def by blast
  moreover have "(fmlookup (v_ino_of v') other = Some i) = (other = n)"
    using inv i j unfolding inode_inv_def by auto
  ultimately show ?thesis
    using inv i unfolding inode_inv_def by blast
qed

definition m0 :: vfs where "m0 = vfs_new w3"
definition m1 :: vfs where "m1 = fst (lookup m0 ROOT_INO ''docs'')"
definition m2 :: vfs where "m2 = fst (vfs_rename m1 ROOT_INO ''docs'' ROOT_INO ''papers'')"

theorem inodes_are_stable_witness:
  "fmlookup (v_ino_of m2) id_docs = Some 2 \<and> fmlookup (v_node_of m2) 2 = Some id_docs \<and>
   (fmlookup (v_ino_of m2) id_file = Some 2) = (id_file = id_docs) \<and> fmlookup (v_ino_of m2) ROOT = Some ROOT_INO"
proof (rule inodes_are_stable)
  show "vfs_run (0 + 1) (vfs_new w3) m1"
    unfolding m1_def m0_def by (rule run_call [OF run_done vs_lookup])
  show "vfs_run (0 + 0) m1 m2"
    unfolding m2_def by (rule run_call [OF run_done vs_rename])
  show "fmlookup (v_ino_of m1) id_docs = Some 2"
    by code_simp
qed simp


text \<open>A block store whose cids are the bytes themselves.\<close>

definition bytes_cid :: "bytes \<Rightarrow> string" where
  "bytes_cid b = map (\<lambda>x. char_of (unat x)) b"

definition demo_get :: get_object where
  "demo_get cid = Inr (map (\<lambda>c. of_nat (of_char c)) cid)"

definition demo_put :: put_bytes where
  "demo_put b mode t = Inr \<lparr>pr_content = fc_new (bytes_cid b) (of_nat (length b)) mode t, pr_uploaded = 1\<rparr>"

definition m3 :: vfs where "m3 = fst (vfs_create 7 20 m0 ROOT_INO ''n.txt'')"
definition m4 :: vfs where "m4 = fst (vfs_write demo_get m3 1 2 [97, 98])"


section \<open>Two calls that go wrong\<close>

definition a_and_b :: drive where
  "a_and_b =
     (let d1 = snd (projr (add_file w0 0 ''/'' ''a'' (fc ''new'' 5))) in
      snd (projr (add_file d1 1 ''/'' ''b'' (fc ''old'' 6))))"

definition renamed :: "vfs \<times> (vfs_error + unit)" where
  "renamed = vfs_rename (vfs_new a_and_b) ROOT_INO ''a'' ROOT_INO ''b''"

text \<open>
  Renaming onto an existing name deletes the wrong file: with the files \<open>a\<close> and \<open>b\<close> in the root,
  renaming \<open>a\<close> to \<open>b\<close> succeeds, but the moved file is trashed and the old \<open>b\<close> stays, because the
  displaced node's bare path resolves to the newer node of that name.
\<close>

theorem rename_over_existing_trashes_the_source:
  "snd renamed = Inr () \<and>
   map (\<lambda>e. (de_name e, map_option fc_cid (de_content e))) (projr (ls (v_drive (fst renamed)) ''/''))
     = [(''b'', Some ''old'')] \<and>
   map (\<lambda>e. (de_name e, map_option fc_cid (de_content e))) (trash (v_drive (fst renamed))) = [(''b'', Some ''new'')]"
  by code_simp

definition m5 :: vfs where "m5 = fst (vfs_write demo_get m3 1 0 [97])"
definition m6 :: vfs where "m6 = fst (vfs_write demo_get m5 1 1 [98])"

definition uploaded_during :: vfs where
  "uploaded_during =
     (case flush_snapshot m5 1 of
        Inr (i, b, _) \<Rightarrow> fst (flush_record m6 1 i (projr (demo_put b 0x1A4 30)))
      | Inl _ \<Rightarrow> m6)"

text \<open>
  A write during an upload is lost: \<open>flush\<close> clears the dirty flag after the upload even if the
  buffer changed since its snapshot, so the next flush uploads nothing and the recorded content lacks
  the later write.
\<close>

theorem write_during_flush_is_lost:
  "handle_buf uploaded_during 1 = Some [97, 98] \<and>
   snd (flush demo_put 40 uploaded_during 1) = Inr None \<and>
   map_option fc_cid (content_get (d_content (v_drive (fst (release demo_put 40 uploaded_during 1))))
     (the (fmlookup (v_node_of uploaded_during) 2))) = Some ''a''"
  by code_simp

end
