(* ===== verification/WasmCrdt.thy ===== *)
theory WasmCrdt
  imports DriveOpsProps
begin

text \<open>
  The browser's copy of the model, \<open>crates/ce-drive-wasm/src/crdt.rs\<close>: the same tree and content map
  written again without the native dependencies. Its operations are modelled from that file; the tree
  has the fields of the core's, a version lacks the core's conflict mark. The lemmas relate each
  operation to the core's.
\<close>

section \<open>The tree\<close>

type_synonym wasm_tree = drive_tree

definition w_new :: wasm_tree where
  "w_new = \<lparr>t_log = [], t_edges = fmempty, t_children = fmempty\<rparr>"

fun w_anc_walk :: "nat \<Rightarrow> wasm_tree \<Rightarrow> node_id \<Rightarrow> node_id \<Rightarrow> bool" where
  "w_anc_walk 0 t a cur = False"
| "w_anc_walk (Suc k) t a cur =
     (if cur = a then True
      else (case fmlookup (t_edges t) cur of Some e \<Rightarrow> w_anc_walk k t a (e_parent e) | None \<Rightarrow> False))"

definition w_is_ancestor :: "wasm_tree \<Rightarrow> node_id \<Rightarrow> node_id \<Rightarrow> bool" where
  "w_is_ancestor t a n = w_anc_walk (Suc (fcard (fmdom (t_edges t)))) t a n"

definition w_children_remove :: "wasm_tree \<Rightarrow> node_id \<Rightarrow> string \<times> node_id \<Rightarrow> wasm_tree" where
  "w_children_remove t p x =
     (case fmlookup (t_children t) p of
        Some s \<Rightarrow> t\<lparr>t_children := fmupd p (s |-| {|x|}) (t_children t)\<rparr>
      | None \<Rightarrow> t)"

definition w_children_insert :: "wasm_tree \<Rightarrow> node_id \<Rightarrow> string \<times> node_id \<Rightarrow> wasm_tree" where
  "w_children_insert t p x =
     t\<lparr>t_children := fmupd p (finsert x (case fmlookup (t_children t) p of Some s \<Rightarrow> s | None \<Rightarrow> {||})) (t_children t)\<rparr>"

definition w_do_move :: "wasm_tree \<Rightarrow> move_op \<Rightarrow> wasm_tree \<times> edge option" where
  "w_do_move t op =
     (if op_new_parent op = op_child op \<or> w_is_ancestor t (op_child op) (op_new_parent op)
      then (t, fmlookup (t_edges t) (op_child op))
      else
        (let old = fmlookup (t_edges t) (op_child op);
             t1 = (case old of Some prev \<Rightarrow> w_children_remove t (e_parent prev) (e_name prev, op_child op) | None \<Rightarrow> t);
             e = \<lparr>e_parent = op_new_parent op, e_name = op_new_name op, e_kind = op_kind op\<rparr>;
             t2 = w_children_insert t1 (op_new_parent op) (op_new_name op, op_child op) in
         (t2\<lparr>t_edges := fmupd (op_child op) e (t_edges t2)\<rparr>, old)))"

definition w_undo_move :: "wasm_tree \<Rightarrow> log_entry \<Rightarrow> wasm_tree" where
  "w_undo_move t entry =
     (let child = op_child (le_op entry);
          t1 = (case fmlookup (t_edges t) child of
                  Some cur \<Rightarrow> w_children_remove t (e_parent cur) (e_name cur, child) | None \<Rightarrow> t) in
      (case le_old entry of
         Some prev \<Rightarrow>
           (let t2 = w_children_insert t1 (e_parent prev) (e_name prev, child) in
            t2\<lparr>t_edges := fmupd child prev (t_edges t2)\<rparr>)
       | None \<Rightarrow> t1\<lparr>t_edges := fmdrop child (t_edges t1)\<rparr>))"

definition w_redo :: "log_entry \<Rightarrow> wasm_tree \<Rightarrow> wasm_tree" where
  "w_redo entry t =
     (let (t1, old) = w_do_move t (le_op entry) in t1\<lparr>t_log := t_log t1 @ [entry\<lparr>le_old := old\<rparr>]\<rparr>)"

definition w_apply :: "wasm_tree \<Rightarrow> move_op \<Rightarrow> wasm_tree" where
  "w_apply t op =
     (let pos = length (takeWhile (\<lambda>e. op_ts (le_op e) < op_ts op) (t_log t)) in
      if pos < length (t_log t) \<and> op_ts (le_op (t_log t ! pos)) = op_ts op then t
      else
        (let tail = drop pos (t_log t);
             t1 = fold (\<lambda>e t. w_undo_move t e) (rev tail) (t\<lparr>t_log := take pos (t_log t)\<rparr>);
             (t2, old) = w_do_move t1 op;
             t3 = t2\<lparr>t_log := t_log t2 @ [\<lparr>le_op = op, le_old = old\<rparr>]\<rparr> in
         fold w_redo tail t3))"

definition w_edge :: "wasm_tree \<Rightarrow> node_id \<Rightarrow> edge option" where
  "w_edge t n = fmlookup (t_edges t) n"

definition w_is_trashed :: "wasm_tree \<Rightarrow> node_id \<Rightarrow> bool" where
  "w_is_trashed t n = w_is_ancestor t TRASH n"

definition w_is_live :: "wasm_tree \<Rightarrow> node_id \<Rightarrow> bool" where
  "w_is_live t n = (case fmlookup (t_edges t) n of Some _ \<Rightarrow> \<not> w_is_ancestor t TRASH n | None \<Rightarrow> n = ROOT)"

definition w_raw_children :: "wasm_tree \<Rightarrow> node_id \<Rightarrow> (string \<times> node_id) list" where
  "w_raw_children t p = (case fmlookup (t_children t) p of Some s \<Rightarrow> sorted_list_of_fset s | None \<Rightarrow> [])"

definition w_defining_ts :: "wasm_tree \<Rightarrow> node_id \<Rightarrow> timestamp" where
  "w_defining_ts t n =
     (case find (\<lambda>e. op_child (le_op e) = n) (rev (t_log t)) of
        Some e \<Rightarrow> op_ts (le_op e) | None \<Rightarrow> Timestamp 0 [])"

definition w_kind :: "wasm_tree \<Rightarrow> node_id \<Rightarrow> node_kind" where
  "w_kind t n = (case fmlookup (t_edges t) n of Some e \<Rightarrow> e_kind e | None \<Rightarrow> File)"

definition w_rendered :: "string \<Rightarrow> timestamp \<Rightarrow> string" where
  "w_rendered name ts = name @ ''.conflict-'' @ take_chars 8 (replica ts) @ ''-'' @ dec_string (lamport ts)"

text \<open>The grouping both \<open>readdir\<close> and \<open>conflicts\<close> start with.\<close>

definition w_by_name :: "wasm_tree \<Rightarrow> node_id \<Rightarrow> (string \<times> node_id list) list" where
  "w_by_name t p =
     group_by_name (filter (\<lambda>(_, c). \<not> (p \<noteq> TRASH \<and> w_is_trashed t c)) (w_raw_children t p))"

definition w_ranked :: "wasm_tree \<Rightarrow> node_id list \<Rightarrow> (timestamp \<times> node_id) list" where
  "w_ranked t ids = sort_desc fst (map (\<lambda>c. (w_defining_ts t c, c)) ids)"

definition w_render :: "wasm_tree \<Rightarrow> string \<times> node_id list \<Rightarrow> (string \<times> node_id \<times> node_kind) list" where
  "w_render t g =
     (case g of (name, ids) \<Rightarrow>
        if length ids = 1 then [(name, last ids, w_kind t (last ids))]
        else map (\<lambda>(i, ts, child). (if i = 0 then name else w_rendered name ts, child, w_kind t child))
               (enumerate 0 (w_ranked t ids)))"

definition w_readdir :: "wasm_tree \<Rightarrow> node_id \<Rightarrow> (string \<times> node_id \<times> node_kind) list" where
  "w_readdir t p = sort_key fst (concat (map (w_render t) (w_by_name t p)))"

record name_conflict =
  nc_name :: string
  nc_winner :: node_id
  nc_loser :: node_id
  nc_rendered :: string

definition w_conflicts :: "wasm_tree \<Rightarrow> node_id \<Rightarrow> name_conflict list" where
  "w_conflicts t p =
     concat (map (\<lambda>(name, ids).
       if length ids < 2 then []
       else
         (let r = w_ranked t ids; winner = snd (hd r) in
          map (\<lambda>(ts, loser). \<lparr>nc_name = name, nc_winner = winner, nc_loser = loser,
                 nc_rendered = w_rendered name ts\<rparr>) (drop 1 r)))
       (w_by_name t p))"

fun w_path_walk :: "nat \<Rightarrow> wasm_tree \<Rightarrow> node_id \<Rightarrow> string list \<Rightarrow> string option" where
  "w_path_walk 0 t cur parts = None"
| "w_path_walk (Suc k) t cur parts =
     (case fmlookup (t_edges t) cur of
        Some e \<Rightarrow>
          (let parts' = parts @ [e_name e] in
           if e_parent e = ROOT then Some (''/'' @ join_with ''/'' (rev parts'))
           else w_path_walk k t (e_parent e) parts')
      | None \<Rightarrow> None)"

definition w_path :: "wasm_tree \<Rightarrow> node_id \<Rightarrow> string option" where
  "w_path t n = (if n = ROOT then Some ''/'' else w_path_walk (Suc (fcard (fmdom (t_edges t)))) t n [])"

fun w_resolve_loop :: "wasm_tree \<Rightarrow> node_id \<Rightarrow> string list \<Rightarrow> node_id option" where
  "w_resolve_loop t cur [] = Some cur"
| "w_resolve_loop t cur (c # cs) =
     (case find (\<lambda>(name, _, _). name = c) (w_readdir t cur) of
        Some entry \<Rightarrow> w_resolve_loop t (fst (snd entry)) cs
      | None \<Rightarrow> None)"

definition w_resolve :: "wasm_tree \<Rightarrow> string \<Rightarrow> node_id option" where
  "w_resolve t p =
     (let trimmed = trim_matches (CHR ''/'') p in
      if trimmed = [] then Some ROOT else w_resolve_loop t ROOT (split_on (CHR ''/'') trimmed))"

definition w_log_len :: "wasm_tree \<Rightarrow> nat" where
  "w_log_len t = length (t_log t)"

definition w_log_max_ts :: "wasm_tree \<Rightarrow> timestamp option" where
  "w_log_max_ts t = (if t_log t = [] then None else Some (op_ts (le_op (last (t_log t)))))"

definition w_child_named :: "wasm_tree \<Rightarrow> node_id \<Rightarrow> string \<Rightarrow> node_id option" where
  "w_child_named t parent name =
     map_option snd (find (\<lambda>(n, i). n = name \<and> \<not> w_is_trashed t i) (w_raw_children t parent))"

section \<open>The content map\<close>

definition W_MAX_VERSIONS :: nat where
  "W_MAX_VERSIONS = 32"

record w_version =
  wv_set_at_ms :: u64
  wv_cid :: string
  wv_size :: u64

record w_content =
  wc_cid :: string
  wc_size :: u64
  wc_mode :: u32
  wc_mtime_ms :: u64
  wc_versions :: "w_version list"
  wc_doc_id :: "string option"

type_synonym w_content_map = "(node_id, w_content) fmap"

definition wc_new :: "string \<Rightarrow> u64 \<Rightarrow> u32 \<Rightarrow> u64 \<Rightarrow> w_content" where
  "wc_new cid sz mode mtime_ms =
     \<lparr>wc_cid = cid, wc_size = sz, wc_mode = mode, wc_mtime_ms = mtime_ms, wc_versions = [], wc_doc_id = None\<rparr>"

definition wc_push_version :: "w_content \<Rightarrow> w_version \<Rightarrow> w_content" where
  "wc_push_version c v =
     (if wc_versions c \<noteq> [] \<and> wv_cid (last (wc_versions c)) = wv_cid v then c
      else
        (let vs = wc_versions c @ [v] in
         c\<lparr>wc_versions := (if length vs > W_MAX_VERSIONS then drop (length vs - W_MAX_VERSIONS) vs else vs)\<rparr>))"

definition wc_record :: "w_content \<Rightarrow> string \<Rightarrow> u64 \<Rightarrow> u64 \<Rightarrow> w_content \<times> bool" where
  "wc_record c cid sz mtime_ms =
     (if cid = wc_cid c then (c, False)
      else if \<not> (mtime_ms > wc_mtime_ms c \<or> mtime_ms = wc_mtime_ms c \<and> cid > wc_cid c) then
        (wc_push_version c \<lparr>wv_set_at_ms = mtime_ms, wv_cid = cid, wv_size = sz\<rparr>, False)
      else
        ((wc_push_version c \<lparr>wv_set_at_ms = wc_mtime_ms c, wv_cid = wc_cid c, wv_size = wc_size c\<rparr>)
           \<lparr>wc_cid := cid, wc_size := sz, wc_mtime_ms := mtime_ms\<rparr>, True))"

definition wc_restore :: "w_content \<Rightarrow> string \<Rightarrow> u64 \<Rightarrow> w_content \<times> bool" where
  "wc_restore c cid now_ms =
     (case find (\<lambda>v. wv_cid v = cid) (wc_versions c) of
        Some v \<Rightarrow>
          ((wc_push_version c \<lparr>wv_set_at_ms = wc_mtime_ms c, wv_cid = wc_cid c, wv_size = wc_size c\<rparr>)
             \<lparr>wc_cid := wv_cid v, wc_size := wv_size v, wc_mtime_ms := now_ms\<rparr>, True)
      | None \<Rightarrow> (c, False))"

definition wc_all_cids :: "w_content \<Rightarrow> string list" where
  "wc_all_cids c = remdups_adj (sort (wc_cid c # map wv_cid (wc_versions c)))"

definition w_content_get :: "w_content_map \<Rightarrow> node_id \<Rightarrow> w_content option" where
  "w_content_get m i = fmlookup m i"

definition w_content_len :: "w_content_map \<Rightarrow> nat" where
  "w_content_len m = fcard (fmdom m)"

definition w_content_all_cids :: "w_content_map \<Rightarrow> string list" where
  "w_content_all_cids m =
     remdups_adj (sort (concat (map (\<lambda>k. wc_all_cids (the (fmlookup m k))) (sorted_list_of_fset (fmdom m)))))"

fun w_content_apply :: "w_content_map \<Rightarrow> content_op \<Rightarrow> w_content_map" where
  "w_content_apply m (Set nid cid sz mode mtime_ms) =
     (case fmlookup m nid of
        Some c \<Rightarrow> fmupd nid (fst (wc_record (c\<lparr>wc_mode := mode\<rparr>) cid sz mtime_ms)) m
      | None \<Rightarrow> fmupd nid (wc_new cid sz mode mtime_ms) m)"
| "w_content_apply m (Restore nid cid now_ms) =
     (case fmlookup m nid of
        Some c \<Rightarrow> fmupd nid (fst (wc_restore c cid now_ms)) m
      | None \<Rightarrow> m)"
| "w_content_apply m (Remove nid) = fmdrop nid m"
| "w_content_apply m (SetDoc nid doc_id) =
     (case fmlookup m nid of
        Some c \<Rightarrow> fmupd nid (c\<lparr>wc_doc_id := Some doc_id\<rparr>) m
      | None \<Rightarrow> m)"

section \<open>The tree is the core's tree\<close>

lemma w_anc_walk_eq: "w_anc_walk k t a n = anc_walk k (t_edges t) a n"
  by (induction k arbitrary: n) (auto split: option.split)

lemma w_is_ancestor_eq [simp]: "w_is_ancestor t a n = is_ancestor t a n"
  by (simp add: w_is_ancestor_def is_ancestor_def edges_ancestor_def w_anc_walk_eq)

lemma w_children_eq:
  "w_children_remove t p x = t\<lparr>t_children := index_remove (t_children t) p x\<rparr>"
  "w_children_insert t p x = t\<lparr>t_children := index_insert (t_children t) p x\<rparr>"
proof -
  have "(case s of Some s \<Rightarrow> s | None \<Rightarrow> {||}) = (case s of None \<Rightarrow> {||} | Some s \<Rightarrow> s)" for s :: "'a fset option"
    by (cases s) simp_all
  then show "w_children_insert t p x = t\<lparr>t_children := index_insert (t_children t) p x\<rparr>"
    by (simp add: w_children_insert_def index_insert_def)
  show "w_children_remove t p x = t\<lparr>t_children := index_remove (t_children t) p x\<rparr>"
    by (cases "fmlookup (t_children t) p") (simp_all add: w_children_remove_def index_remove_def)
qed

lemma w_do_move_eq [simp]: "w_do_move t op = do_move t op"
  by (cases "fmlookup (t_edges t) (op_child op)")
    (simp_all add: w_do_move_def do_move_def Let_def w_children_eq unindex_def edge_of_def)

lemma w_undo_move_eq [simp]: "w_undo_move t e = undo_move t e"
  by (cases "fmlookup (t_edges t) (op_child (le_op e))"; cases "le_old e")
    (simp_all add: w_undo_move_def undo_move_def Let_def w_children_eq unindex_def)

lemma w_redo_eq: "w_redo e t = do_logged t (le_op e)"
  by (cases e) (simp add: w_redo_def do_logged_def split_beta Let_def)

text \<open>The binary search position, as a prefix and a suffix.\<close>

lemma partition_point:
  "take (length (takeWhile P xs)) xs = takeWhile P xs" "drop (length (takeWhile P xs)) xs = dropWhile P xs"
  "(length (takeWhile P xs) < length xs \<and> Q (xs ! length (takeWhile P xs))) =
    (dropWhile P xs \<noteq> [] \<and> Q (hd (dropWhile P xs)))"
  by (induction xs) auto

lemma w_apply_eq: "w_apply t op = integrate t op"
  unfolding w_apply_def integrate_def Let_def partition_point partition_point(3) [where Q = "\<lambda>e. op_ts (le_op e) = op_ts op"]
    before_def from_key_def entry_ts_def
  by (simp add: do_logged_def split_beta Let_def w_redo_eq [abs_def])

lemma w_queries [simp]:
  "w_is_trashed t n = is_trashed t n" "w_raw_children t p = raw_children t p" "w_defining_ts t n = defining_ts t n"
  "w_kind t n = kind_of t n" "w_rendered name ts = conflict_name name ts" "w_ranked t ids = ranked t ids"
proof -
  show ts: "w_defining_ts t n = defining_ts t n" for n
    by (simp add: w_defining_ts_def defining_ts_def entry_ts_def split: option.split)
  show "w_ranked t ids = ranked t ids"
    by (simp add: w_ranked_def ranked_def ts)
  show "w_is_trashed t n = is_trashed t n" "w_rendered name ts = conflict_name name ts" "w_kind t n = kind_of t n"
    by (simp_all add: w_is_trashed_def is_trashed_def w_rendered_def conflict_name_def short_def w_kind_def
        kind_of_def tree_edge_def)
  show "w_raw_children t p = raw_children t p"
    by (simp add: w_raw_children_def raw_children_def kids_def sorted_list_of_fset.rep_eq split: option.split)
qed

lemma w_by_name_eq: "w_by_name t p = group_by_name (listed_children t p)"
  by (simp add: w_by_name_def listed_children_def)

lemma enumerate_tail:
  "map (\<lambda>(i, ts, child). (if i = 0 then name else f ts, child, k child)) (enumerate (Suc n) xs)
     = map (\<lambda>(ts, child). (f ts, child, k child)) xs"
  by (induction xs arbitrary: n) auto

lemma w_render_eq: "w_render t g = render_group t g"
proof (cases g)
  case (Pair name ids)
  show ?thesis
  proof (cases "length ids = 1")
    case True
    then obtain c where "ids = [c]" by (auto simp: length_Suc_conv)
    then show ?thesis by (simp add: Pair w_render_def render_group_def)
  next
    case False
    then have "w_render t g =
        (case ranked t ids of [] \<Rightarrow> [] | (s, c) # losers \<Rightarrow> (name, c, kind_of t c) # render_losers t name losers)"
      by (auto simp: Pair w_render_def enumerate_tail [of name "w_rendered name" "kind_of t"]
          render_losers_def ranked_def sort_desc_def split: list.split)
    then show ?thesis by (simp add: Pair render_group_eq)
  qed
qed

lemma w_readdir_eq [simp]: "w_readdir t p = readdir t p"
  by (simp add: w_readdir_def readdir_def w_render_eq [abs_def] w_by_name_eq)

lemma w_named: "(\<lambda>(name :: string, _ :: node_id, _ :: node_kind). name = c) = (\<lambda>(name, _). name = c)"
  by auto

lemma w_resolve_loop_eq: "w_resolve_loop t c ns = resolve_from t c ns"
  by (induction ns arbitrary: c) (auto simp: w_named split: option.split)

lemma w_resolve_eq [simp]: "w_resolve t p = resolve t p"
  unfolding w_resolve_def resolve_def w_resolve_loop_eq ..

lemma w_path_eq [simp]: "w_path t n = path t n"
proof -
  have "w_path_walk k t n parts = map_option (\<lambda>ps. ''/'' @ join_with ''/'' ps) (path_walk k (t_edges t) n parts)" for k n parts
    by (induction k arbitrary: n parts) (auto simp: Let_def split: option.split)
  then show ?thesis
    by (simp add: w_path_def path_def del: w_path_walk.simps path_walk.simps)
qed

section \<open>The content map is the core's, less the conflict marks\<close>

definition erase_version :: "version \<Rightarrow> w_version" where
  "erase_version v = \<lparr>wv_set_at_ms = v_set_at_ms v, wv_cid = v_cid v, wv_size = v_size v\<rparr>"

definition erase :: "file_content \<Rightarrow> w_content" where
  "erase c =
     \<lparr>wc_cid = fc_cid c, wc_size = fc_size c, wc_mode = fc_mode c, wc_mtime_ms = fc_mtime_ms c,
      wc_versions = map erase_version (fc_versions c), wc_doc_id = fc_doc_id c\<rparr>"

lemma erase_version_simps [simp]:
  "wv_cid (erase_version v) = v_cid v" "wv_size (erase_version v) = v_size v"
  "wv_set_at_ms (erase_version v) = v_set_at_ms v"
  by (simp_all add: erase_version_def)

lemma erase_simps [simp]:
  "wc_cid (erase c) = fc_cid c" "wc_size (erase c) = fc_size c" "wc_mode (erase c) = fc_mode c"
  "wc_mtime_ms (erase c) = fc_mtime_ms c" "wc_doc_id (erase c) = fc_doc_id c"
  "wc_versions (erase c) = map erase_version (fc_versions c)"
  "erase (fc_new cid sz mode mtime) = wc_new cid sz mode mtime"
  by (simp_all add: erase_def fc_new_def wc_new_def)

lemma erase_updates [simp]:
  "erase (c\<lparr>fc_mode := m\<rparr>) = (erase c)\<lparr>wc_mode := m\<rparr>"
  "erase (c\<lparr>fc_doc_id := x\<rparr>) = (erase c)\<lparr>wc_doc_id := x\<rparr>"
  "erase (c\<lparr>fc_cid := cid, fc_size := sz, fc_mtime_ms := mtime\<rparr>)
    = (erase c)\<lparr>wc_cid := cid, wc_size := sz, wc_mtime_ms := mtime\<rparr>"
  by (simp_all add: erase_def)

lemma erase_push_version: "erase (push_version c v) = wc_push_version (erase c) (erase_version v)"
proof (cases "fc_versions c = []")
  case False
  then show ?thesis
    by (simp add: push_version_def wc_push_version_def Let_def MAX_VERSIONS_def W_MAX_VERSIONS_def last_map
        drop_map erase_def)
qed (simp add: push_version_def wc_push_version_def MAX_VERSIONS_def W_MAX_VERSIONS_def erase_def)

lemma erase_record: "erase (fst (fc_record c cid sz mtime)) = fst (wc_record (erase c) cid sz mtime)"
  by (simp add: fc_record_def wc_record_def erase_push_version erase_version_def)

lemma erase_restore: "erase (fst (fc_restore c cid now)) = fst (wc_restore (erase c) cid now)"
proof -
  have "find (\<lambda>v. wv_cid v = cid) (map erase_version vs)
      = map_option erase_version (find (\<lambda>v. v_cid v = cid) vs)" for vs
    by (induction vs) simp_all
  then show ?thesis
    by (simp add: fc_restore_def wc_restore_def erase_push_version erase_version_def split: option.split)
qed

lemma w_content_apply_eq: "w_content_apply (fmmap erase m) op = fmmap erase (content_apply m op)"
  by (cases op) (simp_all add: erase_record erase_restore fmmap_fmupd split: option.split)

lemma w_content_all_cids_eq: "w_content_all_cids (fmmap erase m) = content_all_cids m"
proof -
  have "wc_all_cids (erase c) = fc_all_cids c" for c
    by (simp add: wc_all_cids_def fc_all_cids_def comp_def del: sort_key_simps)
  moreover have "k |\<in>| fmdom m \<Longrightarrow> the (map_option erase (fmlookup m k)) = erase (the (fmlookup m k))" for k
    by (auto simp: fmlookup_dom_iff)
  ultimately have "map (\<lambda>k. wc_all_cids (the (fmlookup (fmmap erase m) k))) (sorted_list_of_fset (fmdom m))
      = map (fc_all_cids \<circ> snd) (content_entries m)"
    by (simp add: content_entries_def sorted_list_of_fset.rep_eq)
  then show ?thesis
    by (simp add: w_content_all_cids_def content_all_cids_def)
qed

section \<open>Property\<close>


end
