(* ===== verification/WasmDrive.thy ===== *)
theory WasmDrive
  imports WasmCrdt TreeProps
begin

text \<open>
  The browser's handle \<open>DriveCrdt\<close>, \<open>crates/ce-drive-wasm/src/lib.rs\<close>: a replica with its clock, its
  tree and its content map, fed with encoded operations and minting its own. The encoding (serde_json)
  is an argument, a pair of functions per operation type; \<open>ctr\<close> is what the process-wide counter of
  \<open>fresh_node_id\<close> returns. A failing call returns the error with the state it leaves.
\<close>

section \<open>Data\<close>

type_synonym bytes = "8 word list"

record codec =
  enc_move :: "move_op \<Rightarrow> bytes option"
  dec_move :: "bytes \<Rightarrow> move_op option"
  enc_content :: "stamped_op \<Rightarrow> bytes option"
  dec_content :: "bytes \<Rightarrow> stamped_op option"

record drive_crdt =
  cr_replica :: replica_id
  cr_lamport :: u64
  cr_tree :: wasm_tree
  cr_content :: w_content_map

record w_dir_entry =
  wde_name :: string
  wde_node_id :: node_id
  wde_is_dir :: bool
  wde_content :: "w_content option"

record mint_result =
  mr_node_id :: node_id
  mr_move_op :: "bytes option"
  mr_content_op :: "bytes option"

datatype wasm_error =
    DecodeMove
  | DecodeContent
  | EncodeOp
  | WNoSuchDirectory string
  | WNotADirectory string
  | WAlreadyExists string string
  | WExistsAsDirectory string
  | WNoSuchPath string
  | WCannotMoveRoot
  | WCannotDeleteRoot

type_synonym 'a wasm_result = "drive_crdt \<times> (wasm_error + 'a)"

definition wd_new :: "replica_id \<Rightarrow> drive_crdt" where
  "wd_new rep = \<lparr>cr_replica = rep, cr_lamport = 0, cr_tree = w_new, cr_content = fmempty\<rparr>"

definition wd_tick :: "drive_crdt \<Rightarrow> drive_crdt \<times> timestamp" where
  "wd_tick c = (let l = cr_lamport c + 1 in (c\<lparr>cr_lamport := l\<rparr>, Timestamp l (cr_replica c)))"

definition wd_observe :: "drive_crdt \<Rightarrow> timestamp \<Rightarrow> drive_crdt" where
  "wd_observe c ts = (if lamport ts > cr_lamport c then c\<lparr>cr_lamport := lamport ts\<rparr> else c)"

definition wd_fresh_node_id :: "timestamp \<Rightarrow> u64 \<Rightarrow> node_id" where
  "wd_fresh_node_id ts ctr =
     hex_padded 12 (lamport ts) @ ''-'' @ take_chars 8 (replica ts) @ ''-'' @ hex_padded 8 ctr"

section \<open>Ingesting operations\<close>

definition wd_apply_move_op :: "codec \<Rightarrow> drive_crdt \<Rightarrow> bytes \<Rightarrow> bool wasm_result" where
  "wd_apply_move_op K c b =
     (case dec_move K b of
        None \<Rightarrow> (c, Inl DecodeMove)
      | Some op \<Rightarrow>
          (let c1 = wd_observe c (op_ts op) in (c1\<lparr>cr_tree := w_apply (cr_tree c1) op\<rparr>, Inr True)))"

fun wd_apply_move_ops :: "codec \<Rightarrow> drive_crdt \<Rightarrow> bytes list \<Rightarrow> nat \<Rightarrow> nat wasm_result" where
  "wd_apply_move_ops K c [] n = (c, Inr n)"
| "wd_apply_move_ops K c (b # bs) n =
     (case wd_apply_move_op K c b of
        (c1, Inl e) \<Rightarrow> (c1, Inl e)
      | (c1, Inr applied) \<Rightarrow> wd_apply_move_ops K c1 bs (if applied then n + 1 else n))"

definition wd_apply_content_op :: "codec \<Rightarrow> drive_crdt \<Rightarrow> bytes \<Rightarrow> bool wasm_result" where
  "wd_apply_content_op K c b =
     (case dec_content K b of
        None \<Rightarrow> (c, Inl DecodeContent)
      | Some s \<Rightarrow>
          (let c1 = wd_observe c (s_ts s) in
           (c1\<lparr>cr_content := w_content_apply (cr_content c1) (s_op s)\<rparr>, Inr True)))"

fun wd_apply_content_ops :: "codec \<Rightarrow> drive_crdt \<Rightarrow> bytes list \<Rightarrow> nat \<Rightarrow> nat wasm_result" where
  "wd_apply_content_ops K c [] n = (c, Inr n)"
| "wd_apply_content_ops K c (b # bs) n =
     (case wd_apply_content_op K c b of
        (c1, Inl e) \<Rightarrow> (c1, Inl e)
      | (c1, Inr applied) \<Rightarrow> wd_apply_content_ops K c1 bs (if applied then n + 1 else n))"

section \<open>Queries\<close>

definition wd_resolve_dir :: "drive_crdt \<Rightarrow> string \<Rightarrow> wasm_error + node_id" where
  "wd_resolve_dir c p =
     res_bind (ok_or (WNoSuchDirectory p) (w_resolve (cr_tree c) p)) (\<lambda>n.
       if n \<noteq> ROOT \<and> map_option e_kind (w_edge (cr_tree c) n) \<noteq> Some Dir
       then Inl (WNotADirectory p) else Inr n)"

definition wd_list :: "drive_crdt \<Rightarrow> string \<Rightarrow> wasm_error + w_dir_entry list" where
  "wd_list c p =
     res_bind (wd_resolve_dir c p) (\<lambda>dir.
       Inr (map (\<lambda>(name, i, kind). \<lparr>wde_name = name, wde_node_id = i, wde_is_dir = (kind = Dir),
                   wde_content = w_content_get (cr_content c) i\<rparr>) (w_readdir (cr_tree c) dir)))"

definition wd_resolve :: "drive_crdt \<Rightarrow> string \<Rightarrow> node_id option" where
  "wd_resolve c p = w_resolve (cr_tree c) p"

definition wd_content_of :: "drive_crdt \<Rightarrow> node_id \<Rightarrow> w_content option" where
  "wd_content_of c i = w_content_get (cr_content c) i"

definition wd_path_of :: "drive_crdt \<Rightarrow> node_id \<Rightarrow> string option" where
  "wd_path_of c i = w_path (cr_tree c) i"

definition wd_conflicts :: "drive_crdt \<Rightarrow> string \<Rightarrow> wasm_error + name_conflict list" where
  "wd_conflicts c p = res_bind (wd_resolve_dir c p) (\<lambda>dir. Inr (w_conflicts (cr_tree c) dir))"

definition wd_all_cids :: "drive_crdt \<Rightarrow> string list" where
  "wd_all_cids c = w_content_all_cids (cr_content c)"

definition wd_move_op_count :: "drive_crdt \<Rightarrow> nat" where
  "wd_move_op_count c = w_log_len (cr_tree c)"

definition wd_content_count :: "drive_crdt \<Rightarrow> nat" where
  "wd_content_count c = w_content_len (cr_content c)"

section \<open>Minting operations\<close>

text \<open>A stamped move is encoded before it is applied; a failed encoding leaves the tree as it was.\<close>

definition wd_apply_minted :: "codec \<Rightarrow> drive_crdt \<Rightarrow> move_op \<Rightarrow> bytes wasm_result" where
  "wd_apply_minted K c op =
     (case enc_move K op of
        None \<Rightarrow> (c, Inl EncodeOp)
      | Some b \<Rightarrow> (c\<lparr>cr_tree := w_apply (cr_tree c) op\<rparr>, Inr b))"

definition wd_mint_content :: "codec \<Rightarrow> drive_crdt \<Rightarrow> content_op \<Rightarrow> bytes wasm_result" where
  "wd_mint_content K c op =
     (let (c1, ts) = wd_tick c; stamped = \<lparr>s_ts = ts, s_op = op\<rparr> in
      (case enc_content K stamped of
         None \<Rightarrow> (c1, Inl EncodeOp)
       | Some b \<Rightarrow> (c1\<lparr>cr_content := w_content_apply (cr_content c1) op\<rparr>, Inr b)))"

definition wd_mkdir :: "codec \<Rightarrow> drive_crdt \<Rightarrow> u64 \<Rightarrow> string \<Rightarrow> string \<Rightarrow> mint_result wasm_result" where
  "wd_mkdir K c ctr parent_path name =
     (case wd_resolve_dir c parent_path of
        Inl e \<Rightarrow> (c, Inl e)
      | Inr parent \<Rightarrow>
          if w_child_named (cr_tree c) parent name \<noteq> None then (c, Inl (WAlreadyExists name parent_path))
          else
            (let (c1, ts) = wd_tick c; i = wd_fresh_node_id ts ctr in
             (case wd_apply_minted K c1 \<lparr>op_ts = ts, op_child = i, op_new_parent = parent,
                      op_new_name = name, op_kind = Dir\<rparr> of
                (c2, Inl e) \<Rightarrow> (c2, Inl e)
              | (c2, Inr b) \<Rightarrow> (c2, Inr \<lparr>mr_node_id = i, mr_move_op = Some b, mr_content_op = None\<rparr>))))"

definition wd_add_file ::
    "codec \<Rightarrow> drive_crdt \<Rightarrow> u64 \<Rightarrow> string \<Rightarrow> string \<Rightarrow> string \<Rightarrow> u64 \<Rightarrow> u32 \<Rightarrow> u64 \<Rightarrow> mint_result wasm_result" where
  "wd_add_file K c ctr parent_path name cid sz mode mtime_ms =
     (case wd_resolve_dir c parent_path of
        Inl e \<Rightarrow> (c, Inl e)
      | Inr parent \<Rightarrow>
          (case w_child_named (cr_tree c) parent name of
             Some existing \<Rightarrow>
               if map_option e_kind (w_edge (cr_tree c) existing) = Some File then
                 (case wd_mint_content K c (Set existing cid sz mode mtime_ms) of
                    (c1, Inl e) \<Rightarrow> (c1, Inl e)
                  | (c1, Inr b) \<Rightarrow>
                      (c1, Inr \<lparr>mr_node_id = existing, mr_move_op = None, mr_content_op = Some b\<rparr>))
               else (c, Inl (WExistsAsDirectory name))
           | None \<Rightarrow>
               (let (c1, ts) = wd_tick c; i = wd_fresh_node_id ts ctr in
                (case wd_apply_minted K c1 \<lparr>op_ts = ts, op_child = i, op_new_parent = parent,
                         op_new_name = name, op_kind = File\<rparr> of
                   (c2, Inl e) \<Rightarrow> (c2, Inl e)
                 | (c2, Inr mb) \<Rightarrow>
                     (case wd_mint_content K c2 (Set i cid sz mode mtime_ms) of
                        (c3, Inl e) \<Rightarrow> (c3, Inl e)
                      | (c3, Inr cb) \<Rightarrow>
                          (c3, Inr \<lparr>mr_node_id = i, mr_move_op = Some mb, mr_content_op = Some cb\<rparr>))))))"

definition wd_set_content ::
    "codec \<Rightarrow> drive_crdt \<Rightarrow> node_id \<Rightarrow> string \<Rightarrow> u64 \<Rightarrow> u32 \<Rightarrow> u64 \<Rightarrow> bytes wasm_result" where
  "wd_set_content K c i cid sz mode mtime_ms = wd_mint_content K c (Set i cid sz mode mtime_ms)"

definition wd_move_node :: "codec \<Rightarrow> drive_crdt \<Rightarrow> string \<Rightarrow> string \<Rightarrow> string \<Rightarrow> bytes wasm_result" where
  "wd_move_node K c src_path dst_parent_path dst_name =
     (case w_resolve (cr_tree c) src_path of
        None \<Rightarrow> (c, Inl (WNoSuchPath src_path))
      | Some node \<Rightarrow>
          if node = ROOT then (c, Inl WCannotMoveRoot)
          else
            (case wd_resolve_dir c dst_parent_path of
               Inl e \<Rightarrow> (c, Inl e)
             | Inr dst_parent \<Rightarrow>
                 (let (c1, ts) = wd_tick c in
                  wd_apply_minted K c1 \<lparr>op_ts = ts, op_child = node, op_new_parent = dst_parent,
                    op_new_name = dst_name, op_kind = w_kind (cr_tree c) node\<rparr>)))"

definition wd_remove :: "codec \<Rightarrow> drive_crdt \<Rightarrow> string \<Rightarrow> bytes wasm_result" where
  "wd_remove K c p =
     (case w_resolve (cr_tree c) p of
        None \<Rightarrow> (c, Inl (WNoSuchPath p))
      | Some node \<Rightarrow>
          if node = ROOT then (c, Inl WCannotDeleteRoot)
          else
            (let name = (case w_edge (cr_tree c) node of Some e \<Rightarrow> e_name e | None \<Rightarrow> []);
                 (c1, ts) = wd_tick c in
             wd_apply_minted K c1 \<lparr>op_ts = ts, op_child = node, op_new_parent = TRASH,
               op_new_name = name, op_kind = w_kind (cr_tree c) node\<rparr>))"

section \<open>Lemmas\<close>

text \<open>What the encoding is documented to do: decoding returns the operation that was encoded.\<close>

definition codec_ok :: "codec \<Rightarrow> bool" where
  "codec_ok K \<longleftrightarrow>
     (\<forall>op b. enc_move K op = Some b \<longrightarrow> dec_move K b = Some op) \<and>
     (\<forall>s b. enc_content K s = Some b \<longrightarrow> dec_content K b = Some s)"

lemma wd_observe_frame [simp]:
  "cr_tree (wd_observe c ts) = cr_tree c" "cr_content (wd_observe c ts) = cr_content c"
  "cr_replica (wd_observe c ts) = cr_replica c" "cr_lamport (wd_observe c ts) = max (cr_lamport c) (lamport ts)"
  by (auto simp: wd_observe_def max_def)

lemma wd_tick_simps [simp]:
  "cr_tree (fst (wd_tick c)) = cr_tree c" "cr_content (fst (wd_tick c)) = cr_content c"
  "snd (wd_tick c) = Timestamp (cr_lamport c + 1) (cr_replica c)"
  by (simp_all add: wd_tick_def Let_def)

text \<open>Bulk ingestion is the sequence of decoded operations, applied in arrival order.\<close>

lemma wd_apply_move_ops_Inr:
  "wd_apply_move_ops K c bs n = (c', Inr m) \<Longrightarrow>
    m = n + length bs \<and> (\<forall>b \<in> set bs. dec_move K b \<noteq> None) \<and>
    cr_tree c' = apply_all (map (\<lambda>b. the (dec_move K b)) bs) (cr_tree c) \<and> cr_content c' = cr_content c"
proof (induction bs arbitrary: c n)
  case (Cons b bs)
  obtain op where op: "dec_move K b = Some op"
    using Cons.prems by (auto simp: wd_apply_move_op_def split: option.splits)
  let ?c1 = "(wd_observe c (op_ts op))\<lparr>cr_tree := w_apply (cr_tree c) op\<rparr>"
  have "wd_apply_move_ops K ?c1 bs (n + 1) = (c', Inr m)"
    using Cons.prems op by (simp add: wd_apply_move_op_def Let_def)
  from Cons.IH [OF this] op show ?case
    by (simp add: w_apply_eq)
qed simp

lemma wd_apply_content_ops_Inr:
  "wd_apply_content_ops K c bs n = (c', Inr m) \<Longrightarrow>
    m = n + length bs \<and> (\<forall>b \<in> set bs. dec_content K b \<noteq> None) \<and> cr_tree c' = cr_tree c \<and>
    cr_content c' = fold (\<lambda>b m. w_content_apply m (s_op (the (dec_content K b)))) bs (cr_content c)"
proof (induction bs arbitrary: c n)
  case (Cons b bs)
  obtain s where s: "dec_content K b = Some s"
    using Cons.prems by (auto simp: wd_apply_content_op_def split: option.splits)
  let ?c1 = "(wd_observe c (s_ts s))\<lparr>cr_content := w_content_apply (cr_content c) (s_op s)\<rparr>"
  have "wd_apply_content_ops K ?c1 bs (n + 1) = (c', Inr m)"
    using Cons.prems s by (simp add: wd_apply_content_op_def Let_def)
  from Cons.IH [OF this] s show ?case by simp
qed simp

text \<open>A minted operation's bytes decode to what was applied locally.\<close>

lemma wd_apply_minted_Inr:
  "wd_apply_minted K c op = (c', Inr b) \<longleftrightarrow>
    enc_move K op = Some b \<and> c' = c\<lparr>cr_tree := w_apply (cr_tree c) op\<rparr>"
  by (auto simp: wd_apply_minted_def split: option.splits)

lemma wd_mint_content_Inr:
  "wd_mint_content K c op = (c', Inr b) \<Longrightarrow>
    \<exists>ts. enc_content K \<lparr>s_ts = ts, s_op = op\<rparr> = Some b \<and> cr_tree c' = cr_tree c \<and>
      cr_content c' = w_content_apply (cr_content c) op"
  by (auto simp: wd_mint_content_def wd_tick_def Let_def split: option.splits)

text \<open>Replaying bytes on a handle, as a peer does with what it receives.\<close>

definition replays :: "codec \<Rightarrow> drive_crdt \<Rightarrow> bytes list \<Rightarrow> bytes list \<Rightarrow> drive_crdt \<Rightarrow> bool" where
  "replays K c ms cs c' \<longleftrightarrow>
     (\<forall>ts \<in> set ms. dec_move K ts \<noteq> None) \<and> (\<forall>b \<in> set cs. dec_content K b \<noteq> None) \<and>
     cr_tree c' = fold (\<lambda>b t. w_apply t (the (dec_move K b))) ms (cr_tree c) \<and>
     cr_content c' = fold (\<lambda>b m. w_content_apply m (s_op (the (dec_content K b)))) cs (cr_content c)"

lemma replays_minted:
  "codec_ok K \<Longrightarrow> wd_apply_minted K c op = (c', Inr b) \<Longrightarrow> replays K c [b] [] c'"
  by (auto simp: codec_ok_def wd_apply_minted_Inr replays_def)

lemma replays_content:
  "codec_ok K \<Longrightarrow> wd_mint_content K c op = (c', Inr b) \<Longrightarrow> replays K c [] [b] c'"
  by (drule wd_mint_content_Inr) (auto simp: codec_ok_def replays_def)

lemma replays_trans:
  "replays K c ms cs c1 \<Longrightarrow> replays K c1 ms' cs' c2 \<Longrightarrow> replays K c (ms @ ms') (cs @ cs') c2"
  by (auto simp: replays_def)

lemma replays_tick: "replays K (fst (wd_tick c)) ms cs c' = replays K c ms cs c'"
  by (simp add: replays_def)

lemma replays_peer:
  assumes "replays K c ms cs c'" and "cr_tree p = cr_tree c" and "cr_content p = cr_content c"
  shows "\<exists>p1 p2. wd_apply_move_ops K p ms 0 = (p1, Inr (length ms)) \<and>
    wd_apply_content_ops K p1 cs 0 = (p2, Inr (length cs)) \<and> cr_tree p2 = cr_tree c' \<and> cr_content p2 = cr_content c'"
proof -
  have "snd (wd_apply_move_ops K p ms n) = Inr (n + length ms)"
    if "\<forall>b \<in> set ms. dec_move K b \<noteq> None" for n p
    using that by (induction ms arbitrary: p n) (auto simp: wd_apply_move_op_def Let_def)
  then obtain p1 where p1: "wd_apply_move_ops K p ms 0 = (p1, Inr (length ms))"
    using assms(1) by (metis add_0 replays_def prod.collapse)
  have "snd (wd_apply_content_ops K p1 cs n) = Inr (n + length cs)"
    if "\<forall>b \<in> set cs. dec_content K b \<noteq> None" for n p1
    using that by (induction cs arbitrary: p1 n) (auto simp: wd_apply_content_op_def Let_def)
  then obtain p2 where p2: "wd_apply_content_ops K p1 cs 0 = (p2, Inr (length cs))"
    using assms(1) by (metis add_0 replays_def prod.collapse)
  have "apply_all (map (\<lambda>b. the (dec_move K b)) ms) t = fold (\<lambda>b t. w_apply t (the (dec_move K b))) ms t" for t
    by (induction ms arbitrary: t) (simp_all add: w_apply_eq)
  then have "cr_tree p2 = cr_tree c' \<and> cr_content p2 = cr_content c'"
    using wd_apply_move_ops_Inr [OF p1] wd_apply_content_ops_Inr [OF p2] assms by (simp add: replays_def)
  with p1 p2 show ?thesis by blast
qed

section \<open>Publishing\<close>

text \<open>A successful local call: the state it leaves and the encoded operations it asks to publish.\<close>

definition opt_list :: "'a option \<Rightarrow> 'a list" where
  "opt_list x = (case x of None \<Rightarrow> [] | Some y \<Rightarrow> [y])"

inductive wasm_publish :: "codec \<Rightarrow> drive_crdt \<Rightarrow> drive_crdt \<Rightarrow> bytes list \<Rightarrow> bytes list \<Rightarrow> bool" for K where
  pub_mkdir: "wd_mkdir K c ctr p n = (c', Inr r) \<Longrightarrow>
    wasm_publish K c c' (opt_list (mr_move_op r)) (opt_list (mr_content_op r))"
| pub_add_file: "wd_add_file K c ctr p n cid sz mode mtime = (c', Inr r) \<Longrightarrow>
    wasm_publish K c c' (opt_list (mr_move_op r)) (opt_list (mr_content_op r))"
| pub_set_content: "wd_set_content K c i cid sz mode mtime = (c', Inr b) \<Longrightarrow> wasm_publish K c c' [] [b]"
| pub_move: "wd_move_node K c src dst n = (c', Inr b) \<Longrightarrow> wasm_publish K c c' [b] []"
| pub_remove: "wd_remove K c p = (c', Inr b) \<Longrightarrow> wasm_publish K c c' [b] []"

lemma wasm_publish_replays: "wasm_publish K c c' ms cs \<Longrightarrow> codec_ok K \<Longrightarrow> replays K c ms cs c'"
proof (induction rule: wasm_publish.induct)
  case (pub_mkdir c ctr p n c' r)
  then obtain op b where "wd_apply_minted K (fst (wd_tick c)) op = (c', Inr b)"
    and "mr_move_op r = Some b" and "mr_content_op r = None"
    by (simp add: wd_mkdir_def split_beta Let_def split: sum.splits if_splits)
      (metis prod.collapse mint_result.select_convs(2,3))
  with replays_minted [OF pub_mkdir(2), of "fst (wd_tick c)"] show ?case
    by (simp add: replays_tick opt_list_def)
next
  case (pub_add_file c ctr p n cid sz mode mtime c' r)
  from pub_add_file(1) consider
    (edit) op b where "wd_mint_content K c op = (c', Inr b)" "mr_move_op r = None" "mr_content_op r = Some b"
  | (new) op c1 mb cop cb where "wd_apply_minted K (fst (wd_tick c)) op = (c1, Inr mb)"
      "wd_mint_content K c1 cop = (c', Inr cb)" "mr_move_op r = Some mb" "mr_content_op r = Some cb"
    by (simp add: wd_add_file_def split_beta Let_def split: sum.splits if_splits option.splits)
      (metis prod.collapse mint_result.select_convs(2,3))+
  then show ?case
  proof cases
    case edit
    with replays_content [OF pub_add_file(2)] show ?thesis by (simp add: opt_list_def)
  next
    case new
    from new have "replays K c [mb] [] c1" and "replays K c1 [] [cb] c'"
      using replays_minted [OF pub_add_file(2), of "fst (wd_tick c)"] replays_content [OF pub_add_file(2)]
      by (auto simp: replays_tick)
    from replays_trans [OF this] new show ?thesis by (simp add: opt_list_def)
  qed
next
  case (pub_set_content c i cid sz mode mtime c' b)
  with replays_content show ?case by (simp add: wd_set_content_def)
next
  case (pub_move c src dst n c' b)
  then obtain op where "wd_apply_minted K (fst (wd_tick c)) op = (c', Inr b)"
    by (auto simp: wd_move_node_def split_beta Let_def split: sum.splits if_splits prod.splits option.splits)
  with replays_minted [OF pub_move(2), of "fst (wd_tick c)"] show ?case by (simp add: replays_tick)
next
  case (pub_remove c p c' b)
  then obtain op where "wd_apply_minted K (fst (wd_tick c)) op = (c', Inr b)"
    by (auto simp: wd_remove_def split_beta Let_def split: if_splits prod.splits option.splits)
  with replays_minted [OF pub_remove(2), of "fst (wd_tick c)"] show ?case by (simp add: replays_tick)
qed

section \<open>Properties\<close>

text \<open>
  C36. What a browser device publishes is what it did: on a peer with the same tree and content, ingesting
  the encoded moves and then the encoded content operations of a successful \<open>mkdir\<close>, \<open>addFile\<close>,
  \<open>setContent\<close>, \<open>move\<close> or \<open>remove\<close> succeeds, counts every operation, and leaves the peer with the tree
  and the content of the device that made the call.
\<close>

theorem published_ops_replay:
  assumes "wasm_publish K c c' ms cs" and "codec_ok K"
    and "cr_tree peer = cr_tree c" and "cr_content peer = cr_content c"
  shows "\<exists>p1 p2. wd_apply_move_ops K peer ms 0 = (p1, Inr (length ms)) \<and>
    wd_apply_content_ops K p1 cs 0 = (p2, Inr (length cs)) \<and>
    cr_tree p2 = cr_tree c' \<and> cr_content p2 = cr_content c'"
  by (rule replays_peer [OF wasm_publish_replays [OF assms(1,2)] assms(3,4)])

text \<open>A concrete encoding for the scenario: a table from operations to bytes and back.\<close>

definition table_codec :: "(move_op \<times> bytes) list \<Rightarrow> (stamped_op \<times> bytes) list \<Rightarrow> codec" where
  "table_codec ms cs =
     \<lparr>enc_move = map_of ms, dec_move = map_of (map prod.swap ms),
      enc_content = map_of cs, dec_content = map_of (map prod.swap cs)\<rparr>"

definition web_file :: node_id where "web_file = ''000000000001-web1-00000000''"

definition web_codec :: codec where
  "web_codec =
     table_codec
       [(mk 1 ''web1'' web_file ROOT ''a.md'' File, [1]), (mk 1 ''web2'' ''n2'' ROOT ''pics'' Dir, [2]),
        (mk 2 ''web1'' web_file ''n2'' ''b.md'' File, [3])]
       [(\<lparr>s_ts = Timestamp 2 ''web1'', s_op = Set web_file ''c1'' 3 0 7\<rparr>, [1]),
        (\<lparr>s_ts = Timestamp 3 ''web1'', s_op = Remove web_file\<rparr>, [2])]"

definition web_added :: "mint_result wasm_result" where
  "web_added = wd_add_file web_codec (wd_new ''web1'') 0 ''/'' ''a.md'' ''c1'' 3 0 7"

theorem published_ops_replay_witness:
  "\<exists>p1 p2. wd_apply_move_ops web_codec (wd_new ''web2'') [[1]] 0 = (p1, Inr 1) \<and>
    wd_apply_content_ops web_codec p1 [[1]] 0 = (p2, Inr 1) \<and>
    cr_tree p2 = cr_tree (fst web_added) \<and> cr_content p2 = cr_content (fst web_added)"
proof -
  have res: "snd web_added = Inr \<lparr>mr_node_id = web_file, mr_move_op = Some [1], mr_content_op = Some [1]\<rparr>"
    by code_simp
  then have "wd_add_file web_codec (wd_new ''web1'') 0 ''/'' ''a.md'' ''c1'' 3 0 7
      = (fst web_added, Inr \<lparr>mr_node_id = web_file, mr_move_op = Some [1], mr_content_op = Some [1]\<rparr>)"
    by (metis web_added_def prod.collapse)
  from pub_add_file [OF this] have pub: "wasm_publish web_codec (wd_new ''web1'') (fst web_added) [[1]] [[1]]"
    by (simp add: opt_list_def)
  have "codec_ok web_codec"
    by (simp add: codec_ok_def web_codec_def table_codec_def mk_def)
  from published_ops_replay [OF pub this, of "wd_new ''web2''"] show ?thesis
    by (simp add: wd_new_def)
qed

text \<open>
  Browser trees converge: two devices that ingest the same set of encoded moves, each in its own
  order and with any repetitions, have the same log and edges and answer \<open>list\<close>, \<open>resolve\<close>, \<open>pathOf\<close> and
  \<open>moveOpCount\<close> alike.
\<close>

theorem browser_trees_converge:
  assumes "wd_apply_move_ops K (wd_new r) bs 0 = (c, Inr n)" and "wd_apply_move_ops K (wd_new q) ds 0 = (d, Inr m)"
    and "set bs = set ds" and "inj_on op_ts ((\<lambda>b. the (dec_move K b)) ` set bs)"
  shows "t_log (cr_tree c) = t_log (cr_tree d) \<and> t_edges (cr_tree c) = t_edges (cr_tree d) \<and>
    wd_list c p = wd_list d p \<and> wd_resolve c p = wd_resolve d p \<and> wd_path_of c i = wd_path_of d i \<and>
    wd_move_op_count c = wd_move_op_count d"
proof -
  let ?ops = "map (\<lambda>b. the (dec_move K b))"
  have fields: "cr_tree c = apply_all (?ops bs) tree_new" "cr_tree d = apply_all (?ops ds) tree_new"
    "cr_content c = fmempty" "cr_content d = fmempty"
    using wd_apply_move_ops_Inr [OF assms(1)] wd_apply_move_ops_Inr [OF assms(2)]
    by (simp_all add: wd_new_def w_new_def tree_new_def)
  have V: "tree_view (cr_tree c) = tree_view (cr_tree d)"
    using tree.converges [of "?ops bs" "?ops ds"] assms(3,4) by (simp add: fields apply_all_def)
  note F = tree_view_fields [OF V] tree_view_readdir [OF V] tree_view_resolve [OF V]
  have "wd_resolve_dir c p = wd_resolve_dir d p"
    by (simp add: wd_resolve_dir_def F w_edge_def)
  then show ?thesis
    by (simp add: F fields(3,4) wd_list_def wd_resolve_def wd_path_of_def wd_move_op_count_def w_log_len_def)
qed

theorem browser_trees_converge_witness:
  "\<exists>c d. wd_apply_move_ops web_codec (wd_new ''web1'') [[1], [2], [3]] 0 = (c, Inr 3) \<and>
     wd_apply_move_ops web_codec (wd_new ''web2'') [[3], [1], [2], [1]] 0 = (d, Inr 4) \<and>
     wd_list c ''/pics'' = wd_list d ''/pics'' \<and> wd_resolve c ''/pics/b.md'' = Some web_file"
proof -
  let ?a = "wd_apply_move_ops web_codec (wd_new ''web1'') [[1], [2], [3]] 0"
  let ?b = "wd_apply_move_ops web_codec (wd_new ''web2'') [[3], [1], [2], [1]] 0"
  have "snd ?a = Inr 3" and "snd ?b = Inr 4" and r: "wd_resolve (fst ?a) ''/pics/b.md'' = Some web_file"
    by code_simp+
  then have runs: "?a = (fst ?a, Inr 3)" "?b = (fst ?b, Inr 4)"
    by (metis prod.collapse)+
  have same: "set [[1], [2], [3] :: bytes] = set [[3], [1], [2], [1]]" by auto
  have "inj_on op_ts ((\<lambda>b. the (dec_move web_codec b)) ` set [[1], [2], [3] :: bytes])"
    by (simp add: web_codec_def table_codec_def mk_def inj_on_def)
  from browser_trees_converge [OF runs same this] runs r show ?thesis
    by blast
qed

text \<open>
  Content in the browser depends on the order of arrival: \<open>applyContentOp\<close> applies an operation when
  it comes and does not look at its timestamp, so a removal stamped later than the write it deletes loses
  when it arrives first, and two devices with the same operations disagree.
\<close>

theorem browser_content_by_arrival:
  "wd_content_of (fst (wd_apply_content_ops web_codec (wd_new ''web2'') [[1], [2]] 0)) web_file = None \<and>
   map_option wc_cid (wd_content_of (fst (wd_apply_content_ops web_codec (wd_new ''web2'') [[2], [1]] 0)) web_file)
     = Some ''c1''"
  by code_simp

end
