(* ===== verification/DirWalk.thy ===== *)
theory DirWalk
  imports DriveOpsProps
begin

text \<open>
  Walking a drive by path, as the search index and the directory mirror do: list a path, append a
  listed name, list again. In a drive whose names are unique and usable as path components such a
  walk follows the tree, and each step goes one level down.
\<close>

section \<open>Paths and their components\<close>

definition path_str :: "string list \<Rightarrow> string" where
  "path_str ns = CHR ''/'' # join_with ''/'' ns"

lemma path_str_Nil [simp]: "path_str [] = ''/''"
  by (simp add: path_str_def)

lemma path_str_root: "\<forall>x \<in> set ns. clean_name x \<Longrightarrow> path_str ns = ''/'' \<longleftrightarrow> ns = []"
  using join_with_eq_Nil [of "''/''" ns] by (auto simp: path_str_def clean_name_def)

lemma path_str_snoc: "ns \<noteq> [] \<Longrightarrow> path_str (ns @ [n]) = path_str ns @ ''/'' @ n"
  using join_with_append [of ns "[n]" "''/''"] by (simp add: path_str_def)

lemma path_str_last:
  assumes "ns \<noteq> []" and "\<forall>x \<in> set ns. clean_name x"
  shows "last (path_str ns) \<noteq> CHR ''/''"
proof -
  have ne: "\<forall>x \<in> set ns. x \<noteq> []" and sep: "\<forall>x \<in> set ns. CHR ''/'' \<notin> set x"
    using assms(2) by (simp_all add: clean_name_def)
  have "join_with ''/'' ns \<noteq> []"
    using join_with_eq_Nil [of "''/''" ns] assms(1) ne by auto
  moreover have "last (join_with ''/'' ns) \<noteq> CHR ''/''"
    using join_with_last [OF assms(1) ne] sep ne assms(1) by (metis last_in_set)
  ultimately show ?thesis by (simp add: path_str_def)
qed

lemma resolve_path_str: "\<forall>x \<in> set ns. clean_name x \<Longrightarrow> resolve t (path_str ns) = resolve_from t ROOT ns"
  using resolve_joined [of ns t] by (cases "ns = []") (simp_all add: path_str_def resolve_def)

section \<open>Drives that can be walked\<close>

definition walkable :: "drive \<Rightarrow> bool" where
  "walkable d \<longleftrightarrow> drive_ok d \<and> names_unique (d_tree d) \<and>
     (\<forall>c e. tree_edge (d_tree d) c = Some e \<longrightarrow> clean_name (e_name e))"

lemma names_uniqueI:
  assumes "index_ok t"
    and "\<And>c b e f. tree_edge t c = Some e \<Longrightarrow> tree_edge t b = Some f \<Longrightarrow> e_parent e = e_parent f \<Longrightarrow>
      e_name e = e_name f \<Longrightarrow> c = b"
  shows "names_unique t"
proof -
  have "inj_on fst (set (listed_children t p))" for p
    using assms(2) by (intro inj_onI) (auto simp: mem_listed kids_index [OF assms(1)])
  then show ?thesis
    by (simp add: names_unique_def distinct_map)
qed

lemma walkableD:
  assumes "walkable d"
  shows "drive_ok d" "names_unique (d_tree d)" "index_ok (d_tree d)" "reserved_free (edges_of d)"
    "placed (edges_of d) n ns \<Longrightarrow> x \<in> set ns \<Longrightarrow> clean_name x"
  using assms placed_names [of "edges_of d" n ns x] drive_okD(2) [of d] drive_okD(3) [of d]
  by (auto simp: walkable_def tree_edge_def)

text \<open>The node at a sequence of components: the root at none.\<close>

definition node_at :: "drive \<Rightarrow> node_id \<Rightarrow> string list \<Rightarrow> bool" where
  "node_at d n ns \<longleftrightarrow> (if ns = [] then n = ROOT else placed (edges_of d) n ns)"

lemma node_at_simps [simp]:
  "node_at d n [] \<longleftrightarrow> n = ROOT" "node_at d n (ns @ [m]) \<longleftrightarrow> placed (edges_of d) n (ns @ [m])"
  by (simp_all add: node_at_def)

lemma node_at_length: "node_at d n ns \<Longrightarrow> length ns \<le> fcard (fmdom (edges_of d))"
  using placed_bound [of "edges_of d" n ns] by (auto simp: node_at_def split: if_splits)

lemma node_at_clean: "walkable d \<Longrightarrow> node_at d n ns \<Longrightarrow> \<forall>x \<in> set ns. clean_name x"
  using walkableD(5) [of d n ns] by (auto simp: node_at_def split: if_splits)

lemma node_at_resolve: "walkable d \<Longrightarrow> node_at d n ns \<Longrightarrow> resolve (d_tree d) (path_str ns) = Some n"
  using resolve_from_placed [of "d_tree d" n ns] walkableD(2,3,4) [of d]
  by (cases "ns = []") (simp_all add: resolve_path_str node_at_clean, simp_all add: node_at_def resolve_def)

lemma placed_edge: "placed E c ns \<Longrightarrow> fmlookup E c \<noteq> None"
  by (erule placedE) simp_all

lemma node_at_reserved:
  "walkable d \<Longrightarrow> node_at d n ns \<Longrightarrow> (n = ROOT \<longleftrightarrow> ns = []) \<and> n \<noteq> TRASH \<and> n \<noteq> LIMBO"
  using reserved_freeD [OF walkableD(4), of d] placed_edge [of "edges_of d" n ns]
  by (cases "ns = []") (auto simp: node_at_def)

lemma node_at_path: "walkable d \<Longrightarrow> node_at d n ns \<Longrightarrow> path_of d n = Some (path_str ns)"
  using node_at_reserved [of d n ns]
  by (cases "ns = []") (auto simp: node_at_def path_of_def path_eq_Some path_str_def)

lemma path_node_at: "path_of d n = Some p \<Longrightarrow> \<exists>ns. node_at d n ns \<and> p = path_str ns"
proof (cases "n = ROOT")
  case True
  then have "path_of d n = Some ''/''" by (simp add: path_of_def path_def)
  moreover assume "path_of d n = Some p"
  ultimately show ?thesis using True by (intro exI [of _ "[]"]) simp
next
  case False
  moreover assume "path_of d n = Some p"
  ultimately obtain ns where "placed (edges_of d) n ns" "p = path_str ns"
    by (auto simp: path_of_def path_eq_Some path_str_def)
  then show ?thesis by (intro exI [of _ ns]) (auto simp: node_at_def)
qed

section \<open>Listing a directory on the walk\<close>

lemma node_at_child:
  assumes "node_at d n ns" and "fmlookup (edges_of d) c = Some e" and "e_parent e = n" and "ns = [] \<or> n \<noteq> ROOT"
  shows "node_at d c (ns @ [e_name e])"
  using assms placed.placed_root [of "edges_of d" c e] placed.placed_step [of "edges_of d" c e ns]
  by (auto simp: node_at_def split: if_splits)

lemma node_at_snocD:
  assumes "node_at d c (ns @ [m])"
  obtains n e where "node_at d n ns" and "fmlookup (edges_of d) c = Some e" and "e_parent e = n" and "e_name e = m"
    and "ns = [] \<or> n \<noteq> ROOT"
proof -
  have "placed (edges_of d) c (ns @ [m])" using assms by simp
  then show thesis
  proof (cases rule: placed.cases)
    case (placed_root e)
    then show ?thesis by (intro that [of ROOT e]) auto
  next
    case (placed_step e ks)
    then have "ns \<noteq> []" and "placed (edges_of d) (e_parent e) ns" by auto
    with placed_step show ?thesis by (intro that [of "e_parent e" e]) (simp_all add: node_at_def)
  qed
qed

lemma listed_at:
  assumes "walkable d" and "node_at d n ns"
  shows "(m, c) \<in> set (listed_children (d_tree d) n) \<longleftrightarrow> node_at d c (ns @ [m]) \<and> e_parent (the (fmlookup (edges_of d) c)) = n"
proof
  assume "(m, c) \<in> set (listed_children (d_tree d) n)"
  then obtain e where "fmlookup (edges_of d) c = Some e" "e_parent e = n" "e_name e = m"
    by (auto simp: mem_listed kids_index [OF walkableD(3) [OF assms(1)]] tree_edge_def)
  then show "node_at d c (ns @ [m]) \<and> e_parent (the (fmlookup (edges_of d) c)) = n"
    using node_at_child [OF assms(2), of c e] node_at_reserved [OF assms] by auto
next
  assume c: "node_at d c (ns @ [m]) \<and> e_parent (the (fmlookup (edges_of d) c)) = n"
  then have "placed (edges_of d) c (ns @ [m])" by simp
  then have "\<not> is_trashed (d_tree d) c"
    using placed_live walkableD(4) [OF assms(1)] by blast
  moreover have "node_at d c (ns @ [m])" using c ..
  then obtain e where "fmlookup (edges_of d) c = Some e" "e_name e = m"
    by (rule node_at_snocD)
  ultimately show "(m, c) \<in> set (listed_children (d_tree d) n)"
    using c by (auto simp: mem_listed kids_index [OF walkableD(3) [OF assms(1)]] tree_edge_def)
qed

text \<open>The entries of a directory on the walk are its children, each one level below.\<close>

lemma ls_at:
  assumes "walkable d" and "node_at d n ns" and "is_dir (d_tree d) n"
  shows "ls d (path_str ns) =
    Inr (map (\<lambda>(m, c). entry_of d (m, c, kind_of (d_tree d) c)) (listed_children (d_tree d) n))"
proof -
  have "resolve_dir d (path_str ns) = Inr n"
    using assms(3) node_at_resolve [OF assms(1,2)] by (simp add: resolve_dir_Inr)
  moreover have "distinct (map fst (listed_children (d_tree d) n))"
    using walkableD(2) [OF assms(1)] by (simp add: names_unique_def)
  ultimately show ?thesis
    by (simp add: ls_def readdir_no_collision split_beta)
qed

lemma ls_at_entry:
  assumes "walkable d" and "node_at d n ns" and "ls d (path_str ns) = Inr es" and "e \<in> set es"
  shows "node_at d (de_node_id e) (ns @ [de_name e])"
    and "de_is_dir e \<longleftrightarrow> kind_of (d_tree d) (de_node_id e) = Dir"
    and "de_content e = content_get (d_content d) (de_node_id e)"
proof -
  have "is_dir (d_tree d) n"
    using assms(3) node_at_resolve [OF assms(1,2)]
    by (auto simp: ls_def resolve_dir_Inr)
  from ls_at [OF assms(1,2) this] assms(3,4) obtain m c where
    "(m, c) \<in> set (listed_children (d_tree d) n)" and "e = entry_of d (m, c, kind_of (d_tree d) c)"
    by auto
  then show "node_at d (de_node_id e) (ns @ [de_name e])"
    and "de_is_dir e \<longleftrightarrow> kind_of (d_tree d) (de_node_id e) = Dir"
    and "de_content e = content_get (d_content d) (de_node_id e)"
    using listed_at [OF assms(1,2)] by (simp_all add: entry_of_def)
qed

lemma ls_at_child:
  assumes "walkable d" and "node_at d c (ns @ [m])" and "parents_are_dirs (d_tree d)"
  obtains es e where "ls d (path_str ns) = Inr es" and "e \<in> set es" and "de_node_id e = c" and "de_name e = m"
proof -
  from assms(2) obtain n e where n: "node_at d n ns" and e: "fmlookup (edges_of d) c = Some e" "e_parent e = n" "e_name e = m"
    by (rule node_at_snocD)
  have "below (edges_of d) n ROOT"
    using n placed_rtrancl [of "edges_of d" n ns] by (auto simp: node_at_def split: if_splits)
  then have "is_dir (d_tree d) n"
    using assms(3) e by (auto simp: parents_are_dirs_def tree_edge_def)
  moreover have "(m, c) \<in> set (listed_children (d_tree d) n)"
    using listed_at [OF assms(1) n] assms(2) e by simp
  ultimately show ?thesis
    using ls_at [OF assms(1) n]
    by (intro that [of _ "entry_of d (m, c, kind_of (d_tree d) c)"]) (auto simp: entry_of_def)
qed

text \<open>An inner node of a walk is a directory.\<close>

lemma node_at_prefix:
  assumes "node_at d c (ns @ m # ms)" and "ms \<noteq> []"
  shows "\<exists>b e x. node_at d b (ns @ [m]) \<and> fmlookup (edges_of d) x = Some e \<and> e_parent e = b"
  using assms
proof (induction ms arbitrary: c rule: rev_induct)
  case (snoc k ms)
  then have "node_at d c ((ns @ m # ms) @ [k])" by simp
  then obtain b e where b: "node_at d b (ns @ m # ms)" "fmlookup (edges_of d) c = Some e" "e_parent e = b"
    by (rule node_at_snocD)
  show ?case
  proof (cases "ms = []")
    case True
    with b show ?thesis by auto
  next
    case False
    then show ?thesis using snoc.IH [OF b(1)] by blast
  qed
qed simp

lemma node_at_prefix_dir:
  assumes "parents_are_dirs (d_tree d)" and "node_at d c (ns @ m # ms)" and "ms \<noteq> []" and "walkable d"
  obtains b where "node_at d b (ns @ [m])" and "kind_of (d_tree d) b = Dir"
proof -
  obtain b e x where b: "node_at d b (ns @ [m])" and e: "fmlookup (edges_of d) x = Some e" "e_parent e = b"
    using node_at_prefix [OF assms(2,3)] by blast
  have "below (edges_of d) b ROOT"
    using b placed_rtrancl [of "edges_of d" b "ns @ [m]"] by auto
  then have "is_dir (d_tree d) b"
    using assms(1) e by (auto simp: parents_are_dirs_def tree_edge_def)
  moreover have "b \<noteq> ROOT" using node_at_reserved [OF assms(4) b] by simp
  ultimately have "kind_of (d_tree d) b = Dir"
    by (auto simp: is_dir_def kind_of_def)
  with b show ?thesis by (rule that)
qed

section \<open>Loops whose body may not return\<close>

fun each :: "('a \<Rightarrow> 's \<Rightarrow> 's option) \<Rightarrow> 'a list \<Rightarrow> 's \<Rightarrow> 's option" where
  "each f [] s = Some s"
| "each f (x # xs) s = (case f x s of None \<Rightarrow> None | Some s' \<Rightarrow> each f xs s')"

lemma each_returns: "(\<And>x s. x \<in> set xs \<Longrightarrow> f x s \<noteq> None) \<Longrightarrow> each f xs s \<noteq> None"
  by (induction xs arbitrary: s) (auto split: option.split)

lemma each_inv:
  "each f xs s = Some s' \<Longrightarrow> P s \<Longrightarrow> (\<And>x s s'. x \<in> set xs \<Longrightarrow> P s \<Longrightarrow> f x s = Some s' \<Longrightarrow> P s') \<Longrightarrow> P s'"
proof (induction xs arbitrary: s)
  case (Cons x xs)
  then obtain t where t: "f x s = Some t" "each f xs t = Some s'"
    by (auto split: option.splits)
  have "P t" by (rule Cons.prems(3) [OF _ Cons.prems(2) t(1)]) simp
  then show ?case by (rule Cons.IH [OF t(2)]) (rule Cons.prems(3), simp_all)
qed simp

lemma each_all:
  "P s \<Longrightarrow> (\<And>x s. x \<in> set xs \<Longrightarrow> P s \<Longrightarrow> \<exists>s'. f x s = Some s' \<and> P s') \<Longrightarrow> \<exists>s'. each f xs s = Some s' \<and> P s'"
proof (induction xs arbitrary: s)
  case (Cons x xs)
  obtain t where t: "f x s = Some t" "P t"
    using Cons.prems(2) [of x s] Cons.prems(1) by auto
  from Cons.IH [OF t(2) Cons.prems(2)] t(1) show ?case by auto
qed simp

lemma each_reaches:
  assumes "each f xs s = Some s'" and "x \<in> set xs" and "\<And>s s'. f x s = Some s' \<Longrightarrow> Q s'"
    and "\<And>y s s'. y \<in> set xs \<Longrightarrow> Q s \<Longrightarrow> f y s = Some s' \<Longrightarrow> Q s'"
  shows "Q s'"
  using assms
proof (induction xs arbitrary: s)
  case Nil
  from Nil.prems(2) show ?case by simp
next
  case (Cons y xs)
  obtain t where t: "f y s = Some t" "each f xs t = Some s'"
    using Cons.prems(1) by (auto split: option.splits)
  have keep: "z \<in> set xs \<Longrightarrow> Q r \<Longrightarrow> f z r = Some r' \<Longrightarrow> Q r'" for z r r'
    by (rule Cons.prems(4) [of z r r']) simp
  show ?case
  proof (cases "y = x")
    case True
    then have "f x s = Some t" using t(1) by simp
    then have "Q t" by (rule Cons.prems(3))
    from each_inv [OF t(2), of Q, OF this keep] show ?thesis .
  next
    case False
    with Cons.prems(2) have "x \<in> set xs" by simp
    from Cons.IH [OF t(2) this Cons.prems(3) keep] show ?thesis .
  qed
qed

end
