(* ===== verification/Search.thy ===== *)
theory Search
  imports DirWalk
begin

text \<open>
  The metadata search index, \<open>crates/ce-drive-core/src/search.rs\<close>: an inverted index from tokens and
  trigrams to the positions of the documents, kept in step with the documents by every operation.

  The Unicode tables behind \<open>char::is_alphanumeric\<close> and \<open>str::to_lowercase\<close> are an argument. A score
  is counted in quarters: every amount the code adds to an \<open>f32\<close> is a multiple of 0.25, and such sums
  are exact below 2^22. Hash-map iteration is replaced by ascending order; the hits are sorted.
\<close>

section \<open>Tokens\<close>

record unicode =
  is_alphanumeric :: "string \<Rightarrow> bool"
  to_lowercase :: "string \<Rightarrow> string"

text \<open>\<open>str::split\<close> with a predicate on characters; a character is the list of its bytes.\<close>

fun split_where :: "(string \<Rightarrow> bool) \<Rightarrow> string list \<Rightarrow> string list list" where
  "split_where P [] = [[]]"
| "split_where P (c # cs) =
     (if P c then [] # split_where P cs
      else (case split_where P cs of [] \<Rightarrow> [[c]] | w # ws \<Rightarrow> (c # w) # ws))"

definition tokenize :: "unicode \<Rightarrow> string \<Rightarrow> string list" where
  "tokenize u s =
     map (to_lowercase u)
       (filter (\<lambda>t. t \<noteq> []) (map concat (split_where (\<lambda>c. \<not> is_alphanumeric u c) (utf8_chars s))))"

text \<open>\<open>chars.windows(3)\<close>.\<close>

definition windows3 :: "'a list \<Rightarrow> 'a list list" where
  "windows3 cs = map (\<lambda>i. take 3 (drop i cs)) [0..<length cs - 2]"

definition trigrams_of :: "string \<Rightarrow> string list" where
  "trigrams_of token =
     (let chars = utf8_chars token in if length chars < 3 then [token] else map concat (windows3 chars))"

section \<open>The index\<close>

record doc =
  dc_node_id :: node_id
  dc_path :: string
  dc_name :: string
  dc_is_dir :: bool
  dc_size :: u64
  dc_tokens :: "string fset"
  dc_trigrams :: "string fset"

type_synonym postings = "(string, nat list) fmap"

record search_index =
  ix_docs :: "doc list"
  ix_by_token :: postings
  ix_by_trigram :: postings

definition index_new :: search_index where
  "index_new = \<lparr>ix_docs = [], ix_by_token = fmempty, ix_by_trigram = fmempty\<rparr>"

definition post :: "nat \<Rightarrow> string \<Rightarrow> postings \<Rightarrow> postings" where
  "post i t m = fmupd t ((case fmlookup m t of Some is \<Rightarrow> is | None \<Rightarrow> []) @ [i]) m"

text \<open>The body of both re-indexing loops: post one document under all its tokens and trigrams.\<close>

definition post_doc :: "nat \<Rightarrow> search_index \<Rightarrow> search_index" where
  "post_doc i ix =
     (let d = ix_docs ix ! i in
      ix\<lparr>ix_by_token := fold (post i) (sorted_list_of_fset (dc_tokens d)) (ix_by_token ix),
         ix_by_trigram := fold (post i) (sorted_list_of_fset (dc_trigrams d)) (ix_by_trigram ix)\<rparr>)"

definition reindex :: "search_index \<Rightarrow> search_index" where
  "reindex ix =
     fold post_doc [0..<length (ix_docs ix)] (ix\<lparr>ix_by_token := fmempty, ix_by_trigram := fmempty\<rparr>)"

definition reindex_last :: "search_index \<Rightarrow> search_index" where
  "reindex_last ix = post_doc (length (ix_docs ix) - 1) ix"

text \<open>\<open>iter().position\<close>.\<close>

fun position :: "('a \<Rightarrow> bool) \<Rightarrow> 'a list \<Rightarrow> nat option" where
  "position P [] = None"
| "position P (x # xs) = (if P x then Some 0 else map_option Suc (position P xs))"

definition doc_for :: "unicode \<Rightarrow> node_id \<Rightarrow> string \<Rightarrow> string \<Rightarrow> bool \<Rightarrow> u64 \<Rightarrow> doc" where
  "doc_for u i p name dir sz =
     (let tokens = tokenize u name @ tokenize u p in
      \<lparr>dc_node_id = i, dc_path = p, dc_name = name, dc_is_dir = dir, dc_size = sz,
       dc_tokens = fset_of_list tokens,
       dc_trigrams = fset_of_list (concat (map trigrams_of tokens))\<rparr>)"

definition index_add :: "unicode \<Rightarrow> node_id \<Rightarrow> string \<Rightarrow> string \<Rightarrow> bool \<Rightarrow> u64 \<Rightarrow> search_index \<Rightarrow> search_index" where
  "index_add u i p name dir sz ix =
     (let doc = doc_for u i p name dir sz in
      (case position (\<lambda>d. dc_node_id d = i) (ix_docs ix) of
         Some k \<Rightarrow> reindex (ix\<lparr>ix_docs := (ix_docs ix)[k := doc]\<rparr>)
       | None \<Rightarrow> reindex_last (ix\<lparr>ix_docs := ix_docs ix @ [doc]\<rparr>)))"

definition index_add_text :: "unicode \<Rightarrow> node_id \<Rightarrow> string \<Rightarrow> search_index \<Rightarrow> search_index \<times> bool" where
  "index_add_text u i text ix =
     (case position (\<lambda>d. dc_node_id d = i) (ix_docs ix) of
        Some k \<Rightarrow>
          (let d = ix_docs ix ! k; tokens = tokenize u text;
               d' = d\<lparr>dc_trigrams := dc_trigrams d |\<union>| fset_of_list (concat (map trigrams_of tokens)),
                      dc_tokens := dc_tokens d |\<union>| fset_of_list tokens\<rparr> in
           (reindex (ix\<lparr>ix_docs := (ix_docs ix)[k := d']\<rparr>), True))
      | None \<Rightarrow> (ix, False))"

definition index_len :: "search_index \<Rightarrow> nat" where
  "index_len ix = length (ix_docs ix)"

section \<open>Building from a drive\<close>

definition child_of :: "string \<Rightarrow> string \<Rightarrow> string" where
  "child_of p name = (if p = ''/'' then ''/'' @ name else p @ ''/'' @ name)"

definition entry_size :: "dir_entry \<Rightarrow> u64" where
  "entry_size e = (case de_content e of Some c \<Rightarrow> fc_size c | None \<Rightarrow> 0)"

text \<open>
  The recursion of \<open>index_dir\<close> has one unit of fuel per directory level; \<open>build\<close> gives two more levels
  than there are nodes.
\<close>

fun index_dir :: "nat \<Rightarrow> unicode \<Rightarrow> drive \<Rightarrow> string \<Rightarrow> search_index \<Rightarrow> search_index option" where
  "index_dir 0 u d p ix = None"
| "index_dir (Suc k) u d p ix =
     (case ls d p of
        Inl _ \<Rightarrow> Some ix
      | Inr entries \<Rightarrow>
          each (\<lambda>e ix.
            let child = child_of p (de_name e);
                ix1 = index_add u (de_node_id e) child (de_name e) (de_is_dir e) (entry_size e) ix in
            if de_is_dir e then index_dir k u d child ix1 else Some ix1) entries ix)"

definition build_index :: "unicode \<Rightarrow> drive \<Rightarrow> search_index option" where
  "build_index u d = index_dir (Suc (Suc (fcard (fmdom (edges_of d))))) u d ''/'' index_new"

definition drive_search_index :: "unicode \<Rightarrow> drive \<Rightarrow> search_index option" where
  "drive_search_index u d = build_index u d"

section \<open>Queries\<close>

record search_hit =
  sh_node_id :: node_id
  sh_path :: string
  sh_name :: string
  sh_is_dir :: bool
  sh_size :: u64
  sh_score :: nat

type_synonym scores = "(nat, nat) fmap"

definition bump :: "nat \<Rightarrow> nat \<Rightarrow> scores \<Rightarrow> scores" where
  "bump w i sc = fmupd i ((case fmlookup sc i of Some s \<Rightarrow> s | None \<Rightarrow> 0) + w) sc"

definition bump_all :: "nat \<Rightarrow> postings \<Rightarrow> string \<Rightarrow> scores \<Rightarrow> scores" where
  "bump_all w m t sc = (case fmlookup m t of Some is \<Rightarrow> fold (bump w) is sc | None \<Rightarrow> sc)"

definition query_scores :: "search_index \<Rightarrow> string list \<Rightarrow> scores" where
  "query_scores ix q_tokens =
     (let q_trigrams = sorted_list_of_fset (fset_of_list (concat (map trigrams_of q_tokens)));
          sc = fold (bump_all 8 (ix_by_token ix)) q_tokens fmempty in
      fold (bump_all 1 (ix_by_trigram ix)) q_trigrams sc)"

definition boost :: "unicode \<Rightarrow> string \<Rightarrow> doc \<Rightarrow> nat" where
  "boost u q d =
     (let name_lc = to_lowercase u (dc_name d) in
      if name_lc = q then 80
      else if str_contains name_lc q then 40 + (if starts_with name_lc q then 8 else 0)
      else if str_contains (to_lowercase u (dc_path d)) q then 20
      else 0)"

definition hit_of :: "doc \<Rightarrow> nat \<Rightarrow> search_hit" where
  "hit_of d s =
     \<lparr>sh_node_id = dc_node_id d, sh_path = dc_path d, sh_name = dc_name d, sh_is_dir = dc_is_dir d,
      sh_size = dc_size d, sh_score = s\<rparr>"

text \<open>Highest score first, then the shorter path, then the path.\<close>

definition hit_key :: "search_hit \<Rightarrow> int \<times> nat \<times> string" where
  "hit_key h = (- int (sh_score h), length (sh_path h), sh_path h)"

text \<open>The hits of a non-empty lower-case query before they are ranked.\<close>

definition unranked :: "unicode \<Rightarrow> search_index \<Rightarrow> string \<Rightarrow> search_hit list" where
  "unranked u ix q =
     (let sc = query_scores ix (tokenize u q) in
      filter (\<lambda>h. sh_score h > 0)
        (map (\<lambda>i. let d = ix_docs ix ! i in hit_of d (the (fmlookup sc i) + boost u q d))
           (sorted_list_of_fset (fmdom sc))))"

definition search :: "unicode \<Rightarrow> search_index \<Rightarrow> string \<Rightarrow> nat \<Rightarrow> search_hit list" where
  "search u ix query limit =
     (let q = to_lowercase u (trim query) in
      if q = [] then []
      else
        (let ranked = sort_key hit_key (unranked u ix q) in
         if limit \<noteq> 0 then take limit ranked else ranked))"

definition search_scoped :: "unicode \<Rightarrow> search_index \<Rightarrow> string \<Rightarrow> string \<Rightarrow> nat \<Rightarrow> search_hit list" where
  "search_scoped u ix query scope limit =
     (let scope = (if scope = ''/'' then [] else trim_end_matches (CHR ''/'') scope);
          inside = filter (\<lambda>h. scope = [] \<or> sh_path h = scope \<or> starts_with (sh_path h) (scope @ ''/''))
                     (search u ix query 0) in
      if limit = 0 then inside else take limit inside)"

section \<open>The postings mirror the documents\<close>

definition posted :: "postings \<Rightarrow> string \<Rightarrow> nat list" where
  "posted m t = (case fmlookup m t of Some is \<Rightarrow> is | None \<Rightarrow> [])"

lemma posted_empty [simp]: "posted fmempty t = []"
  by (simp add: posted_def)

lemma posted_post [simp]: "posted (post i t m) s = (if s = t then posted m t @ [i] else posted m s)"
  by (simp add: posted_def post_def)

lemma posted_fold_post:
  "distinct ts \<Longrightarrow> posted (fold (post i) ts m) s = posted m s @ (if s \<in> set ts then [i] else [])"
  by (induction ts arbitrary: m) auto

lemma distinct_sorted_fset [simp]: "distinct (sorted_list_of_fset S)"
  unfolding sorted_list_of_fset.rep_eq by simp

lemma post_doc_frame [simp]: "ix_docs (post_doc i ix) = ix_docs ix"
  by (simp add: post_doc_def Let_def)

lemma posted_post_doc [simp]:
  "posted (ix_by_token (post_doc i ix)) t =
    posted (ix_by_token ix) t @ (if t |\<in>| dc_tokens (ix_docs ix ! i) then [i] else [])"
  "posted (ix_by_trigram (post_doc i ix)) t =
    posted (ix_by_trigram ix) t @ (if t |\<in>| dc_trigrams (ix_docs ix ! i) then [i] else [])"
  by (simp_all add: post_doc_def Let_def posted_fold_post)

text \<open>The two inverted maps list, in order and once each, the positions of the documents that hold a term.\<close>

definition index_exact :: "search_index \<Rightarrow> bool" where
  "index_exact ix \<longleftrightarrow>
     (\<forall>t. posted (ix_by_token ix) t
            = filter (\<lambda>i. t |\<in>| dc_tokens (ix_docs ix ! i)) [0..<length (ix_docs ix)] \<and>
          posted (ix_by_trigram ix) t
            = filter (\<lambda>i. t |\<in>| dc_trigrams (ix_docs ix ! i)) [0..<length (ix_docs ix)])"

lemma fold_post_doc:
  "ix_docs (fold post_doc [0..<n] ix) = ix_docs ix \<and>
   posted (ix_by_token (fold post_doc [0..<n] ix)) t =
     posted (ix_by_token ix) t @ filter (\<lambda>i. t |\<in>| dc_tokens (ix_docs ix ! i)) [0..<n] \<and>
   posted (ix_by_trigram (fold post_doc [0..<n] ix)) t =
     posted (ix_by_trigram ix) t @ filter (\<lambda>i. t |\<in>| dc_trigrams (ix_docs ix ! i)) [0..<n]"
  by (induction n arbitrary: t) auto

lemma reindex_docs [simp]: "ix_docs (reindex ix) = ix_docs ix"
  using fold_post_doc by (simp add: reindex_def)

lemma reindex_exact: "index_exact (reindex ix)"
  unfolding index_exact_def reindex_docs
  using fold_post_doc [where ix = "ix\<lparr>ix_by_token := fmempty, ix_by_trigram := fmempty\<rparr>"]
  by (simp add: reindex_def)

lemma reindex_last_docs [simp]: "ix_docs (reindex_last ix) = ix_docs ix"
  by (simp add: reindex_last_def)

lemma reindex_last_exact:
  assumes "index_exact ix"
  shows "index_exact (reindex_last (ix\<lparr>ix_docs := ix_docs ix @ [doc]\<rparr>))"
proof -
  have "filter (\<lambda>i. t |\<in>| f ((ix_docs ix @ [doc]) ! i)) [0..<length (ix_docs ix)]
      = filter (\<lambda>i. t |\<in>| f (ix_docs ix ! i)) [0..<length (ix_docs ix)]" for t :: string and f
    by (intro filter_cong) (simp_all add: nth_append)
  with assms show ?thesis
    by (simp add: index_exact_def reindex_last_def)
qed

text \<open>A document is there once, and its trigrams include those of its tokens.\<close>

definition grams_ok :: "doc \<Rightarrow> bool" where
  "grams_ok d \<longleftrightarrow> (\<forall>t. t |\<in>| dc_tokens d \<longrightarrow> set (trigrams_of t) \<subseteq> fset (dc_trigrams d))"

definition docs_ok :: "doc list \<Rightarrow> bool" where
  "docs_ok ds \<longleftrightarrow> distinct (map dc_node_id ds) \<and> (\<forall>d \<in> set ds. grams_ok d)"

definition index_inv :: "search_index \<Rightarrow> bool" where
  "index_inv ix \<longleftrightarrow> index_exact ix \<and> docs_ok (ix_docs ix)"

lemma position_None: "position P xs = None \<longleftrightarrow> (\<forall>x \<in> set xs. \<not> P x)"
  by (induction xs) auto

lemma position_Some: "position P xs = Some k \<Longrightarrow> k < length xs \<and> P (xs ! k)"
  by (induction xs arbitrary: k) (auto split: if_splits)

lemma set_update_at: "k < length xs \<Longrightarrow> distinct (map f xs) \<Longrightarrow> f x = f (xs ! k) \<Longrightarrow>
    set (xs[k := x]) = insert x {y \<in> set xs. f y \<noteq> f x}"
  by (force simp: set_conv_nth nth_list_update distinct_conv_nth)

lemma update_same_id: "k < length xs \<Longrightarrow> f x = f (xs ! k) \<Longrightarrow> map f (xs[k := x]) = map f xs"
  by (metis list_update_id map_update)

lemma docs_ok_update:
  assumes "docs_ok ds" and "k < length ds" and "dc_node_id d = dc_node_id (ds ! k)" and "grams_ok d"
  shows "docs_ok (ds[k := d])"
  using assms set_update_subset_insert [of ds k d]
  by (auto simp: docs_ok_def update_same_id [of k ds dc_node_id d])

lemma index_new_inv: "index_inv index_new"
  by (simp add: index_inv_def index_exact_def docs_ok_def index_new_def)

lemma doc_for_simps [simp]:
  "dc_node_id (doc_for u i p name dir sz) = i" "dc_path (doc_for u i p name dir sz) = p"
  "dc_name (doc_for u i p name dir sz) = name"
  by (simp_all add: doc_for_def Let_def)

lemma doc_for_grams: "grams_ok (doc_for u i p name dir sz)"
  by (auto simp: grams_ok_def doc_for_def Let_def fset_of_list.rep_eq)

lemma index_add_cases:
  "position (\<lambda>d. dc_node_id d = i) (ix_docs ix) = None \<Longrightarrow>
    index_add u i p name dir sz ix = reindex_last (ix\<lparr>ix_docs := ix_docs ix @ [doc_for u i p name dir sz]\<rparr>)"
  "position (\<lambda>d. dc_node_id d = i) (ix_docs ix) = Some k \<Longrightarrow>
    index_add u i p name dir sz ix = reindex (ix\<lparr>ix_docs := (ix_docs ix)[k := doc_for u i p name dir sz]\<rparr>)"
  by (simp_all add: index_add_def)

lemma index_add_inv:
  assumes "index_inv ix"
  shows "index_inv (index_add u i p name dir sz ix)"
proof (cases "position (\<lambda>d. dc_node_id d = i) (ix_docs ix)")
  case None
  then have "docs_ok (ix_docs ix @ [doc_for u i p name dir sz])"
    using assms doc_for_grams [of u i p name dir sz] position_None [THEN iffD1, OF None]
    by (auto simp: index_inv_def docs_ok_def)
  with assms show ?thesis
    by (simp add: index_inv_def index_add_cases(1) [OF None] reindex_last_exact)
next
  case (Some k)
  have "docs_ok ((ix_docs ix)[k := doc_for u i p name dir sz])"
    using assms position_Some [OF Some]
    by (intro docs_ok_update) (simp_all add: index_inv_def doc_for_grams)
  then show ?thesis
    by (simp add: index_inv_def index_add_cases(2) [OF Some] reindex_exact)
qed

lemma index_add_docs:
  assumes "index_inv ix"
  shows "set (ix_docs (index_add u i p name dir sz ix))
    = insert (doc_for u i p name dir sz) {d \<in> set (ix_docs ix). dc_node_id d \<noteq> i}"
proof (cases "position (\<lambda>d. dc_node_id d = i) (ix_docs ix)")
  case None
  then show ?thesis
    using position_None [THEN iffD1, OF None] by (auto simp: index_add_cases(1))
next
  case (Some k)
  from position_Some [OF this] assms show ?thesis
    using set_update_at [of k "ix_docs ix" dc_node_id "doc_for u i p name dir sz"]
    by (simp add: index_add_cases(2) [OF Some] index_inv_def docs_ok_def)
qed

lemma index_add_text_inv:
  assumes "index_inv ix"
  shows "index_inv (fst (index_add_text u i text ix))"
proof (cases "position (\<lambda>d. dc_node_id d = i) (ix_docs ix)")
  case (Some k)
  let ?d = "ix_docs ix ! k"
  let ?e = "?d\<lparr>dc_trigrams := dc_trigrams ?d |\<union>| fset_of_list (concat (map trigrams_of (tokenize u text))),
    dc_tokens := dc_tokens ?d |\<union>| fset_of_list (tokenize u text)\<rparr>"
  have k: "k < length (ix_docs ix)" and ok: "docs_ok (ix_docs ix)"
    using position_Some [OF Some] assms by (simp_all add: index_inv_def)
  then have "grams_ok ?d" by (simp add: docs_ok_def)
  then have "grams_ok ?e"
    by (auto simp: grams_ok_def fset_of_list.rep_eq)
  then have "docs_ok ((ix_docs ix)[k := ?e])"
    by (intro docs_ok_update ok k) simp
  then show ?thesis
    by (simp add: index_add_text_def Some Let_def index_inv_def reindex_exact)
qed (simp add: index_add_text_def assms)

section \<open>Any use of the index\<close>

datatype index_call = AddNode node_id string string bool u64 | AddText node_id string

fun index_step :: "unicode \<Rightarrow> index_call \<Rightarrow> search_index \<Rightarrow> search_index" where
  "index_step u (AddNode i p name dir sz) ix = index_add u i p name dir sz ix"
| "index_step u (AddText i text) ix = fst (index_add_text u i text ix)"

definition index_run :: "unicode \<Rightarrow> index_call list \<Rightarrow> search_index" where
  "index_run u steps = fold (index_step u) steps index_new"

lemma index_run_inv: "index_inv (index_run u steps)"
proof -
  have "index_inv ix \<Longrightarrow> index_inv (fold (index_step u) steps ix)" for ix
  proof (induction steps arbitrary: ix)
    case (Cons st steps)
    then show ?case by (cases st) (simp_all add: index_add_inv index_add_text_inv)
  qed simp
  then show ?thesis by (simp add: index_run_def index_new_inv)
qed

section \<open>Scores\<close>

definition score :: "scores \<Rightarrow> nat \<Rightarrow> nat" where
  "score sc i = (case fmlookup sc i of Some s \<Rightarrow> s | None \<Rightarrow> 0)"

text \<open>Only positive scores are recorded.\<close>

definition scores_ok :: "scores \<Rightarrow> bool" where
  "scores_ok sc \<longleftrightarrow> (\<forall>i. i |\<in>| fmdom sc \<longleftrightarrow> 0 < score sc i)"

lemma bump_score [simp]: "score (bump w i sc) j = score sc j + (if j = i then w else 0)"
  by (simp add: score_def bump_def)

lemma bump_ok: "0 < w \<Longrightarrow> scores_ok sc \<Longrightarrow> scores_ok (bump w i sc)"
  unfolding scores_ok_def bump_score by (auto simp: bump_def)

lemma fold_bump:
  "score (fold (bump w) is sc) j = score sc j + w * count_list is j"
  by (induction "is" arbitrary: sc) simp_all

lemma fold_bump_ok: "0 < w \<Longrightarrow> scores_ok sc \<Longrightarrow> scores_ok (fold (bump w) is sc)"
  by (induction "is" arbitrary: sc) (simp_all add: bump_ok)

lemma bump_all_posted: "bump_all w m t sc = fold (bump w) (posted m t) sc"
  by (simp add: bump_all_def posted_def split: option.split)

lemma fold_bump_all:
  "score (fold (bump_all w m) ts sc) j = score sc j + w * sum_list (map (\<lambda>t. count_list (posted m t) j) ts)"
  by (induction ts arbitrary: sc) (simp_all add: bump_all_posted fold_bump algebra_simps)

lemma fold_bump_all_ok: "0 < w \<Longrightarrow> scores_ok sc \<Longrightarrow> scores_ok (fold (bump_all w m) ts sc)"
  by (induction ts arbitrary: sc) (simp_all add: bump_all_posted fold_bump_ok)

lemma count_list_filter_upt: "count_list (filter P [0..<n]) j = (if j < n \<and> P j then 1 else 0)"
  by (induction n) auto

lemma sum_list_filter: "sum_list (map (\<lambda>t. if P t then 1 else 0) ts) = length (filter P ts)"
  by (induction ts) auto

text \<open>
  What the loops over the postings compute for a document: two points, eight quarters, for each query
  token it holds, and a quarter for each distinct query trigram it holds.
\<close>

definition term_score :: "string list \<Rightarrow> doc \<Rightarrow> nat" where
  "term_score q_tokens d =
     8 * length (filter (\<lambda>t. t |\<in>| dc_tokens d) q_tokens) +
     card (set (concat (map trigrams_of q_tokens)) \<inter> fset (dc_trigrams d))"

lemma query_scores_exact:
  assumes "index_exact ix"
  shows "score (query_scores ix qs) i = (if i < length (ix_docs ix) then term_score qs (ix_docs ix ! i) else 0)"
    and "scores_ok (query_scores ix qs)"
proof -
  let ?gs = "sorted_list_of_fset (fset_of_list (concat (map trigrams_of qs)))"
  have gs: "length (filter (\<lambda>g. g |\<in>| S) ?gs) = card (set (concat (map trigrams_of qs)) \<inter> fset S)" for S
  proof -
    have "length (filter (\<lambda>g. g |\<in>| S) ?gs) = card (set (filter (\<lambda>g. g |\<in>| S) ?gs))"
      by (intro distinct_card [symmetric] distinct_filter distinct_sorted_fset)
    also have "set (filter (\<lambda>g. g |\<in>| S) ?gs) = set (concat (map trigrams_of qs)) \<inter> fset S"
      by (auto simp: fset_of_list.rep_eq)
    finally show ?thesis .
  qed
  have start: "score fmempty j = 0" "scores_ok fmempty" for j
    by (simp_all add: score_def scores_ok_def)
  show "scores_ok (query_scores ix qs)"
    by (simp add: query_scores_def Let_def fold_bump_all_ok start)
  show "score (query_scores ix qs) i = (if i < length (ix_docs ix) then term_score qs (ix_docs ix ! i) else 0)"
    using assms gs
    by (simp add: query_scores_def Let_def fold_bump_all start index_exact_def count_list_filter_upt
        sum_list_filter term_score_def)
qed

end
