(* ===== verification/SearchProps.thy ===== *)
theory SearchProps
  imports Search
begin

text \<open>
  The properties of the search index: the postings after any use of it, the exact result of a query, what
  substring search finds and does not find, the confinement of a scoped query, and the index of a drive.
\<close>

section \<open>Results\<close>

lemma hits_distinct:
  assumes "docs_ok ds" and "set is \<subseteq> {..<length ds}" and "distinct is"
  shows "distinct (map (\<lambda>i. dc_node_id (ds ! i)) is)"
proof -
  have "inj_on (\<lambda>i. dc_node_id (ds ! i)) (set is)"
  proof (rule inj_onI)
    fix i j
    assume "i \<in> set is" and "j \<in> set is" and "dc_node_id (ds ! i) = dc_node_id (ds ! j)"
    then show "i = j"
      using assms(1,2) nth_eq_iff_index_eq [of "map dc_node_id ds" i j] by (auto simp: docs_ok_def)
  qed
  with assms(3) show ?thesis by (simp add: distinct_map)
qed

text \<open>The hits of a query, before they are ranked.\<close>

lemma unranked_hits:
  assumes inv: "index_inv ix"
  shows "set (unranked u ix q) = {hit_of d (term_score (tokenize u q) d + boost u q d) | d.
      d \<in> set (ix_docs ix) \<and> 0 < term_score (tokenize u q) d}" (is "_ = ?hits")
    and "distinct (map sh_node_id (unranked u ix q))"
proof -
  let ?qs = "tokenize u q" and ?ds = "ix_docs ix"
  let ?sc = "query_scores ix ?qs"
  let ?is = "sorted_list_of_fset (fmdom ?sc)"
  let ?hit = "\<lambda>i. hit_of (?ds ! i) (term_score ?qs (?ds ! i) + boost u q (?ds ! i))"
  have exact: "index_exact ix" and ok: "docs_ok ?ds" using inv by (simp_all add: index_inv_def)
  note sc = query_scores_exact [OF exact, of ?qs]
  have dom: "i \<in> set ?is \<longleftrightarrow> i < length ?ds \<and> 0 < term_score ?qs (?ds ! i)" for i
    using sc by (simp add: scores_ok_def)
  have val: "the (fmlookup ?sc i) = term_score ?qs (?ds ! i)" if "i \<in> set ?is" for i
    using sc(1) [of i] that dom [of i] by (auto simp: score_def split: option.splits if_splits)
  have "map (\<lambda>i. let d = ?ds ! i in hit_of d (the (fmlookup ?sc i) + boost u q d)) ?is = map ?hit ?is"
    by (rule map_cong [OF refl]) (simp add: Let_def val)
  moreover have "filter (\<lambda>h. 0 < sh_score h) (map ?hit ?is) = map ?hit ?is"
    using dom by (auto simp: filter_id_conv hit_of_def)
  ultimately have hits: "unranked u ix q = map ?hit ?is"
    by (simp only: unranked_def Let_def)
  have "set (map ?hit ?is) = ?hit ` {i. i < length ?ds \<and> 0 < term_score ?qs (?ds ! i)}"
    using dom by (auto simp only: set_map)
  also have "\<dots> = ?hits"
    by (auto simp: in_set_conv_nth)
  finally show "set (unranked u ix q) = ?hits"
    by (simp only: hits)
  have "map sh_node_id (map ?hit ?is) = map (\<lambda>i. dc_node_id (?ds ! i)) ?is"
    by (simp add: hit_of_def)
  moreover have "distinct (map (\<lambda>i. dc_node_id (?ds ! i)) ?is)"
    by (rule hits_distinct [OF ok]) (use dom in auto)
  ultimately show "distinct (map sh_node_id (unranked u ix q))"
    by (simp only: hits)
qed

text \<open>
  The inverted maps are exact: after any sequence of additions, replacements and added texts, each
  node has one document, and the posting list of a token or trigram is the ascending list of the
  positions of the documents that hold it.
\<close>

theorem postings_exact:
  "distinct (map dc_node_id (ix_docs (index_run u steps))) \<and>
   posted (ix_by_token (index_run u steps)) t =
     filter (\<lambda>i. t |\<in>| dc_tokens (ix_docs (index_run u steps) ! i)) [0..<length (ix_docs (index_run u steps))] \<and>
   posted (ix_by_trigram (index_run u steps)) t =
     filter (\<lambda>i. t |\<in>| dc_trigrams (ix_docs (index_run u steps) ! i)) [0..<length (ix_docs (index_run u steps))]"
  using index_run_inv [of u steps] by (simp add: index_inv_def index_exact_def docs_ok_def)


section \<open>Substrings\<close>

lemma windows3_infix:
  assumes "3 \<le> length cs"
  shows "take 3 cs \<in> set (windows3 (as @ cs @ bs))"
proof -
  have "take 3 (drop (length as) (as @ cs @ bs)) = take 3 cs" using assms by simp
  then show ?thesis
    unfolding windows3_def set_map using assms by (intro rev_image_eqI [of "length as"]) simp_all
qed

lemma trigrams_infix:
  assumes "utf8_chars t = as @ utf8_chars w @ bs" and "3 \<le> length (utf8_chars w)"
  shows "concat (take 3 (utf8_chars w)) \<in> set (trigrams_of w) \<inter> set (trigrams_of t)"
  using windows3_infix [OF assms(2), of as bs] windows3_infix [OF assms(2), of "[]" "[]"] assms
  by (simp add: trigrams_of_def Let_def)

lemma tokenize_Nil [simp]: "tokenize u [] = []"
  by (simp add: tokenize_def)

text \<open>
  Substring search: a query that is one token of at least three characters finds every document that
  has a token containing it.
\<close>

theorem substring_found:
  assumes "tokenize u (to_lowercase u (trim query)) = [w]" and "3 \<le> length (utf8_chars w)"
    and "d \<in> set (ix_docs (index_run u steps))" and "t |\<in>| dc_tokens d" and "utf8_chars t = as @ utf8_chars w @ bs"
  shows "dc_node_id d \<in> sh_node_id ` set (search u (index_run u steps) query 0)"
proof -
  let ?q = "to_lowercase u (trim query)" and ?g = "concat (take 3 (utf8_chars w))"
  have "grams_ok d"
    using index_run_inv [of u steps] assms(3) by (simp add: index_inv_def docs_ok_def)
  then have "?g \<in> set (trigrams_of w) \<inter> fset (dc_trigrams d)"
    using trigrams_infix [OF assms(5,2)] assms(4) by (auto simp: grams_ok_def)
  then have "0 < card (set (trigrams_of w) \<inter> fset (dc_trigrams d))"
    by (auto simp: card_gt_0_iff)
  then have "0 < term_score (tokenize u ?q) d"
    by (simp add: term_score_def assms(1))
  then have "hit_of d (term_score (tokenize u ?q) d + boost u ?q d) \<in> set (unranked u (index_run u steps) ?q)"
    unfolding unranked_hits(1) [OF index_run_inv] using assms(3) by blast
  moreover have "?q \<noteq> []" using assms(1) by auto
  ultimately show ?thesis
    by (force simp: search_def Let_def hit_of_def)
qed

text \<open>The ASCII part of the Unicode tables.\<close>

definition ascii :: unicode where
  "ascii =
     \<lparr>is_alphanumeric = (\<lambda>c. case map of_char c :: nat list of
         [n] \<Rightarrow> 48 \<le> n \<and> n \<le> 57 \<or> 65 \<le> n \<and> n \<le> 90 \<or> 97 \<le> n \<and> n \<le> 122 | _ \<Rightarrow> False),
      to_lowercase = map (\<lambda>c. let n = of_char c :: nat in if 65 \<le> n \<and> n \<le> 90 then char_of (n + 32) else c)\<rparr>"

definition demo_index :: "index_call list" where
  "demo_index =
     [AddNode ''n1'' ''/docs'' ''docs'' True 0, AddNode ''n2'' ''/docs/Report.pdf'' ''Report.pdf'' False 9,
      AddNode ''n3'' ''/docs2'' ''docs2'' True 0, AddText ''n3'' ''quarterly reporting'']"

theorem substring_found_witness:
  "''n2'' \<in> sh_node_id ` set (search ascii (index_run ascii demo_index) '' ePor '' 0)"
proof -
  let ?d = "ix_docs (index_run ascii demo_index) ! 1"
  have T: "tokenize ascii (to_lowercase ascii (trim '' ePor '')) = [''epor'']" by code_simp
  have "length (utf8_chars ''epor'') = 4" by code_simp
  then have L: "3 \<le> length (utf8_chars ''epor'')" by linarith
  have "length (ix_docs (index_run ascii demo_index)) = 3" by code_simp
  then have D: "?d \<in> set (ix_docs (index_run ascii demo_index))" by (intro nth_mem) linarith
  have G: "''report'' |\<in>| dc_tokens ?d" by code_simp
  have C: "utf8_chars ''report'' = [''r''] @ utf8_chars ''epor'' @ [''t'']" by code_simp
  have "dc_node_id ?d = ''n2''" by code_simp
  with substring_found [OF T L D G C] show ?thesis by (simp only:)
qed

text \<open>
  A shorter query is one gram of its own and no trigram of a longer token, so it finds only whole tokens:
  no hit for two letters in the middle, or at the start, of a name.
\<close>

theorem short_substring_missed:
  "str_contains ''report.pdf'' ''re'' \<and> search ascii (index_run ascii demo_index) ''re'' 0 = [] \<and>
   search ascii (index_run ascii demo_index) ''po'' 0 = []"
  by code_simp

section \<open>Scoped search\<close>

text \<open>Below a path, as strings, is below it in components.\<close>

lemma split_path_str:
  "\<forall>x \<in> set ns. clean_name x \<Longrightarrow> split_on (CHR ''/'') (path_str ns) = [] # (if ns = [] then [[]] else ns)"
  using split_on_join [of ns "CHR ''/''"] by (auto simp: path_str_def clean_name_def)

lemma path_below_iff:
  assumes "\<forall>x \<in> set ns. clean_name x" and "\<forall>x \<in> set ms. clean_name x" and "ns \<noteq> []"
  shows "path_str ms = path_str ns \<or> starts_with (path_str ms) (path_str ns @ ''/'') \<longleftrightarrow> (\<exists>ks. ms = ns @ ks)"
proof
  assume "path_str ms = path_str ns \<or> starts_with (path_str ms) (path_str ns @ ''/'')"
  then show "\<exists>ks. ms = ns @ ks"
  proof
    assume "path_str ms = path_str ns"
    then have "split_on (CHR ''/'') (path_str ms) = split_on (CHR ''/'') (path_str ns)" by (simp only:)
    then have "ms = ns"
      unfolding split_path_str [OF assms(1)] split_path_str [OF assms(2)]
      using assms by (auto simp: clean_name_def split: if_splits)
    then show ?thesis by simp
  next
    assume "starts_with (path_str ms) (path_str ns @ ''/'')"
    then obtain r where r: "path_str ms = path_str ns @ CHR ''/'' # r"
      by (auto simp: starts_with_iff)
    then have "split_on (CHR ''/'') (path_str ms)
        = split_on (CHR ''/'') (path_str ns) @ split_on (CHR ''/'') r"
      by (simp only: split_on_append)
    then have "(if ms = [] then [[]] else ms) = ns @ split_on (CHR ''/'') r"
      unfolding split_path_str [OF assms(1)] split_path_str [OF assms(2)] using assms(3) by simp
    then show ?thesis
      using assms(3) by (auto simp: Cons_eq_append_conv split: if_splits)
  qed
next
  assume "\<exists>ks. ms = ns @ ks"
  then obtain ks where ms: "ms = ns @ ks" by blast
  show "path_str ms = path_str ns \<or> starts_with (path_str ms) (path_str ns @ ''/'')"
  proof (cases "ks = []")
    case False
    then have "path_str ms = (path_str ns @ ''/'') @ join_with ''/'' ks"
      using assms(3) join_with_append [of ns ks "''/''"] by (simp add: ms path_str_def)
    then show ?thesis by (simp only: starts_with_append simp_thms)
  qed (simp add: ms)
qed

text \<open>
  A search scoped to a folder shows exactly the hits of the unscoped search that lie at or below that
  folder, component by component (a folder's name is not a prefix of its neighbours), in rank order, and
  the limit counts those.
\<close>

theorem scoped_search_confined:
  assumes "\<forall>x \<in> set ns. clean_name x" and "\<forall>x \<in> set ms. clean_name x" and "sh_path h = path_str ms"
  shows "(h \<in> set (search_scoped u ix query (path_str ns) 0)) =
      (h \<in> set (search u ix query 0) \<and> (\<exists>ks. ms = ns @ ks)) \<and>
    search_scoped u ix query (path_str ns) (Suc n) = take (Suc n) (search_scoped u ix query (path_str ns) 0)"
proof (cases "ns = []")
  case True
  then show ?thesis by (simp add: search_scoped_def)
next
  case False
  have "path_str ns \<noteq> ''/''"
    using False path_str_root [OF assms(1)] by simp
  moreover have "trim_end_matches (CHR ''/'') (path_str ns) = path_str ns"
    using path_str_last [OF False assms(1)]
    by (cases "path_str ns" rule: rev_cases) (simp_all add: trim_end_matches_def)
  ultimately have "search_scoped u ix query (path_str ns) k =
      (let inside = filter (\<lambda>h. sh_path h = path_str ns \<or> starts_with (sh_path h) (path_str ns @ ''/'')) (search u ix query 0)
       in if k = 0 then inside else take k inside)" for k
    by (simp add: search_scoped_def Let_def path_str_def)
  then show ?thesis
    using path_below_iff [OF assms(1,2) False] assms(3) by (simp add: Let_def)
qed

theorem scoped_search_confined_witness:
  "map sh_node_id (search_scoped ascii (index_run ascii demo_index) ''docs'' ''/docs'' 0) = [''n1'', ''n2''] \<and>
   (hit_of (ix_docs (index_run ascii demo_index) ! 2) 0 \<in>
      set (search_scoped ascii (index_run ascii demo_index) ''docs'' (path_str [''docs'']) 0)) = False"
proof -
  let ?h = "hit_of (ix_docs (index_run ascii demo_index) ! 2) 0"
  have p: "sh_path ?h = path_str [''docs2'']"
    and ids: "map sh_node_id (search_scoped ascii (index_run ascii demo_index) ''docs'' ''/docs'' 0) = [''n1'', ''n2'']"
    by code_simp+
  from scoped_search_confined [of "[''docs'']" "[''docs2'']" ?h ascii "index_run ascii demo_index" "''docs''"] p ids
  show ?thesis by (simp add: clean_name_def)
qed

section \<open>The index of a drive\<close>

lemma child_of_path_str:
  assumes "\<forall>x \<in> set ns. clean_name x"
  shows "child_of (path_str ns) m = path_str (ns @ [m])"
proof (cases "ns = []")
  case False
  then show ?thesis
    using path_str_root [OF assms] by (simp add: child_of_def path_str_snoc)
qed (simp add: child_of_def path_str_def)

lemma index_dir_returns:
  assumes "walkable d"
  shows "node_at d n ns \<Longrightarrow> fcard (fmdom (edges_of d)) + 2 \<le> k + length ns \<Longrightarrow>
    index_dir k u d (path_str ns) ix \<noteq> None"
proof (induction k arbitrary: n ns ix)
  case 0
  then show ?case using node_at_length [OF 0(1)] by simp
next
  case (Suc k)
  show ?case
  proof (cases "ls d (path_str ns)")
    case (Inr es)
    have "each (\<lambda>e ix. let child = child_of (path_str ns) (de_name e);
          ix1 = index_add u (de_node_id e) child (de_name e) (de_is_dir e) (entry_size e) ix in
        if de_is_dir e then index_dir k u d child ix1 else Some ix1) es ix \<noteq> None"
    proof (rule each_returns)
      fix e ix
      assume "e \<in> set es"
      from ls_at_entry(1) [OF assms Suc.prems(1) Inr this]
      have "index_dir k u d (path_str (ns @ [de_name e])) ix \<noteq> None" for ix
        by (rule Suc.IH) (use Suc.prems(2) in simp)
      then show "(let child = child_of (path_str ns) (de_name e);
          ix1 = index_add u (de_node_id e) child (de_name e) (de_is_dir e) (entry_size e) ix in
        if de_is_dir e then index_dir k u d child ix1 else Some ix1) \<noteq> None"
        by (simp add: Let_def child_of_path_str [OF node_at_clean [OF assms Suc.prems(1)]])
    qed
    then show ?thesis by (simp add: Inr)
  qed simp
qed

text \<open>Every document is a node of the tree under its path.\<close>

definition docs_placed :: "drive \<Rightarrow> search_index \<Rightarrow> bool" where
  "docs_placed d ix \<longleftrightarrow> index_inv ix \<and>
     (\<forall>x \<in> set (ix_docs ix). \<exists>ns. ns \<noteq> [] \<and> node_at d (dc_node_id x) ns \<and> dc_path x = path_str ns)"

lemma index_add_placed:
  "docs_placed d ix \<Longrightarrow> node_at d i ns \<Longrightarrow> ns \<noteq> [] \<Longrightarrow> docs_placed d (index_add u i (path_str ns) name dir sz ix)"
  using index_add_docs [of ix u i "path_str ns" name dir sz] index_add_inv [of ix u i "path_str ns" name dir sz]
  by (auto simp: docs_placed_def)

lemma index_dir_placed:
  assumes "walkable d"
  shows "node_at d n ns \<Longrightarrow> docs_placed d ix \<Longrightarrow> index_dir k u d (path_str ns) ix = Some ix' \<Longrightarrow> docs_placed d ix'"
proof (induction k arbitrary: n ns ix ix')
  case (Suc k)
  show ?case
  proof (cases "ls d (path_str ns)")
    case (Inl e)
    with Suc.prems show ?thesis by simp
  next
    case (Inr es)
    then have run: "each (\<lambda>e ix. let child = child_of (path_str ns) (de_name e);
          ix1 = index_add u (de_node_id e) child (de_name e) (de_is_dir e) (entry_size e) ix in
        if de_is_dir e then index_dir k u d child ix1 else Some ix1) es ix = Some ix'"
      using Suc.prems(3) by simp
    show ?thesis
    proof (rule each_inv [OF run, where P = "docs_placed d", OF Suc.prems(2)])
      fix e s s'
      assume e: "e \<in> set es" and s: "docs_placed d s"
        and step: "(let child = child_of (path_str ns) (de_name e);
          ix1 = index_add u (de_node_id e) child (de_name e) (de_is_dir e) (entry_size e) s in
        if de_is_dir e then index_dir k u d child ix1 else Some ix1) = Some s'"
      note at = ls_at_entry(1) [OF assms Suc.prems(1) Inr e]
      have "docs_placed d (index_add u (de_node_id e) (path_str (ns @ [de_name e])) (de_name e) (de_is_dir e) (entry_size e) s)"
        by (rule index_add_placed [OF s at]) simp
      then show "docs_placed d s'"
        using step Suc.IH [OF at]
        by (simp add: Let_def child_of_path_str [OF node_at_clean [OF assms Suc.prems(1)]] split: if_splits)
    qed
  qed
qed simp

lemma index_add_ids:
  "dc_node_id ` set (ix_docs (index_add u i p name dir sz ix)) = insert i (dc_node_id ` set (ix_docs ix))"
proof (cases "position (\<lambda>x. dc_node_id x = i) (ix_docs ix)")
  case None
  then show ?thesis by (auto simp: index_add_cases(1))
next
  case (Some k)
  note k = position_Some [OF Some]
  have "dc_node_id ` set ((ix_docs ix)[k := doc_for u i p name dir sz]) = dc_node_id ` set (ix_docs ix)"
    using update_same_id [of k "ix_docs ix" dc_node_id "doc_for u i p name dir sz"] k by (metis doc_for_simps(1) set_map)
  moreover have "i \<in> dc_node_id ` set (ix_docs ix)"
    using k by (metis image_eqI nth_mem)
  ultimately show ?thesis by (auto simp: index_add_cases(2) [OF Some])
qed

lemma index_dir_mono:
  "index_dir k u d p ix = Some ix' \<Longrightarrow> i \<in> dc_node_id ` set (ix_docs ix) \<Longrightarrow> i \<in> dc_node_id ` set (ix_docs ix')"
proof (induction k arbitrary: p ix ix')
  case (Suc k)
  show ?case
  proof (cases "ls d p")
    case (Inr es)
    then have run: "each (\<lambda>e ix. let child = child_of p (de_name e);
          ix1 = index_add u (de_node_id e) child (de_name e) (de_is_dir e) (entry_size e) ix in
        if de_is_dir e then index_dir k u d child ix1 else Some ix1) es ix = Some ix'"
      using Suc.prems(1) by simp
    show ?thesis
      by (rule each_inv [OF run, where P = "\<lambda>s. i \<in> dc_node_id ` set (ix_docs s)"])
        (use Suc.prems(2) Suc.IH in \<open>auto simp: Let_def index_add_ids split: if_splits\<close>)
  qed (use Suc.prems in simp)
qed simp

lemma index_dir_complete:
  assumes "walkable d" and "parents_are_dirs (d_tree d)"
  shows "node_at d c (ns @ m # ms) \<Longrightarrow> index_dir k u d (path_str ns) ix = Some ix' \<Longrightarrow>
    \<forall>x \<in> set ns. clean_name x \<Longrightarrow> c \<in> dc_node_id ` set (ix_docs ix')"
proof (induction k arbitrary: ns m ms ix ix')
  case (Suc k)
  obtain b where b: "node_at d b (ns @ [m])" and last: "ms = [] \<Longrightarrow> b = c" and dir: "ms \<noteq> [] \<Longrightarrow> kind_of (d_tree d) b = Dir"
    using Suc.prems(1) node_at_prefix_dir [OF assms(2) Suc.prems(1) _ assms(1)] by (cases "ms = []") auto
  obtain n where n: "node_at d n ns"
    using b by (rule node_at_snocD)
  obtain es e where ls: "ls d (path_str ns) = Inr es" and e: "e \<in> set es" "de_node_id e = b" "de_name e = m"
    by (rule ls_at_child [OF assms(1) b assms(2)])
  have run: "each (\<lambda>e ix. let child = child_of (path_str ns) (de_name e);
        ix1 = index_add u (de_node_id e) child (de_name e) (de_is_dir e) (entry_size e) ix in
      if de_is_dir e then index_dir k u d child ix1 else Some ix1) es ix = Some ix'"
    using Suc.prems(2) ls by simp
  show ?case
  proof (rule each_reaches [OF run e(1), where Q = "\<lambda>s. c \<in> dc_node_id ` set (ix_docs s)"])
    fix s s'
    assume step: "(let child = child_of (path_str ns) (de_name e);
          ix1 = index_add u (de_node_id e) child (de_name e) (de_is_dir e) (entry_size e) s in
        if de_is_dir e then index_dir k u d child ix1 else Some ix1) = Some s'"
    let ?s1 = "index_add u b (path_str (ns @ [m])) m (de_is_dir e) (entry_size e) s"
    have step: "(if de_is_dir e then index_dir k u d (path_str (ns @ [m])) ?s1 else Some ?s1) = Some s'"
      using step by (simp add: Let_def child_of_path_str [OF Suc.prems(3)] e)
    show "c \<in> dc_node_id ` set (ix_docs s')"
    proof (cases ms)
      case Nil
      then have "c \<in> dc_node_id ` set (ix_docs ?s1)"
        using last by (simp add: index_add_ids)
      with step show ?thesis
        using index_dir_mono [of k u d _ ?s1 s' c] by (auto split: if_splits)
    next
      case (Cons m' ms')
      then have "de_is_dir e"
        using dir ls_at_entry(2) [OF assms(1) n ls e(1)] e by simp
      then have "index_dir k u d (path_str (ns @ [m])) ?s1 = Some s'" using step by simp
      from Suc.IH [OF _ this node_at_clean [OF assms(1) b], of m' ms'] Suc.prems(1) Cons show ?thesis
        by simp
    qed
  next
    fix y s s'
    assume "c \<in> dc_node_id ` set (ix_docs s)"
      and "(let child = child_of (path_str ns) (de_name y);
          ix1 = index_add u (de_node_id y) child (de_name y) (de_is_dir y) (entry_size y) s in
        if de_is_dir y then index_dir k u d child ix1 else Some ix1) = Some s'"
    then show "c \<in> dc_node_id ` set (ix_docs s')"
      by (auto simp: Let_def index_add_ids split: if_splits intro: index_dir_mono)
  qed
qed simp

text \<open>
  C37. Building the index of a drive returns, and the index holds exactly the nodes that have a path, the
  root apart, each under that path: nothing trashed, nothing missing. (Names are unique in their
  directory and usable as path components, and every parent is a directory.)
\<close>

theorem index_mirrors_tree:
  assumes "walkable d" and "parents_are_dirs (d_tree d)"
  shows "\<exists>ix. build_index u d = Some ix \<and> distinct (map dc_node_id (ix_docs ix)) \<and>
    (\<lambda>x. (dc_node_id x, dc_path x)) ` set (ix_docs ix) = {(n, p). n \<noteq> ROOT \<and> path_of d n = Some p}"
proof -
  have root: "node_at d ROOT []" by simp
  have "index_dir (Suc (Suc (fcard (fmdom (edges_of d))))) u d (path_str []) index_new \<noteq> None"
    by (rule index_dir_returns [OF assms(1) root]) simp
  then obtain ix where run: "index_dir (Suc (Suc (fcard (fmdom (edges_of d))))) u d (path_str []) index_new = Some ix"
    by blast
  have start: "docs_placed d index_new"
    using index_new_inv by (simp add: docs_placed_def index_new_def)
  note placed = index_dir_placed [OF assms(1) root start run]
  have fwd: "dc_node_id x \<noteq> ROOT \<and> path_of d (dc_node_id x) = Some (dc_path x)" if "x \<in> set (ix_docs ix)" for x
    using placed that node_at_path [OF assms(1)] node_at_reserved [OF assms(1)] by (fastforce simp: docs_placed_def)
  have bwd: "(n, p) \<in> (\<lambda>x. (dc_node_id x, dc_path x)) ` set (ix_docs ix)"
    if n: "n \<noteq> ROOT" and p: "path_of d n = Some p" for n p
  proof -
    obtain ns where ns: "node_at d n ns" using path_node_at [OF p] by blast
    then obtain m ms where "ns = [] @ m # ms"
      using n node_at_simps(1) [of d n] by (cases ns) auto
    with ns have "n \<in> dc_node_id ` set (ix_docs ix)"
      by (intro index_dir_complete [OF assms _ run]) simp_all
    then show ?thesis using fwd p by force
  qed
  have "build_index u d = Some ix"
    using run by (simp add: build_index_def del: index_dir.simps)
  moreover have "distinct (map dc_node_id (ix_docs ix))"
    using placed by (simp add: docs_placed_def index_inv_def docs_ok_def)
  moreover have "(\<lambda>x. (dc_node_id x, dc_path x)) ` set (ix_docs ix) = {(n, p). n \<noteq> ROOT \<and> path_of d n = Some p}"
    using fwd bwd by auto
  ultimately show ?thesis by blast
qed

lemma w3_walkable: "walkable w3"
proof -
  have "clean_name ''docs''" and "clean_name ''a.md''"
    by code_simp+
  then have "tree_edge (d_tree w3) c = Some e \<Longrightarrow> clean_name (e_name e)" for c e
    by (auto simp: tree_edge_def w3_edges fmlookup_of_list split: if_splits)
  moreover have "names_unique (d_tree w3)"
    by (rule names_uniqueI [OF drive_okD(2) [OF demo_ok(4)]])
      (auto simp: tree_edge_def w3_edges fmlookup_of_list split: if_splits)
  ultimately show ?thesis
    using demo_ok(4) by (simp add: walkable_def)
qed

theorem index_mirrors_tree_witness:
  "\<exists>ix. build_index ascii w3 = Some ix \<and> (id_file, ''/docs/a.md'') \<in> (\<lambda>x. (dc_node_id x, dc_path x)) ` set (ix_docs ix)"
proof -
  have "path_of w3 id_file = Some ''/docs/a.md''" and "id_file \<noteq> ROOT"
    by code_simp+
  with index_mirrors_tree [OF w3_walkable w3_dirs, of ascii] show ?thesis by auto
qed

text \<open>
  A node with an empty name makes the walk never return: its path is the path of its parent again. A
  remote move is not validated, so a peer can send one.
\<close>

definition unnamed_dir :: move_op where
  "unnamed_dir = \<lparr>op_ts = Timestamp 1 ''b'', op_child = ''x'', op_new_parent = ROOT, op_new_name = [], op_kind = Dir\<rparr>"

theorem unnamed_directory_diverges:
  "index_dir k u (apply_remote_move (drive_init n r) unnamed_dir) ''/'' ix = None"
proof (induction k arbitrary: ix)
  case (Suc k)
  have "ls (apply_remote_move (drive_init n r) unnamed_dir) ''/'' =
      Inr [\<lparr>de_name = [], de_node_id = ''x'', de_is_dir = True, de_content = None\<rparr>]"
    by code_simp
  then show ?case
    by (simp add: Suc child_of_def)
qed simp

end
