(* ===== verification/Store.thy ===== *)
theory Store
  imports DriveOpsProps
begin

text \<open>
  Chunked transfer of files, \<open>crates/ce-drive-core/src/store.rs\<close>, and its adapter \<open>CoreStore\<close> in
  \<open>crates/ce-drive-mount/src/store_iface.rs\<close>. The node client and the chunking engine are packages
  outside the repository: a record of functions over an abstract node state \<open>'s\<close> stands for the calls
  the code makes (fetch and store a blob, hash, encode and decode a manifest).
\<close>


definition CHUNK_SIZE :: nat where "CHUNK_SIZE = 1048576"
definition STORE_MAX_FILE_SIZE :: u64 where "STORE_MAX_FILE_SIZE = 17179869184"

section \<open>The node and the store\<close>

record manifest =
  mf_kind :: string
  mf_chunk_size :: u64
  mf_total_size :: u64
  mf_chunks :: "string list"

record 's node =
  nd_get_blob :: "string \<Rightarrow> 's \<Rightarrow> string + blob"
  nd_put_blob :: "blob \<Rightarrow> 's \<Rightarrow> 's \<times> (string + string)"
  nd_cid :: "blob \<Rightarrow> string"
  nd_sha256 :: "blob \<Rightarrow> string"
  nd_kind :: string
  nd_encode :: "manifest \<Rightarrow> string + blob"
  nd_decode :: "blob \<Rightarrow> string + manifest"

record stored_file =
  sf_content :: file_content
  sf_manifest :: manifest
  sf_file_cid :: string
  sf_uploaded :: nat

datatype store_error =
    FileTooBig
  | ProbeFailed string string
  | UploadFailed string
  | EncodeFailed string
  | ManifestFailed string
  | OpenFailed string
  | ReadChunkFailed string
  | PutChunkFailed string
  | HashMismatch string string
  | ResolveFailed string
  | NotAManifest string
  | UnsupportedKind string
  | FetchFailed string
  | ChunkMismatch string string
  | SizeMismatch u64 u64

text \<open>A probe answered with \<open>not found\<close> or \<open>404\<close> is an absent chunk, any other error is passed on.\<close>

definition not_found :: "string \<Rightarrow> bool" where
  "not_found msg \<longleftrightarrow> str_contains msg ''not found'' \<or> str_contains msg ''404''"

fun missing_chunks :: "'s node \<Rightarrow> 's \<Rightarrow> string list \<Rightarrow> store_error + string list" where
  "missing_chunks nd s [] = Inr []"
| "missing_chunks nd s (c # cs) =
     (case nd_get_blob nd c s of
        Inr _ \<Rightarrow> missing_chunks nd s cs
      | Inl e \<Rightarrow>
          if not_found e then res_bind (missing_chunks nd s cs) (\<lambda>ms. Inr (c # ms))
          else Inl (ProbeFailed c e))"

section \<open>Storing bytes held in memory\<close>

text \<open>What the chunking engine returns for a byte string, and its upload of the missing chunks.\<close>

record chunked_file =
  cf_manifest :: manifest
  cf_file_cid :: string
  cf_size :: u64
  cf_chunk_cids :: "string list"

type_synonym chunk_bytes = "blob \<Rightarrow> chunked_file \<times> (string \<times> blob) list"
type_synonym 's upload_missing = "(string \<times> blob) list \<Rightarrow> string list \<Rightarrow> 's \<Rightarrow> 's \<times> (string + nat)"

fun distinct_from :: "string fset \<Rightarrow> string list \<Rightarrow> string list" where
  "distinct_from seen [] = []"
| "distinct_from seen (c # cs) =
     (if c |\<in>| seen then distinct_from seen cs else c # distinct_from (finsert c seen) cs)"

definition put_manifest :: "'s node \<Rightarrow> manifest \<Rightarrow> 's \<Rightarrow> 's \<times> (store_error + string)" where
  "put_manifest nd m s =
     (case nd_encode nd m of
        Inl e \<Rightarrow> (s, Inl (EncodeFailed e))
      | Inr b \<Rightarrow> (case nd_put_blob nd b s of (s1, Inl e) \<Rightarrow> (s1, Inl (ManifestFailed e)) | (s1, Inr cid) \<Rightarrow> (s1, Inr cid)))"

definition store_put_bytes ::
    "'s node \<Rightarrow> chunk_bytes \<Rightarrow> 's upload_missing \<Rightarrow> u64 \<Rightarrow> blob \<Rightarrow> u32 \<Rightarrow> u64 \<Rightarrow> 's \<Rightarrow> 's \<times> (store_error + stored_file)" where
  "store_put_bytes nd chunk_bytes upload_missing max_size data mode mtime_ms s =
     (if of_nat (length data) > max_size then (s, Inl FileTooBig)
      else
        (let (cf, chunks) = chunk_bytes data in
         (case missing_chunks nd s (distinct_from {||} (cf_chunk_cids cf)) of
            Inl e \<Rightarrow> (s, Inl e)
          | Inr missing \<Rightarrow>
              (case upload_missing chunks missing s of
                 (s1, Inl e) \<Rightarrow> (s1, Inl (UploadFailed e))
               | (s1, Inr uploaded) \<Rightarrow>
                   (case put_manifest nd (cf_manifest cf) s1 of
                      (s2, Inl e) \<Rightarrow> (s2, Inl e)
                    | (s2, Inr object_cid) \<Rightarrow>
                        (s2, Inr \<lparr>sf_content = fc_new object_cid (cf_size cf) mode mtime_ms,
                               sf_manifest = cf_manifest cf, sf_file_cid = cf_file_cid cf,
                               sf_uploaded = uploaded\<rparr>))))))"

section \<open>Streaming a file\<close>

text \<open>
  A buffered reader as the list of what its reads deliver: some bytes, an interruption, or an error; the
  end of the list is the end of the file, and so is a read of no bytes. A read longer than the space left
  in the buffer keeps its tail.
\<close>

datatype read_result = Got blob | Interrupted | ReadError string

fun fill_chunk :: "nat \<Rightarrow> blob \<Rightarrow> read_result list \<Rightarrow> string + blob \<times> read_result list" where
  "fill_chunk space buf [] = Inr (buf, [])"
| "fill_chunk space buf (r # rs) =
     (if space = 0 then Inr (buf, r # rs)
      else
        (case r of
           Interrupted \<Rightarrow> fill_chunk space buf rs
         | ReadError e \<Rightarrow> Inl e
         | Got b \<Rightarrow>
             if b = [] then Inr (buf, rs)
             else if length b \<le> space then fill_chunk (space - length b) (buf @ b) rs
             else Inr (buf @ take space b, Got (drop space b) # rs)))"

record stream_acc =
  sa_cids :: "string list"
  sa_total :: u64
  sa_hashed :: blob
  sa_seen :: "string fset"
  sa_uploaded :: nat

text \<open>Probe one chunk and upload it if it is absent: 1 when it moved, 0 when it was there.\<close>

definition put_chunk :: "'s node \<Rightarrow> string \<Rightarrow> blob \<Rightarrow> 's \<Rightarrow> 's \<times> (store_error + nat)" where
  "put_chunk nd cid piece s =
     (case missing_chunks nd s [cid] of
        Inl e \<Rightarrow> (s, Inl e)
      | Inr missing \<Rightarrow>
          if missing = [] then (s, Inr 0)
          else
            (case nd_put_blob nd piece s of
               (s1, Inl e) \<Rightarrow> (s1, Inl (PutChunkFailed e))
             | (s1, Inr stored) \<Rightarrow>
                 if stored \<noteq> cid then (s1, Inl (HashMismatch stored cid)) else (s1, Inr 1)))"

text \<open>One chunk of the loop, after its size was accepted.\<close>

definition stream_chunk :: "'s node \<Rightarrow> blob \<Rightarrow> stream_acc \<Rightarrow> 's \<Rightarrow> 's \<times> (store_error + stream_acc)" where
  "stream_chunk nd piece a s =
     (let cid = nd_cid nd piece;
          a1 = a\<lparr>sa_total := sa_total a + of_nat (length piece), sa_hashed := sa_hashed a @ piece,
                 sa_cids := sa_cids a @ [cid]\<rparr> in
      if cid |\<in>| sa_seen a then (s, Inr a1)
      else
        (case put_chunk nd cid piece s of
           (s1, Inl e) \<Rightarrow> (s1, Inl e)
         | (s1, Inr n) \<Rightarrow> (s1, Inr (a1\<lparr>sa_seen := finsert cid (sa_seen a), sa_uploaded := sa_uploaded a + n\<rparr>))))"

fun read_size :: "read_result list \<Rightarrow> nat" where
  "read_size [] = 0"
| "read_size (Got b # rs) = length b + read_size rs"
| "read_size (r # rs) = read_size rs"

lemma fill_chunk_size:
  "fill_chunk space buf rs = Inr (out, rest) \<Longrightarrow> length out + read_size rest \<le> length buf + read_size rs"
proof (induction space buf rs rule: fill_chunk.induct)
  case (2 space buf r rs)
  then show ?case by (cases r) (auto split: if_splits)
qed simp

function stream_put ::
    "'s node \<Rightarrow> u64 \<Rightarrow> nat \<Rightarrow> read_result list \<Rightarrow> stream_acc \<Rightarrow> 's \<Rightarrow> 's \<times> (store_error + stream_acc)" where
  "stream_put nd max_size k reader a s =
     (case fill_chunk k [] reader of
        Inl e \<Rightarrow> (s, Inl (ReadChunkFailed e))
      | Inr (piece, rest) \<Rightarrow>
          if piece = [] then (s, Inr a)
          else if sa_total a + of_nat (length piece) > max_size then (s, Inl FileTooBig)
          else
            (case stream_chunk nd piece a s of
               (s1, Inl e) \<Rightarrow> (s1, Inl e)
             | (s1, Inr a1) \<Rightarrow> stream_put nd max_size k rest a1 s1))"
  by pat_completeness auto
termination
  by (relation "measure (\<lambda>(nd, max_size, k, reader, a, s). read_size reader)") (auto dest!: fill_chunk_size simp flip: length_greater_0_conv)

declare stream_put.simps [simp del]

text \<open>What the file system says of the path: mode, modification time and length, if it says anything.\<close>

record file_meta =
  fm_mode :: u32
  fm_mtime_ms :: u64
  fm_len :: u64

definition put_file ::
    "'s node \<Rightarrow> u64 \<Rightarrow> nat \<Rightarrow> file_meta option \<Rightarrow> string + read_result list \<Rightarrow> 's \<Rightarrow> 's \<times> (store_error + stored_file)" where
  "put_file nd max_size k meta opened s =
     (let mode = (case meta of Some m \<Rightarrow> fm_mode m | None \<Rightarrow> 0x1A4);
          mtime_ms = (case meta of Some m \<Rightarrow> fm_mtime_ms m | None \<Rightarrow> 0) in
      if (case meta of Some m \<Rightarrow> fm_len m > max_size | None \<Rightarrow> False) then (s, Inl FileTooBig)
      else
        (case opened of
           Inl e \<Rightarrow> (s, Inl (OpenFailed e))
         | Inr reader \<Rightarrow>
             (case stream_put nd max_size k reader
                     \<lparr>sa_cids = [], sa_total = 0, sa_hashed = [], sa_seen = {||}, sa_uploaded = 0\<rparr> s of
                (s1, Inl e) \<Rightarrow> (s1, Inl e)
              | (s1, Inr a) \<Rightarrow>
                  (let m = \<lparr>mf_kind = nd_kind nd, mf_chunk_size = of_nat k, mf_total_size = sa_total a,
                            mf_chunks = sa_cids a\<rparr> in
                   (case put_manifest nd m s1 of
                      (s2, Inl e) \<Rightarrow> (s2, Inl e)
                    | (s2, Inr object_cid) \<Rightarrow>
                        (s2, Inr \<lparr>sf_content = fc_new object_cid (sa_total a) mode mtime_ms, sf_manifest = m,
                               sf_file_cid = nd_sha256 nd (sa_hashed a), sf_uploaded = sa_uploaded a\<rparr>))))))"

definition store_put_file ::
    "'s node \<Rightarrow> u64 \<Rightarrow> file_meta option \<Rightarrow> string + read_result list \<Rightarrow> 's \<Rightarrow> 's \<times> (store_error + stored_file)" where
  "store_put_file nd max_size meta opened s = put_file nd max_size CHUNK_SIZE meta opened s"

section \<open>Fetching a file\<close>

text \<open>
  The two files \<open>get_file_to_path\<close> touches: the partial one it writes and the destination it renames it
  to. Errors of the local disk are left out.
\<close>

record local_files =
  lf_partial :: "blob option"
  lf_dest :: "blob option"

fun fetch_chunks :: "'s node \<Rightarrow> 's \<Rightarrow> string list \<Rightarrow> blob \<Rightarrow> u64 \<Rightarrow> blob \<times> (store_error + u64)" where
  "fetch_chunks nd s [] out written = (out, Inr written)"
| "fetch_chunks nd s (c # cs) out written =
     (case nd_get_blob nd c s of
        Inl e \<Rightarrow> (out, Inl (FetchFailed e))
      | Inr piece \<Rightarrow>
          if nd_cid nd piece \<noteq> c then (out, Inl (ChunkMismatch c (nd_cid nd piece)))
          else fetch_chunks nd s cs (out @ piece) (written + of_nat (length piece)))"

text \<open>A failed verification removes the partial file, a failed fetch leaves it behind.\<close>

definition get_file_to_path :: "'s node \<Rightarrow> u64 \<Rightarrow> string \<Rightarrow> 's \<Rightarrow> local_files \<Rightarrow> local_files \<times> (store_error + u64)" where
  "get_file_to_path nd max_size object_cid s fs =
     (case nd_get_blob nd object_cid s of
        Inl e \<Rightarrow> (fs, Inl (ResolveFailed e))
      | Inr b \<Rightarrow>
          (case nd_decode nd b of
             Inl e \<Rightarrow> (fs, Inl (NotAManifest e))
           | Inr m \<Rightarrow>
               if mf_kind m \<noteq> nd_kind nd then (fs, Inl (UnsupportedKind (mf_kind m)))
               else if mf_total_size m > max_size then (fs, Inl FileTooBig)
               else
                 (case fetch_chunks nd s (mf_chunks m) [] 0 of
                    (out, Inl (ChunkMismatch c g)) \<Rightarrow> (fs\<lparr>lf_partial := None\<rparr>, Inl (ChunkMismatch c g))
                  | (out, Inl e) \<Rightarrow> (fs\<lparr>lf_partial := Some out\<rparr>, Inl e)
                  | (out, Inr written) \<Rightarrow>
                      if written \<noteq> mf_total_size m then
                        (fs\<lparr>lf_partial := None\<rparr>, Inl (SizeMismatch written (mf_total_size m)))
                      else (fs\<lparr>lf_partial := None, lf_dest := Some out\<rparr>, Inr written))))"

section \<open>The mount's store\<close>

text \<open>\<open>CoreStore\<close>: an empty content id is an empty file, other objects come from the node client.\<close>

definition core_get_object :: "(string \<Rightarrow> store_error + blob) \<Rightarrow> string \<Rightarrow> store_error + blob" where
  "core_get_object get_file cid = (if cid = [] then Inr [] else get_file cid)"

definition core_put_bytes ::
    "'s node \<Rightarrow> chunk_bytes \<Rightarrow> 's upload_missing \<Rightarrow> u64 \<Rightarrow> blob \<Rightarrow> u32 \<Rightarrow> u64 \<Rightarrow> 's \<Rightarrow>
     's \<times> (store_error + file_content \<times> nat)" where
  "core_put_bytes nd chunk_bytes upload_missing max_size data mode mtime_ms s =
     (case store_put_bytes nd chunk_bytes upload_missing max_size data mode mtime_ms s of
        (s1, Inl e) \<Rightarrow> (s1, Inl e)
      | (s1, Inr st) \<Rightarrow> (s1, Inr (sf_content st, sf_uploaded st)))"

section \<open>Chunk boundaries\<close>

text \<open>The bytes a reader delivers before its end, and the fixed-size chunks of a byte string.\<close>

fun read_data :: "read_result list \<Rightarrow> blob" where
  "read_data [] = []"
| "read_data (Got b # rs) = b @ read_data rs"
| "read_data (Interrupted # rs) = read_data rs"
| "read_data (ReadError e # rs) = []"

function chunks_of :: "nat \<Rightarrow> 'a list \<Rightarrow> 'a list list" where
  "chunks_of k xs = (if k = 0 \<or> xs = [] then [] else take k xs # chunks_of k (drop k xs))"
  by pat_completeness auto
termination by (relation "measure (\<lambda>(k, xs). length xs)") auto

declare chunks_of.simps [simp del]

lemma concat_chunks_of: "0 < k \<Longrightarrow> concat (chunks_of k xs) = xs"
  by (induction k xs rule: chunks_of.induct) (subst chunks_of.simps, simp)

text \<open>A read of no bytes happens only at the end of the file.\<close>

definition proper_reader :: "read_result list \<Rightarrow> bool" where
  "proper_reader rs \<longleftrightarrow> Got [] \<notin> set rs"

text \<open>However the reads fall, the buffer is filled with the next bytes of the file.\<close>

lemma fill_chunk_exact:
  "fill_chunk space buf rs = Inr (out, rest) \<Longrightarrow> proper_reader rs \<Longrightarrow>
    out = buf @ take space (read_data rs) \<and> read_data rest = drop space (read_data rs) \<and> proper_reader rest"
proof (induction space buf rs rule: fill_chunk.induct)
  case (2 space buf r rs)
  then show ?case
    by (cases r) (auto simp: proper_reader_def split: if_splits)
qed simp

end
