(* ===== verification/StoreProps.thy ===== *)
theory StoreProps
  imports Store
begin

text \<open>
  What streaming a file in and out of the store guarantees: the manifest names the fixed-size chunks of
  the file whatever the reads delivered, every chunk is fetchable afterwards, fetching the object writes
  the same bytes back, and storing the same bytes again uploads nothing.
\<close>

section \<open>What the node promises\<close>

text \<open>
  Content addressing, as the node client documents it: storing a blob returns its id and makes it
  fetchable, blobs are never lost by a put, a blob fetched under the id of \<open>b\<close> is \<open>b\<close>, and the manifest
  codec reads back what it wrote.
\<close>

definition node_ok :: "'s node \<Rightarrow> bool" where
  "node_ok nd \<longleftrightarrow>
     (\<forall>b s s1 c. nd_put_blob nd b s = (s1, Inr c) \<longrightarrow> c = nd_cid nd b \<and> nd_get_blob nd c s1 = Inr b) \<and>
     (\<forall>b s s1 r c x. nd_put_blob nd b s = (s1, r) \<longrightarrow> nd_get_blob nd c s = Inr x \<longrightarrow> nd_get_blob nd c s1 = Inr x) \<and>
     (\<forall>b s x. nd_get_blob nd (nd_cid nd b) s = Inr x \<longrightarrow> x = b) \<and>
     (\<forall>m b. nd_encode nd m = Inr b \<longrightarrow> nd_decode nd b = Inr m)"

lemma node_putD: "node_ok nd \<Longrightarrow> nd_put_blob nd b s = (s1, Inr c) \<Longrightarrow> c = nd_cid nd b \<and> nd_get_blob nd c s1 = Inr b"
  unfolding node_ok_def by blast

lemma node_keepD: "node_ok nd \<Longrightarrow> nd_put_blob nd b s = (s1, r) \<Longrightarrow> nd_get_blob nd c s = Inr x \<Longrightarrow> nd_get_blob nd c s1 = Inr x"
  unfolding node_ok_def by blast

lemma node_addrD: "node_ok nd \<Longrightarrow> nd_get_blob nd (nd_cid nd b) s = Inr x \<Longrightarrow> x = b"
  unfolding node_ok_def by blast

lemma node_codecD: "node_ok nd \<Longrightarrow> nd_encode nd m = Inr b \<Longrightarrow> nd_decode nd b = Inr m"
  unfolding node_ok_def by blast

definition held :: "'s node \<Rightarrow> 's \<Rightarrow> string \<Rightarrow> bool" where
  "held nd s c \<longleftrightarrow> (\<exists>x. nd_get_blob nd c s = Inr x)"

definition keeps :: "'s node \<Rightarrow> 's \<Rightarrow> 's \<Rightarrow> bool" where
  "keeps nd s s1 \<longleftrightarrow> (\<forall>c x. nd_get_blob nd c s = Inr x \<longrightarrow> nd_get_blob nd c s1 = Inr x)"

lemma keeps_refl [simp]: "keeps nd s s"
  by (simp add: keeps_def)

lemma keeps_trans: "keeps nd s s1 \<Longrightarrow> keeps nd s1 s2 \<Longrightarrow> keeps nd s s2"
  by (simp add: keeps_def)

lemma keeps_held: "keeps nd s s1 \<Longrightarrow> held nd s c \<Longrightarrow> held nd s1 c"
  by (auto simp: keeps_def held_def)

lemma held_addr: "node_ok nd \<Longrightarrow> held nd s (nd_cid nd b) \<Longrightarrow> nd_get_blob nd (nd_cid nd b) s = Inr b"
  by (auto simp: held_def dest: node_addrD)

section \<open>The streaming loop\<close>

lemma missing_one:
  "missing_chunks nd s [c] = Inr ms \<Longrightarrow> (ms = [] \<longleftrightarrow> held nd s c)"
  by (cases "nd_get_blob nd c s") (auto simp: held_def split: if_splits)

lemma put_chunk_held: "held nd s c \<Longrightarrow> put_chunk nd c p s = (s, Inr 0)"
  by (auto simp: put_chunk_def held_def)

lemma put_chunk_stores:
  assumes "node_ok nd" and "put_chunk nd (nd_cid nd p) p s = (s1, Inr n)"
  shows "held nd s1 (nd_cid nd p) \<and> keeps nd s s1"
proof -
  from assms(2) obtain ms where ms: "missing_chunks nd s [nd_cid nd p] = Inr ms"
    by (cases "missing_chunks nd s [nd_cid nd p]") (simp_all add: put_chunk_def del: missing_chunks.simps)
  show ?thesis
  proof (cases "ms = []")
    case True
    then show ?thesis
      using assms(2) ms missing_one [OF ms] by (simp add: put_chunk_def del: missing_chunks.simps)
  next
    case False
    have "nd_put_blob nd p s = (s1, Inr (nd_cid nd p))"
      using assms(2) ms False
      by (simp add: put_chunk_def del: missing_chunks.simps split: prod.splits sum.splits if_splits)
    then show ?thesis
      using node_putD [OF assms(1)] node_keepD [OF assms(1)] unfolding held_def keeps_def by blast
  qed
qed

definition seen_ok :: "'s node \<Rightarrow> 's \<Rightarrow> stream_acc \<Rightarrow> bool" where
  "seen_ok nd s a \<longleftrightarrow> set (sa_cids a) \<subseteq> fset (sa_seen a) \<and> (\<forall>c. c |\<in>| sa_seen a \<longrightarrow> held nd s c)"

lemma stream_chunk_fields:
  "stream_chunk nd p a s = (s1, Inr a1) \<Longrightarrow>
    sa_cids a1 = sa_cids a @ [nd_cid nd p] \<and> sa_hashed a1 = sa_hashed a @ p \<and>
    sa_total a1 = sa_total a + of_nat (length p)"
  by (auto simp: stream_chunk_def Let_def split: if_splits prod.splits sum.splits)

lemma stream_chunk_stores:
  assumes "node_ok nd" and "seen_ok nd s a" and "stream_chunk nd p a s = (s1, Inr a1)"
  shows "seen_ok nd s1 a1 \<and> keeps nd s s1"
proof (cases "nd_cid nd p |\<in>| sa_seen a")
  case True
  then show ?thesis using assms by (auto simp: stream_chunk_def seen_ok_def)
next
  case False
  then obtain n where n: "put_chunk nd (nd_cid nd p) p s = (s1, Inr n)"
    and a1: "sa_cids a1 = sa_cids a @ [nd_cid nd p]" "sa_seen a1 = finsert (nd_cid nd p) (sa_seen a)"
    using assms(3) by (auto simp: stream_chunk_def Let_def split: prod.splits sum.splits)
  show ?thesis
    using put_chunk_stores [OF assms(1) n] assms(2) a1 by (auto simp: seen_ok_def intro: keeps_held)
qed

lemma stream_chunk_held:
  "held nd s (nd_cid nd p) \<Longrightarrow> \<exists>a1. stream_chunk nd p a s = (s, Inr a1) \<and> sa_uploaded a1 = sa_uploaded a"
  by (auto simp: stream_chunk_def Let_def put_chunk_held)

text \<open>One round of the loop that succeeded.\<close>

lemma stream_put_cases:
  assumes "stream_put nd mx k rs a s = (s1, Inr a1)"
  obtains (finish) rest where "fill_chunk k [] rs = Inr ([], rest)" and "s1 = s" and "a1 = a"
  | (more) p rest s' a' where "fill_chunk k [] rs = Inr (p, rest)" and "p \<noteq> []"
      and "sa_total a + of_nat (length p) \<le> mx"
      and "stream_chunk nd p a s = (s', Inr a')" and "stream_put nd mx k rest a' s' = (s1, Inr a1)"
proof -
  from assms show thesis
    apply (subst (asm) stream_put.simps)
    apply (auto split: sum.splits prod.splits if_splits intro: finish more simp: not_less)
    done
qed


text \<open>
  The three facts a successful stream leaves behind, by induction on what is left to read: the cids and
  hashed bytes are those of the file's chunks, the size limit was kept, and every chunk is stored.
\<close>

lemma chunks_of_Nil [simp]: "chunks_of k [] = []"
  by (subst chunks_of.simps) simp

lemma chunks_of_step: "0 < k \<Longrightarrow> take k xs \<noteq> [] \<Longrightarrow> chunks_of k xs = take k xs # chunks_of k (drop k xs)"
  by (subst chunks_of.simps) auto

lemma fill_from_empty:
  "fill_chunk k [] rs = Inr (p, rest) \<Longrightarrow> proper_reader rs \<Longrightarrow>
    p = take k (read_data rs) \<and> read_data rest = drop k (read_data rs) \<and> proper_reader rest"
  using fill_chunk_exact [of k "[]" rs p rest] by simp

lemma fill_shrinks: "fill_chunk k [] rs = Inr (p, rest) \<Longrightarrow> p \<noteq> [] \<Longrightarrow> read_size rest < read_size rs"
  using fill_chunk_size [of k "[]" rs p rest] by (cases p) auto

lemma stream_put_exact:
  "stream_put nd mx k rs a s = (s1, Inr a1) \<Longrightarrow> proper_reader rs \<Longrightarrow> 0 < k \<Longrightarrow>
    sa_cids a1 = sa_cids a @ map (nd_cid nd) (chunks_of k (read_data rs)) \<and>
    sa_hashed a1 = sa_hashed a @ read_data rs \<and>
    sa_total a1 = sa_total a + of_nat (length (read_data rs)) \<and>
    (sa_total a \<le> mx \<longrightarrow> sa_total a1 \<le> mx)"
proof (induction "read_size rs" arbitrary: rs a s rule: less_induct)
  case less
  from less.prems(1) show ?case
  proof (cases rule: stream_put_cases)
    case (finish rest)
    then have "read_data rs = []"
      using fill_from_empty [of k rs "[]" rest] less.prems(2,3) by simp
    then show ?thesis using finish by simp
  next
    case (more p rest s' a')
    have p: "p = take k (read_data rs)" "read_data rest = drop k (read_data rs)" "proper_reader rest"
      using fill_from_empty [OF more(1) less.prems(2)] by auto
    have IH: "sa_cids a1 = sa_cids a' @ map (nd_cid nd) (chunks_of k (read_data rest)) \<and>
        sa_hashed a1 = sa_hashed a' @ read_data rest \<and>
        sa_total a1 = sa_total a' + of_nat (length (read_data rest)) \<and> (sa_total a' \<le> mx \<longrightarrow> sa_total a1 \<le> mx)"
      by (rule less.hyps [OF fill_shrinks [OF more(1,2)] more(5) p(3) less.prems(3)])
    have f: "sa_cids a' = sa_cids a @ [nd_cid nd p]" "sa_hashed a' = sa_hashed a @ p"
        "sa_total a' = sa_total a + of_nat (length p)"
      using stream_chunk_fields [OF more(4)] by auto
    have c: "chunks_of k (read_data rs) = p # chunks_of k (read_data rest)"
      using chunks_of_step [OF less.prems(3), of "read_data rs"] more(2) p(1,2) by simp
    have d: "read_data rs = p @ read_data rest"
      using p(1,2) by simp
    show ?thesis
      using IH f c more(3) unfolding d by (auto simp: add.assoc)
  qed
qed

lemma stream_put_stores:
  "stream_put nd mx k rs a s = (s1, Inr a1) \<Longrightarrow> node_ok nd \<Longrightarrow> seen_ok nd s a \<Longrightarrow>
    seen_ok nd s1 a1 \<and> keeps nd s s1"
proof (induction "read_size rs" arbitrary: rs a s rule: less_induct)
  case less
  from less.prems(1) show ?case
  proof (cases rule: stream_put_cases)
    case (finish rest)
    then show ?thesis using less.prems(3) by simp
  next
    case (more p rest s' a')
    note one = stream_chunk_stores [OF less.prems(2,3) more(4)]
    have "seen_ok nd s1 a1 \<and> keeps nd s' s1"
      by (rule less.hyps [OF fill_shrinks [OF more(1,2)] more(5) less.prems(2)]) (rule conjunct1 [OF one])
    then show ?thesis using one keeps_trans [of nd s s' s1] by simp
  qed
qed

text \<open>Chunks that are all stored already move nothing and leave the node as it is.\<close>

lemma stream_put_known:
  "stream_put nd mx k rs a s = (s1, Inr a1) \<Longrightarrow> proper_reader rs \<Longrightarrow> 0 < k \<Longrightarrow>
    (\<forall>b. b \<in> set (chunks_of k (read_data rs)) \<longrightarrow> held nd s (nd_cid nd b)) \<Longrightarrow>
    s1 = s \<and> sa_uploaded a1 = sa_uploaded a"
proof (induction "read_size rs" arbitrary: rs a s rule: less_induct)
  case less
  from less.prems(1) show ?case
  proof (cases rule: stream_put_cases)
    case (finish rest)
    then show ?thesis by simp
  next
    case (more p rest s' a')
    have p: "p = take k (read_data rs)" "read_data rest = drop k (read_data rs)" "proper_reader rest"
      using fill_from_empty [OF more(1) less.prems(2)] by auto
    have c: "chunks_of k (read_data rs) = p # chunks_of k (read_data rest)"
      using chunks_of_step [OF less.prems(3), of "read_data rs"] more(2) p(1,2) by simp
    then have s': "s' = s" "sa_uploaded a' = sa_uploaded a"
      using stream_chunk_held [of nd s p a] less.prems(4) more(4) by auto
    have "s1 = s' \<and> sa_uploaded a1 = sa_uploaded a'"
      by (rule less.hyps [OF fill_shrinks [OF more(1,2)] more(5) p(3) less.prems(3)])
        (use less.prems(4) c s' in auto)
    then show ?thesis using s' by simp
  qed
qed

section \<open>Fetching\<close>

lemma fetch_chunks_held:
  "node_ok nd \<Longrightarrow> (\<forall>b\<in>set bs. held nd s (nd_cid nd b)) \<Longrightarrow>
    fetch_chunks nd s (map (nd_cid nd) bs) out w = (out @ concat bs, Inr (w + of_nat (length (concat bs))))"
  by (induction bs arbitrary: out w) (auto simp: held_addr add.assoc)

text \<open>A file that was put: its accumulator, its manifest and the manifest's blob.\<close>

lemma put_file_cases:
  assumes "put_file nd mx k meta (Inr rs) s = (s2, Inr st)"
  obtains s1 a1 b where "stream_put nd mx k rs \<lparr>sa_cids = [], sa_total = 0, sa_hashed = [], sa_seen = {||}, sa_uploaded = 0\<rparr> s = (s1, Inr a1)"
    and "sf_manifest st = \<lparr>mf_kind = nd_kind nd, mf_chunk_size = of_nat k, mf_total_size = sa_total a1, mf_chunks = sa_cids a1\<rparr>"
    and "nd_encode nd (sf_manifest st) = Inr b" and "nd_put_blob nd b s1 = (s2, Inr (fc_cid (sf_content st)))"
    and "fc_size (sf_content st) = sa_total a1" and "sf_uploaded st = sa_uploaded a1"
    and "sf_file_cid st = nd_sha256 nd (sa_hashed a1)"
  using assms
  by (auto simp: put_file_def put_manifest_def Let_def fc_new_def split: if_splits sum.splits prod.splits option.splits)


lemma fetch_chunks_verified:
  "fetch_chunks nd s cs out w = (res, Inr n) \<Longrightarrow>
    \<exists>ps. map (nd_cid nd) ps = cs \<and> res = out @ concat ps \<and> n = w + of_nat (length (concat ps))"
proof (induction cs arbitrary: out w)
  case (Cons c cs)
  then obtain p where p: "nd_cid nd p = c"
      "fetch_chunks nd s cs (out @ p) (w + of_nat (length p)) = (res, Inr n)"
    by (auto split: sum.splits if_splits)
  from Cons.IH [OF p(2)] obtain ps where "map (nd_cid nd) ps = cs" "res = out @ p @ concat ps"
      "n = w + of_nat (length p) + of_nat (length (concat ps))"
    by auto
  with p(1) show ?case
    by (intro exI [of _ "p # ps"]) (simp add: add.assoc)
qed simp

section \<open>An example node\<close>

definition demo_cid :: "blob \<Rightarrow> string" where
  "demo_cid b = map (\<lambda>w. char_of (unat w)) b"

definition demo_manifest :: manifest where
  "demo_manifest = \<lparr>mf_kind = ''v1'', mf_chunk_size = 2, mf_total_size = 3,
     mf_chunks = [demo_cid [1, 2], demo_cid [3]]\<rparr>"

definition demo_node :: "blob list node" where
  "demo_node =
     \<lparr>nd_get_blob = (\<lambda>c s. case find (\<lambda>b. demo_cid b = c) s of Some b \<Rightarrow> Inr b | None \<Rightarrow> Inl ''404''),
      nd_put_blob = (\<lambda>b s. (b # s, Inr (demo_cid b))), nd_cid = demo_cid, nd_sha256 = demo_cid, nd_kind = ''v1'',
      nd_encode = (\<lambda>m. if m = demo_manifest then Inr [7] else Inl []),
      nd_decode = (\<lambda>b. if b = [7] then Inr demo_manifest else Inl [])\<rparr>"

definition demo_reader :: "read_result list" where
  "demo_reader = [Got [1], Interrupted, Got [2, 3]]"

definition demo_stored :: stored_file where
  "demo_stored = \<lparr>sf_content = fc_new (demo_cid [7]) 3 0x1A4 0, sf_manifest = demo_manifest,
     sf_file_cid = demo_cid [1, 2, 3], sf_uploaded = 2\<rparr>"

lemma demo_cid_inj: "demo_cid b = demo_cid b' \<longleftrightarrow> b = b'"
proof -
  have "inj (\<lambda>w :: 8 word. char_of (unat w))"
  proof (rule injI)
    fix v w :: "8 word"
    assume "char_of (unat v) = (char_of (unat w) :: char)"
    then have "unat v mod 256 = unat w mod 256"
      by (metis of_char_of)
    moreover have "unat v < 256" "unat w < 256"
      using unsigned_less [of v, where ?'a = nat] unsigned_less [of w, where ?'a = nat] by simp_all
    ultimately have "unat v = unat w"
      by simp
    then show "v = w"
      by (rule word_unat_eq_iff [THEN iffD2])
  qed
  then show ?thesis
    unfolding demo_cid_def by (simp add: inj_map_eq_map)
qed

lemma demo_get: "nd_get_blob demo_node c s = Inr x \<Longrightarrow> demo_cid x = c"
  by (auto simp: demo_node_def find_Some_iff split: option.splits)

lemma demo_put_keeps:
  assumes "nd_get_blob demo_node c s = Inr x"
  shows "nd_get_blob demo_node c (b # s) = Inr x"
  using demo_get [OF assms] assms by (auto simp: demo_node_def demo_cid_inj)

lemma demo_node_ok: "node_ok demo_node"
proof -
  have put: "nd_put_blob demo_node b s = (b # s, Inr (demo_cid b))" and cid: "nd_cid demo_node = demo_cid"
    and fresh: "nd_get_blob demo_node (demo_cid b) (b # s) = Inr b" for b s
    by (simp_all add: demo_node_def)
  have addr: "nd_get_blob demo_node (demo_cid b) s = Inr x \<Longrightarrow> x = b" for b s x
    using demo_get demo_cid_inj by blast
  have codec: "nd_encode demo_node m = Inr b \<Longrightarrow> nd_decode demo_node b = Inr m" for m b
    by (auto simp: demo_node_def split: if_splits)
  show ?thesis
    unfolding node_ok_def put cid using fresh addr codec demo_put_keeps by auto
qed

lemma demo_put: "put_file demo_node 9 2 None (Inr demo_reader) [] = ([[7], [3], [1, 2]], Inr demo_stored)"
  by code_simp

lemma demo_put_again:
  "put_file demo_node 9 2 None (Inr [Got [1, 2, 3]]) [[7], [3], [1, 2]] =
    ([[7], [7], [3], [1, 2]], Inr (demo_stored\<lparr>sf_uploaded := 0\<rparr>))"
  by code_simp

section \<open>Properties\<close>

text \<open>
  Streaming a file into the store (\<open>Store::put_file\<close>): however the operating system splits and
  interrupts the reads, a put that succeeds records the manifest of the file's fixed-size chunks in
  order, the hash of exactly the file's bytes, and its size, which is within the limit.
\<close>

theorem put_file_chunks_exact:
  assumes "put_file nd mx k meta (Inr rs) s = (s2, Inr st)" and "proper_reader rs" and "0 < k"
  shows "mf_chunks (sf_manifest st) = map (nd_cid nd) (chunks_of k (read_data rs)) \<and>
    sf_file_cid st = nd_sha256 nd (read_data rs) \<and>
    fc_size (sf_content st) = of_nat (length (read_data rs)) \<and>
    mf_total_size (sf_manifest st) = fc_size (sf_content st) \<and> fc_size (sf_content st) \<le> mx"
  using assms(1)
proof (cases rule: put_file_cases)
  case (1 s1 a1 b)
  then show ?thesis
    using stream_put_exact [OF 1(1) assms(2,3)] by auto
qed

theorem put_file_chunks_exact_witness:
  "mf_chunks (sf_manifest demo_stored) = map demo_cid [[1, 2], [3]] \<and> fc_size (sf_content demo_stored) = 3"
proof -
  have "read_data demo_reader = [1, 2, 3]" "chunks_of 2 [1, 2, 3 :: 8 word] = [[1, 2], [3]]"
    "proper_reader demo_reader" "nd_cid demo_node = demo_cid"
    by (simp_all add: demo_reader_def chunks_of.simps proper_reader_def demo_node_def)
  then show ?thesis
    using put_file_chunks_exact [OF demo_put] by simp
qed

text \<open>
  C39. Round trip through the store: on a node that keeps what it is given under its content id,
  downloading (\<open>Store::get_file_to_path\<close>) the object a successful \<open>Store::put_file\<close> recorded succeeds,
  publishes exactly the bytes that were read from the file, leaves no partial file and reports the
  recorded size.
\<close>

theorem put_get_roundtrip:
  assumes "node_ok nd" and "put_file nd mx k meta (Inr rs) s = (s2, Inr st)" and "proper_reader rs" and "0 < k"
  shows "get_file_to_path nd mx (fc_cid (sf_content st)) s2 fs =
    (fs\<lparr>lf_partial := None, lf_dest := Some (read_data rs)\<rparr>, Inr (fc_size (sf_content st)))"
  using assms(2)
proof (cases rule: put_file_cases)
  case (1 s1 a1 b)
  note x = stream_put_exact [OF 1(1) assms(3,4)]
  have seen: "seen_ok nd s1 a1"
    using stream_put_stores [OF 1(1) assms(1)] by (simp add: seen_ok_def)
  have "keeps nd s1 s2"
    unfolding keeps_def using node_keepD [OF assms(1) 1(4)] by blast
  then have "\<forall>p\<in>set (chunks_of k (read_data rs)). held nd s2 (nd_cid nd p)"
    using seen x by (auto simp: seen_ok_def intro: keeps_held)
  from fetch_chunks_held [OF assms(1) this, of "[]" 0]
  have "fetch_chunks nd s2 (sa_cids a1) [] 0 = (read_data rs, Inr (sa_total a1))"
    using x concat_chunks_of [OF assms(4), of "read_data rs"] by simp
  moreover have "nd_get_blob nd (fc_cid (sf_content st)) s2 = Inr b"
    using conjunct2 [OF node_putD [OF assms(1) 1(4)]] .
  moreover have "nd_decode nd b = Inr (sf_manifest st)"
    by (rule node_codecD [OF assms(1) 1(3)])
  ultimately show ?thesis
    using 1(2,5) x by (auto simp: get_file_to_path_def not_less)
qed

theorem put_get_roundtrip_witness:
  "get_file_to_path demo_node 9 (demo_cid [7]) [[7], [3], [1, 2]] \<lparr>lf_partial = None, lf_dest = Some [9]\<rparr> =
    (\<lparr>lf_partial = None, lf_dest = Some [1, 2, 3]\<rparr>, Inr 3)"
proof -
  have "proper_reader demo_reader" "read_data demo_reader = [1, 2, 3]"
    "fc_cid (sf_content demo_stored) = demo_cid [7]" "fc_size (sf_content demo_stored) = 3"
    by (simp_all add: demo_reader_def proper_reader_def demo_stored_def fc_new_def)
  then show ?thesis
    using put_get_roundtrip [OF demo_node_ok demo_put] by simp
qed

text \<open>
  Storing again what is stored already: after a successful \<open>Store::put_file\<close>, putting any file with
  the same bytes, in whatever pieces it is read, uploads no chunk and records the same manifest and the
  same object id.
\<close>

theorem storing_again_uploads_nothing:
  assumes "node_ok nd" and "put_file nd mx k meta (Inr rs) s = (s2, Inr st)"
    and "put_file nd mx k meta' (Inr rs') s2 = (s3, Inr st')"
    and "proper_reader rs" and "proper_reader rs'" and "read_data rs' = read_data rs" and "0 < k"
  shows "sf_uploaded st' = 0 \<and> sf_manifest st' = sf_manifest st \<and> fc_cid (sf_content st') = fc_cid (sf_content st)"
proof -
  obtain s1 a1 b where p: "stream_put nd mx k rs \<lparr>sa_cids = [], sa_total = 0, sa_hashed = [], sa_seen = {||}, sa_uploaded = 0\<rparr> s = (s1, Inr a1)"
    and m: "sf_manifest st = \<lparr>mf_kind = nd_kind nd, mf_chunk_size = of_nat k, mf_total_size = sa_total a1, mf_chunks = sa_cids a1\<rparr>"
    and b: "nd_encode nd (sf_manifest st) = Inr b" "nd_put_blob nd b s1 = (s2, Inr (fc_cid (sf_content st)))"
    using put_file_cases [OF assms(2)] by metis
  obtain s1' a1' b' where p': "stream_put nd mx k rs' \<lparr>sa_cids = [], sa_total = 0, sa_hashed = [], sa_seen = {||}, sa_uploaded = 0\<rparr> s2 = (s1', Inr a1')"
    and m': "sf_manifest st' = \<lparr>mf_kind = nd_kind nd, mf_chunk_size = of_nat k, mf_total_size = sa_total a1', mf_chunks = sa_cids a1'\<rparr>"
    and b': "nd_encode nd (sf_manifest st') = Inr b'" "nd_put_blob nd b' s1' = (s3, Inr (fc_cid (sf_content st')))"
    and u': "sf_uploaded st' = sa_uploaded a1'"
    using put_file_cases [OF assms(3)] by metis
  note x = stream_put_exact [OF p assms(4,7)]
  have "seen_ok nd s1 a1"
    using stream_put_stores [OF p assms(1)] by (simp add: seen_ok_def)
  then have "held nd s2 (nd_cid nd q)" if q: "q \<in> set (chunks_of k (read_data rs))" for q
    using x q keeps_held [of nd s1 s2] node_keepD [OF assms(1) b(2)] unfolding seen_ok_def keeps_def by auto
  then have "sa_uploaded a1' = 0"
    using stream_put_known [OF p' assms(5,7)] assms(6) by auto
  moreover have same: "sf_manifest st' = sf_manifest st"
    using x stream_put_exact [OF p' assms(5,7)] m m' assms(6) by simp
  moreover have "fc_cid (sf_content st') = fc_cid (sf_content st)"
    using node_putD [OF assms(1) b(2)] node_putD [OF assms(1) b'(2)] b(1) b'(1) same by simp
  ultimately show ?thesis
    using u' by simp
qed

theorem storing_again_uploads_nothing_witness:
  "sf_uploaded (demo_stored\<lparr>sf_uploaded := 0\<rparr>) = 0 \<and> sf_uploaded demo_stored = 2"
proof -
  have "proper_reader demo_reader" "proper_reader [Got [1, 2, 3]]" "read_data [Got [1, 2, 3]] = read_data demo_reader"
    by (simp_all add: demo_reader_def proper_reader_def)
  then show ?thesis
    using storing_again_uploads_nothing [OF demo_node_ok demo_put demo_put_again] by (simp add: demo_stored_def)
qed


end
