(* ===== verification/Platform.thy ===== *)
theory Platform
  imports DirWalk Vfs
begin

text \<open>
  What the Windows and macOS adapters compute before they call the kernel:
  \<open>crates/ce-drive-mount/src/winnames.rs\<close> (which names a platform can show) and \<open>projfs_logic.rs\<close> (paths
  and file attributes for ProjFS). The forbidden characters are ASCII, so the loops over characters are
  loops over bytes.
\<close>

section \<open>Names\<close>

definition RESERVED :: "string list" where
  "RESERVED =
     [''CON'', ''PRN'', ''AUX'', ''NUL'', ''COM1'', ''COM2'', ''COM3'', ''COM4'', ''COM5'', ''COM6'', ''COM7'',
      ''COM8'', ''COM9'', ''LPT1'', ''LPT2'', ''LPT3'', ''LPT4'', ''LPT5'', ''LPT6'', ''LPT7'', ''LPT8'', ''LPT9'']"

definition FORBIDDEN :: "char list" where
  "FORBIDDEN =
     [CHR ''<'', CHR ''>'', CHR '':'', CHR 0x22, CHR ''/'', CHR 0x5C, CHR ''|'', CHR ''?'', CHR ''*'', CHR 0x00]"

definition ascii_upper :: "char \<Rightarrow> char" where
  "ascii_upper c = (let n = of_char c :: nat in if 97 \<le> n \<and> n \<le> 122 then char_of (n - 32) else c)"

definition eq_ignore_ascii_case :: "string \<Rightarrow> string \<Rightarrow> bool" where
  "eq_ignore_ascii_case a b \<longleftrightarrow> map ascii_upper a = map ascii_upper b"

definition ends_with :: "string \<Rightarrow> char \<Rightarrow> bool" where
  "ends_with s c \<longleftrightarrow> s \<noteq> [] \<and> last s = c"

definition normalize_windows :: "string \<Rightarrow> string option" where
  "normalize_windows name =
     (if name = [] \<or> name = ''.'' \<or> name = ''..'' then None
      else if list_ex (\<lambda>c. c \<in> set FORBIDDEN \<or> (of_char c :: nat) < 32) name then None
      else if ends_with name (CHR ''.'') \<or> ends_with name (CHR '' '') then None
      else
        (let stem = hd (split_on (CHR ''.'') name) in
         if list_ex (\<lambda>r. eq_ignore_ascii_case r stem) RESERVED then None else Some name))"

definition normalize_macos :: "string \<Rightarrow> string option" where
  "normalize_macos name =
     (if name = [] \<or> name = ''.'' \<or> name = ''..'' \<or> CHR ''/'' \<in> set name \<or> CHR 0x00 \<in> set name then None
      else Some name)"

section \<open>ProjFS\<close>

record basic_info_fields =
  bi_is_directory :: bool
  bi_file_size :: u64
  bi_filetime :: u64
  bi_file_attributes :: u32

definition FILE_ATTRIBUTE_DIRECTORY :: u32 where "FILE_ATTRIBUTE_DIRECTORY = 0x10"
definition FILE_ATTRIBUTE_NORMAL :: u32 where "FILE_ATTRIBUTE_NORMAL = 0x80"
definition EPOCH_DIFF_100NS :: u64 where "EPOCH_DIFF_100NS = 116444736000000000"

definition sat_add :: "u64 \<Rightarrow> u64 \<Rightarrow> u64" where
  "sat_add a b = (if unat a + unat b < 2 ^ 64 then a + b else - 1)"

definition ms_to_filetime :: "u64 \<Rightarrow> u64" where
  "ms_to_filetime mtime_ms = sat_add EPOCH_DIFF_100NS (sat_mul mtime_ms 10000)"

definition basic_info :: "attr \<Rightarrow> basic_info_fields" where
  "basic_info a =
     \<lparr>bi_is_directory = a_is_dir a, bi_file_size = a_size a, bi_filetime = ms_to_filetime (a_mtime_ms a),
      bi_file_attributes = (if a_is_dir a then FILE_ATTRIBUTE_DIRECTORY else FILE_ATTRIBUTE_NORMAL)\<rparr>"

fun win_components :: "string list \<Rightarrow> string option" where
  "win_components [] = Some []"
| "win_components (c # cs) =
     (case normalize_windows c of
        None \<Rightarrow> None
      | Some n \<Rightarrow> map_option (\<lambda>rest. ''/'' @ n @ rest) (win_components cs))"

definition win_path_to_engine :: "string \<Rightarrow> string option" where
  "win_path_to_engine p =
     (if p = [CHR 0x5C] \<or> p = [] then Some ''/''
      else win_components (filter (\<lambda>c. c \<noteq> []) (split_on (CHR 0x5C) p)))"

section \<open>Lemmas\<close>

lemma normalize_windows_same: "normalize_windows n = None \<or> normalize_windows n = Some n"
  by (simp add: normalize_windows_def Let_def)

lemma forbidden_separators: "CHR ''/'' \<in> set FORBIDDEN" "CHR 0x5C \<in> set FORBIDDEN"
  by (simp_all add: FORBIDDEN_def)

lemma normalize_windows_chars:
  assumes "normalize_windows n \<noteq> None"
  shows "n \<noteq> []" and "c \<in> set n \<Longrightarrow> c \<notin> set FORBIDDEN" and "c \<in> set n \<Longrightarrow> 32 \<le> (of_char c :: nat)"
proof -
  have "n \<noteq> [] \<and> \<not> list_ex (\<lambda>c. c \<in> set FORBIDDEN \<or> (of_char c :: nat) < 32) n"
    using assms unfolding normalize_windows_def by (simp only: split: if_splits) simp_all
  then show "n \<noteq> []" and "c \<in> set n \<Longrightarrow> c \<notin> set FORBIDDEN" and "c \<in> set n \<Longrightarrow> 32 \<le> (of_char c :: nat)"
    by (auto simp: list_ex_iff not_less)
qed

lemma normalize_windows_clean:
  assumes "normalize_windows n \<noteq> None"
  shows "clean_name n" and "check_chars n = Inr ()"
proof -
  note chars = normalize_windows_chars [OF assms]
  have "c \<noteq> CHR ''/''" and "c \<noteq> CHR 0x5C" if "c \<in> set n" for c
    using chars(2) [OF that] forbidden_separators by blast+
  with chars(1,3) show "clean_name n" and "check_chars n = Inr ()"
    unfolding check_chars_ok clean_name_def by blast+
qed

lemma win_components_Some:
  "win_components cs = Some s \<longleftrightarrow> list_all (\<lambda>c. normalize_windows c = Some c) cs \<and> s = concat (map (\<lambda>c. ''/'' @ c) cs)"
proof (induction cs arbitrary: s)
  case (Cons c cs)
  from normalize_windows_same [of c] show ?case
    by (elim disjE) (auto simp: Cons)
qed auto

lemma concat_slashes: "ns \<noteq> [] \<Longrightarrow> concat (map (\<lambda>c. ''/'' @ c) ns) = path_str ns"
proof (induction ns)
  case (Cons n ns)
  then show ?case by (cases ns) (auto simp: path_str_def)
qed simp

lemma unat_sat_add: "unat (sat_add a b) = min (unat a + unat b) (2 ^ 64 - 1)"
proof (cases "unat a + unat b < 2 ^ 64")
  case True
  then have "unat (a + b) = unat a + unat b"
    using unat_add_lem [of a b] by simp
  with True show ?thesis by (simp add: sat_add_def)
qed (simp add: sat_add_def unsigned_minus_1_eq_mask mask_eq_exp_minus_1)

section \<open>Properties\<close>

text \<open>
  A Windows path that is accepted names what its components say: they are the non-empty parts between
  backslashes, each one representable on Windows and usable as a component of an engine path, and the
  path resolves as walking them from the root does.
\<close>

theorem windows_path_resolves:
  assumes "win_path_to_engine p = Some s"
  shows "list_all (\<lambda>c. normalize_windows c = Some c \<and> clean_name c) (filter (\<lambda>c. c \<noteq> []) (split_on (CHR 0x5C) p)) \<and>
    resolve t s = resolve_from t ROOT (filter (\<lambda>c. c \<noteq> []) (split_on (CHR 0x5C) p))"
proof (cases "p = [CHR 0x5C] \<or> p = []")
  case True
  then have "filter (\<lambda>c. c \<noteq> []) (split_on (CHR 0x5C) p) = []" by auto
  moreover have "s = ''/''" using assms True by (simp add: win_path_to_engine_def)
  ultimately show ?thesis by (simp add: resolve_def)
next
  case False
  let ?ns = "filter (\<lambda>c. c \<noteq> []) (split_on (CHR 0x5C) p)"
  have ns: "list_all (\<lambda>c. normalize_windows c = Some c) ?ns" and s: "s = concat (map (\<lambda>c. ''/'' @ c) ?ns)"
    using assms False by (simp_all only: win_path_to_engine_def if_False win_components_Some)
  have clean: "\<forall>x \<in> set ?ns. clean_name x"
    using ns normalize_windows_clean(1) unfolding list_all_iff by (metis option.distinct(1))
  have "resolve t s = resolve_from t ROOT ?ns"
  proof (cases "?ns = []")
    case True
    then show ?thesis unfolding s by (simp add: resolve_def)
  next
    case False
    show ?thesis
      unfolding s concat_slashes [OF False] by (rule resolve_path_str [OF clean])
  qed
  moreover have "list_all (\<lambda>c. normalize_windows c = Some c \<and> clean_name c) ?ns"
    using ns clean unfolding list_all_iff by blast
  ultimately show ?thesis by blast
qed

definition win_docs :: string where
  "win_docs = [CHR 0x5C] @ ''docs'' @ [CHR 0x5C, CHR 0x5C] @ ''a.md''"

theorem windows_path_resolves_witness:
  "win_path_to_engine win_docs = Some ''/docs/a.md'' \<and> resolve (d_tree w3) ''/docs/a.md'' = resolve_from (d_tree w3) ROOT [''docs'', ''a.md'']"
proof -
  have p: "win_path_to_engine win_docs = Some ''/docs/a.md''" and ns: "filter (\<lambda>c. c \<noteq> []) (split_on (CHR 0x5C) win_docs) = [''docs'', ''a.md'']"
    by code_simp+
  from windows_path_resolves [OF p, of "d_tree w3"] p show ?thesis
    unfolding ns by blast
qed

text \<open>
  Time conversion saturates: a file time is the epoch difference plus ten thousand ticks per
  millisecond, clamped to the largest 64-bit value, for every input; so it is monotonic.
\<close>

theorem filetime_saturates:
  "unat (ms_to_filetime m) = min (116444736000000000 + unat m * 10000) (2 ^ 64 - 1)"
proof -
  have "unat EPOCH_DIFF_100NS = 116444736000000000"
    by (simp add: EPOCH_DIFF_100NS_def)
  then show ?thesis
    by (simp add: ms_to_filetime_def unat_sat_add unat_sat_mul)
qed

text \<open>
  Names across platforms: what Windows can show is unchanged by the check and has no separator and
  no control character, and every name the drive accepts can be shown on macOS.
\<close>

theorem platform_names:
  "(if normalize_windows n = None then True else normalize_windows n = Some n \<and> clean_name n \<and> check_chars n = Inr ()) \<and>
   (if validate_name n = Inr () then normalize_macos n = Some n else True)"
proof -
  have "normalize_macos n = Some n" if ok: "validate_name n = Inr ()"
  proof -
    have "clean_name n" by (rule valid_name_clean [OF ok])
    moreover have "n \<noteq> ''.''" and "n \<noteq> ''..''" and chars: "\<forall>c \<in> set n. 32 \<le> (of_char c :: nat)"
      using ok unfolding validate_name_ok by blast+
    moreover have "CHR 0x00 \<notin> set n"
    proof
      assume "CHR 0x00 \<in> set n"
      with chars have "32 \<le> (of_char (CHR 0x00) :: nat)" by (rule bspec)
      then show False by simp
    qed
    ultimately show ?thesis by (simp only: normalize_macos_def clean_name_def) simp
  qed
  moreover have "normalize_windows n = Some n \<and> clean_name n \<and> check_chars n = Inr ()" if ok: "normalize_windows n \<noteq> None"
    using normalize_windows_clean [OF ok] normalize_windows_same [of n] ok by blast
  ultimately show ?thesis by presburger
qed

end
