(* ===== verification/Fuse.thy ===== *)
theory Fuse
  imports Platform
begin

text \<open>
  The FUSE adapter, \<open>crates/ce-drive-mount/src/linux_fuser.rs\<close>, and the mount options of the Linux and the
  macOS one (the callbacks of \<open>macos_fskit.rs\<close> are a copy, in \<open>MacFuse\<close>). A callback
  calls the engine of \<open>Vfs\<close> and answers with a reply or an error number; the number is chosen by
  looking for words in the text of the error, so the texts of all errors are here too. The kernel side
  (\<open>fuser\<close>) is a parameter: \<open>full\<close> is the answer of \<open>reply.add\<close> for an entry, given those already in the
  reply's buffer. A panic of the engine is a panic of the callback. An \<open>i64\<close> is read from its bits.
\<close>

section \<open>Error texts\<close>

text \<open>
  What \<open>to_string\<close> gives for an error: the texts of \<open>names.rs\<close>, and for each constructor of \<open>drive_error\<close> and
  \<open>vfs_error\<close> the text written where \<open>drive.rs\<close> and \<open>vfs.rs\<close> raise it.
\<close>

definition quoted :: "string \<Rightarrow> string" where
  "quoted s = CHR 0x27 # s @ [CHR 0x27]"

fun name_error_text :: "name_error \<Rightarrow> string" where
  "name_error_text Empty = ''name is empty''"
| "name_error_text DotComponent = ''name '' @ quoted ''.'' @ '' or '' @ quoted ''..'' @ '' is not a valid file name''"
| "name_error_text (Separator c) = ''name contains a path separator '' @ quoted [c]"
| "name_error_text (Control c) = ''name contains a control character U+'' @ map ascii_upper (hex_padded 4 (of_char c))"
| "name_error_text (TooLong n) =
     ''name is '' @ digits_base 10 n @ '' bytes, exceeds the '' @ digits_base 10 MAX_NAME_BYTES @ ''-byte limit''"

fun drive_error_text :: "drive_error \<Rightarrow> string" where
  "drive_error_text (InvalidName name e) = ''invalid name '' @ quoted name @ '': '' @ name_error_text e"
| "drive_error_text (NoSuchDirectory p) = ''no such directory: '' @ p"
| "drive_error_text (NotADirectory p) = quoted p @ '' is not a directory''"
| "drive_error_text (AlreadyExists name p) = quoted name @ '' already exists in '' @ quoted p"
| "drive_error_text (ExistsAsDirectory name p) = quoted name @ '' already exists as a directory in '' @ quoted p"
| "drive_error_text (NoSuchPath p) = ''no such path: '' @ p"
| "drive_error_text CannotMoveRoot = ''cannot move the root''"
| "drive_error_text CannotDeleteRoot = ''cannot delete the root''"
| "drive_error_text (NotInTrash i) = ''node '' @ quoted i @ '' is not in the trash''"
| "drive_error_text (NoContentHistory p) = quoted p @ '' has no content history''"

fun vfs_error_text :: "vfs_error \<Rightarrow> string" where
  "vfs_error_text (UnknownInode i) = ''unknown inode '' @ dec_string i"
| "vfs_error_text (UnknownParent i) = ''unknown parent inode '' @ dec_string i"
| "vfs_error_text (UnknownNewParent i) = ''unknown new parent inode '' @ dec_string i"
| "vfs_error_text (NoEdge i) = ''inode '' @ dec_string i @ '' has no edge''"
| "vfs_error_text (vfs_error.NoEntry name) = ''no such entry '' @ quoted name"
| "vfs_error_text (BadHandle fh) = ''bad file handle '' @ dec_string fh"
| "vfs_error_text (NotHydrated fh) = ''handle '' @ dec_string fh @ '' not hydrated''"
| "vfs_error_text HandleHasNoNode = ''handle has no node''"
| "vfs_error_text (StoreFailed e) = e"
| "vfs_error_text (WriteTooBig n m) =
     ''write to '' @ dec_string n @ '' bytes exceeds the '' @ dec_string m @ ''-byte per-file limit''"
| "vfs_error_text (TruncateTooBig n m) =
     ''truncate to '' @ dec_string n @ '' bytes exceeds the '' @ dec_string m @ ''-byte per-file limit''"
| "vfs_error_text (NotAddressable which) = which @ '' not addressable''"
| "vfs_error_text (SourceMissing src) = ''rename source '' @ quoted src @ '' does not exist''"
| "vfs_error_text (InodeVanished i) = ''inode '' @ dec_string i @ '' vanished''"
| "vfs_error_text (DriveFailed e) = drive_error_text e"
| "vfs_error_text SlicePanic = []"

section \<open>Replies\<close>

datatype errno = ENOENT | EIO

datatype ('e, 'a) outcome = Done 'a | Fails 'e | Panics

definition errno_of :: "vfs_error \<Rightarrow> errno" where
  "errno_of e =
     (let msg = vfs_error_text e in
      if str_contains msg ''no such'' \<or> str_contains msg ''unknown inode'' \<or> str_contains msg ''no such entry''
      then ENOENT else EIO)"

definition answer :: "('a \<Rightarrow> 'b) \<Rightarrow> vfs_error + 'a \<Rightarrow> (errno, 'b) outcome" where
  "answer f r =
     (case r of
        Inr x \<Rightarrow> Done (f x)
      | Inl SlicePanic \<Rightarrow> Panics
      | Inl e \<Rightarrow> Fails (errno_of e))"

record file_attr =
  fa_ino :: u64
  fa_size :: u64
  fa_blocks :: u64
  fa_mtime_ms :: u64
  fa_is_dir :: bool
  fa_perm :: "16 word"
  fa_nlink :: u32

definition div_ceil :: "u64 \<Rightarrow> u64 \<Rightarrow> u64" where
  "div_ceil a b = (if a mod b = 0 then a div b else a div b + 1)"

text \<open>All four times of the reply are the modification time; owner, device and flags are 0.\<close>

definition to_file_attr :: "attr \<Rightarrow> file_attr" where
  "to_file_attr a =
     \<lparr>fa_ino = a_ino a, fa_size = a_size a, fa_blocks = div_ceil (a_size a) 512, fa_mtime_ms = a_mtime_ms a,
      fa_is_dir = a_is_dir a, fa_perm = ucast (and (a_mode a) 0xFFF), fa_nlink = (if a_is_dir a then 2 else 1)\<rparr>"

text \<open>\<open>offset.max(0) as u64\<close>.\<close>

definition at_least_0 :: "u64 \<Rightarrow> u64" where
  "at_least_0 off = (if sint off < 0 then 0 else off)"

section \<open>Callbacks\<close>

definition fuse_lookup :: "vfs \<Rightarrow> ino \<Rightarrow> string \<Rightarrow> vfs \<times> (errno, file_attr) outcome" where
  "fuse_lookup v parent name = apsnd (answer to_file_attr) (lookup v parent name)"

definition fuse_getattr :: "vfs \<Rightarrow> ino \<Rightarrow> (errno, file_attr) outcome" where
  "fuse_getattr v i = answer to_file_attr (getattr v i)"

definition fuse_open :: "vfs \<Rightarrow> ino \<Rightarrow> vfs \<times> (errno, u64) outcome" where
  "fuse_open v i = apsnd (answer id) (vfs_open v i)"

definition fuse_read :: "get_object \<Rightarrow> vfs \<Rightarrow> u64 \<Rightarrow> u64 \<Rightarrow> u32 \<Rightarrow> vfs \<times> (errno, bytes) outcome" where
  "fuse_read get_object v fh offset sz = apsnd (answer id) (vfs_read get_object v fh (at_least_0 offset) sz)"

definition fuse_write :: "get_object \<Rightarrow> vfs \<Rightarrow> u64 \<Rightarrow> u64 \<Rightarrow> bytes \<Rightarrow> vfs \<times> (errno, nat) outcome" where
  "fuse_write get_object v fh offset data = apsnd (answer id) (vfs_write get_object v fh (at_least_0 offset) data)"

definition fuse_flush :: "put_bytes \<Rightarrow> u64 \<Rightarrow> vfs \<Rightarrow> u64 \<Rightarrow> vfs \<times> (errno, unit) outcome" where
  "fuse_flush put_bytes now v fh = apsnd (answer (\<lambda>_. ())) (flush put_bytes now v fh)"

definition fuse_fsync :: "put_bytes \<Rightarrow> u64 \<Rightarrow> vfs \<Rightarrow> u64 \<Rightarrow> vfs \<times> (errno, unit) outcome" where
  "fuse_fsync put_bytes now v fh = apsnd (answer (\<lambda>_. ())) (flush put_bytes now v fh)"

definition fuse_release :: "put_bytes \<Rightarrow> u64 \<Rightarrow> vfs \<Rightarrow> u64 \<Rightarrow> vfs \<times> (errno, unit) outcome" where
  "fuse_release put_bytes now v fh = apsnd (answer (\<lambda>_. ())) (release put_bytes now v fh)"

definition fuse_create :: "u64 \<Rightarrow> u64 \<Rightarrow> vfs \<Rightarrow> ino \<Rightarrow> string \<Rightarrow> vfs \<times> (errno, file_attr \<times> u64) outcome" where
  "fuse_create ctr now v parent name = apsnd (answer (apfst to_file_attr)) (vfs_create ctr now v parent name)"

definition fuse_mkdir :: "u64 \<Rightarrow> vfs \<Rightarrow> ino \<Rightarrow> string \<Rightarrow> vfs \<times> (errno, file_attr) outcome" where
  "fuse_mkdir ctr v parent name = apsnd (answer to_file_attr) (vfs_mkdir ctr v parent name)"

definition fuse_unlink :: "vfs \<Rightarrow> ino \<Rightarrow> string \<Rightarrow> vfs \<times> (errno, unit) outcome" where
  "fuse_unlink v parent name = apsnd (answer id) (vfs_unlink v parent name)"

definition fuse_rmdir :: "vfs \<Rightarrow> ino \<Rightarrow> string \<Rightarrow> vfs \<times> (errno, unit) outcome" where
  "fuse_rmdir v parent name = apsnd (answer id) (vfs_unlink v parent name)"

definition fuse_rename :: "vfs \<Rightarrow> ino \<Rightarrow> string \<Rightarrow> ino \<Rightarrow> string \<Rightarrow> vfs \<times> (errno, unit) outcome" where
  "fuse_rename v parent name new_parent new_name = apsnd (answer id) (vfs_rename v parent name new_parent new_name)"

section \<open>Directory pages\<close>

text \<open>Entries are added until one does not fit; each carries the offset a later call resumes from.\<close>

fun add_until_full :: "('e list \<Rightarrow> 'e \<Rightarrow> bool) \<Rightarrow> 'e list \<Rightarrow> 'e list \<Rightarrow> 'e list" where
  "add_until_full full acc [] = acc"
| "add_until_full full acc (e # es) = (if full acc e then acc else add_until_full full (acc @ [e]) es)"

record fuse_entry =
  fe_ino :: ino
  fe_offset :: u64
  fe_is_dir :: bool
  fe_name :: string

text \<open>\<open>parent_or_self\<close> answers the root for every directory, as its comment says.\<close>

definition parent_or_self :: "ino \<Rightarrow> ino" where
  "parent_or_self i = (if i = ROOT_INO then ROOT_INO else ROOT_INO)"

definition fuse_entries :: "ino \<Rightarrow> (string \<times> ino \<times> bool) list \<Rightarrow> fuse_entry list" where
  "fuse_entries i entries =
     map (\<lambda>(k, child, dir, name). \<lparr>fe_ino = child, fe_offset = of_nat (k + 1), fe_is_dir = dir, fe_name = name\<rparr>)
       (enumerate 0
         ([(i, True, ''.''), (parent_or_self i, True, ''..'')] @ map (\<lambda>(name, child, dir). (child, dir, name)) entries))"

definition fuse_readdir ::
    "(fuse_entry list \<Rightarrow> fuse_entry \<Rightarrow> bool) \<Rightarrow> vfs \<Rightarrow> ino \<Rightarrow> u64 \<Rightarrow> vfs \<times> (errno, fuse_entry list) outcome" where
  "fuse_readdir full v i offset =
     apsnd (answer (\<lambda>entries. add_until_full full [] (drop (unat (at_least_0 offset)) (fuse_entries i entries)))) (vfs_readdir v i)"

record fuse_entry_plus =
  fp_ino :: ino
  fp_offset :: u64
  fp_name :: string
  fp_attr :: file_attr

definition fuse_entries_plus :: "dir_entry_plus list \<Rightarrow> fuse_entry_plus list" where
  "fuse_entries_plus entries =
     map (\<lambda>(k, e). \<lparr>fp_ino = a_ino (dp_attr e), fp_offset = of_nat (k + 2), fp_name = dp_name e,
                    fp_attr = to_file_attr (dp_attr e)\<rparr>) (enumerate 0 entries)"

definition fuse_readdirplus ::
    "(fuse_entry_plus list \<Rightarrow> fuse_entry_plus \<Rightarrow> bool) \<Rightarrow> vfs \<Rightarrow> ino \<Rightarrow> u64
      \<Rightarrow> vfs \<times> (errno, fuse_entry_plus list) outcome" where
  "fuse_readdirplus full v i offset =
     (case readdirplus v i of
        (v1, Inl e) \<Rightarrow> (v1, answer id (Inl e))
      | (v1, Inr entries) \<Rightarrow>
          (let rest = drop (unat (at_least_0 offset)) (fuse_entries_plus entries) in
           (v1, Done
             (case getattr v1 i of
                Inr a \<Rightarrow>
                  if offset = 0 then
                    (let dot = \<lparr>fp_ino = i, fp_offset = 1, fp_name = ''.'', fp_attr = to_file_attr a\<rparr> in
                     if full [] dot then [] else add_until_full full [dot] rest)
                  else add_until_full full [] rest
              | Inl _ \<Rightarrow> add_until_full full [] rest))))"

section \<open>Mounting\<close>

datatype mount_option = FSName string | Subtype string | DefaultPermissions | Custom string

definition linux_options :: "string \<Rightarrow> mount_option list" where
  "linux_options fs_name = [FSName fs_name, DefaultPermissions, Subtype ''cedrive'', Custom ''writeback_cache'']"

datatype backend = FsKit | Kext

fun mount_token :: "backend \<Rightarrow> string" where
  "mount_token FsKit = ''backend=fskit''"
| "mount_token Kext = ''backend=kext''"

text \<open>\<open>Path::join\<close> on an absolute path, and \<open>Path::starts_with\<close>, which compares whole components.\<close>

definition path_join :: "string \<Rightarrow> string \<Rightarrow> string" where
  "path_join p q = (if starts_with q ''/'' then q else p @ ''/'' @ q)"

definition default_mountpoint :: "string \<Rightarrow> string" where
  "default_mountpoint drv = path_join ''/Volumes/CEDrive'' drv"

definition path_components :: "string \<Rightarrow> string list" where
  "path_components p = filter (\<lambda>c. c \<noteq> [] \<and> c \<noteq> ''.'') (split_on (CHR ''/'') p)"

definition under_volumes :: "string \<Rightarrow> bool" where
  "under_volumes p \<longleftrightarrow> starts_with p ''/'' \<and> take 1 (path_components p) = [''Volumes'']"

definition macos_options :: "backend \<Rightarrow> string \<Rightarrow> string \<Rightarrow> mount_option list" where
  "macos_options b fs_name vol_name =
     [FSName fs_name, Subtype ''cedrive'', DefaultPermissions, Custom (mount_token b), Custom (''volname='' @ vol_name),
      Custom ''writeback_cache'', Custom ''noappledouble'']"

text \<open>
  A mount runs the kernel session (\<open>fuser::mount2\<close>, a parameter: it gives the engine's last state or an
  error) and hands the drive state to the caller.
\<close>

datatype mount_error = MountFailed string | NotUnderVolumes string

type_synonym session = "mount_option list \<Rightarrow> string \<Rightarrow> vfs \<Rightarrow> vfs option"

definition linux_mount :: "session \<Rightarrow> vfs \<Rightarrow> string \<Rightarrow> string \<Rightarrow> mount_error + drive_state" where
  "linux_mount session v mountpoint fs_name =
     (case session (linux_options fs_name) mountpoint v of
        None \<Rightarrow> Inl (MountFailed ''fuser mount'')
      | Some v' \<Rightarrow> Inr (vfs_state v'))"

definition macos_mount :: "session \<Rightarrow> vfs \<Rightarrow> string \<Rightarrow> backend \<Rightarrow> string \<Rightarrow> string \<Rightarrow> mount_error + drive_state" where
  "macos_mount session v mountpoint b fs_name vol_name =
     (if b = FsKit \<and> \<not> under_volumes mountpoint
      then Inl (NotUnderVolumes mountpoint)
      else
        (case session (macos_options b fs_name vol_name) mountpoint v of
           None \<Rightarrow> Inl (MountFailed ''macFUSE mount'')
         | Some v' \<Rightarrow> Inr (vfs_state v')))"

end
