(* ===== verification/FuseProps.thy ===== *)
theory FuseProps
  imports Fuse VfsProps
begin

text \<open>
  The properties of the FUSE adapters: a directory read page by page is read completely, a lookup's
  reply for every case; and runs that show what the error numbers and the pages of \<open>readdirplus\<close> get
  wrong.
\<close>

section \<open>Reading page by page\<close>

text \<open>
  What a kernel does with a directory: it asks for a page from offset 0, then from the offset of the
  last entry it got, until a page is empty. The fuel counts the pages.
\<close>

fun list_directory ::
    "(fuse_entry list \<Rightarrow> fuse_entry \<Rightarrow> bool) \<Rightarrow> nat \<Rightarrow> vfs \<Rightarrow> ino \<Rightarrow> u64 \<Rightarrow> fuse_entry list option" where
  "list_directory full 0 v i offset = None"
| "list_directory full (Suc n) v i offset =
     (case fuse_readdir full v i offset of
        (v1, Done es) \<Rightarrow>
          if es = [] then Some []
          else map_option ((@) es) (list_directory full n v1 i (fe_offset (last es)))
      | (_, _) \<Rightarrow> None)"

fun read_pages :: "(u64 \<Rightarrow> 'e list) \<Rightarrow> ('e \<Rightarrow> u64) \<Rightarrow> nat \<Rightarrow> u64 \<Rightarrow> 'e list option" where
  "read_pages page offset_of 0 off = None"
| "read_pages page offset_of (Suc n) off =
     (if page off = [] then Some []
      else map_option ((@) (page off)) (read_pages page offset_of n (offset_of (last (page off)))))"

text \<open>
  The contract of a pager: a page from an offset is a prefix of the entries from there, not empty while
  there are any, and the offset of an entry is the position after it.
\<close>

locale pager =
  fixes page :: "'c \<Rightarrow> u64 \<Rightarrow> 'e list"
    and entries :: "'c \<Rightarrow> 'e list"
    and offset_of :: "'e \<Rightarrow> u64"
    and usable :: "'c \<Rightarrow> bool"
  assumes page_prefix: "usable c \<Longrightarrow> unat off \<le> length (entries c) \<Longrightarrow>
      \<exists>k. page c off = take k (drop (unat off) (entries c)) \<and> 0 < k"
    and page_offset: "usable c \<Longrightarrow> k < length (entries c) \<Longrightarrow> unat (offset_of (entries c ! k)) = k + 1"
begin

lemma read_pages_rest:
  "usable c \<Longrightarrow> unat off \<le> length (entries c) \<Longrightarrow> length (entries c) < unat off + fuel \<Longrightarrow>
    read_pages (page c) offset_of fuel off = Some (drop (unat off) (entries c))"
proof (induction fuel arbitrary: off)
  case (Suc n)
  let ?es = "entries c" and ?o = "unat off"
  obtain k where k: "page c off = take k (drop ?o ?es)" "0 < k"
    using page_prefix [OF Suc.prems(1,2)] by blast
  show ?case
  proof (cases "?o = length ?es")
    case True
    then show ?thesis by (simp add: k(1))
  next
    case False
    obtain m where m: "0 < m" "?o + m \<le> length ?es" and page: "page c off = take m (drop ?o ?es)"
    proof (rule that)
      show "0 < min k (length ?es - ?o)" and "?o + min k (length ?es - ?o) \<le> length ?es"
        using False Suc.prems(2) k(2) by auto
      show "page c off = take (min k (length ?es - ?o)) (drop ?o ?es)"
        using k(1) by (simp add: min_def)
    qed
    have "last (take m (drop ?o ?es)) = ?es ! (?o + m - 1)"
      using m by (subst last_conv_nth) auto
    then have next_off: "unat (offset_of (last (page c off))) = ?o + m"
      using page_offset [OF Suc.prems(1), of "?o + m - 1"] m page by simp
    have "read_pages (page c) offset_of n (offset_of (last (page c off))) = Some (drop (?o + m) ?es)"
      using Suc.IH [OF Suc.prems(1), of "offset_of (last (page c off))"] next_off m Suc.prems(3) by simp
    moreover have "take m (drop ?o ?es) @ drop (?o + m) ?es = drop ?o ?es"
      using append_take_drop_id [of m "drop ?o ?es"] by (simp add: add.commute)
    moreover have "page c off \<noteq> []"
      using m page by auto
    ultimately show ?thesis
      using page by simp
  qed
qed simp

lemma read_pages_all:
  "usable c \<Longrightarrow> length (entries c) < fuel \<Longrightarrow> read_pages (page c) offset_of fuel 0 = Some (entries c)"
  using read_pages_rest [of c 0 fuel] by simp

end

lemma add_until_full_prefix: "\<exists>k. add_until_full full acc es = acc @ take k es \<and> (es \<noteq> [] \<longrightarrow> \<not> full acc (hd es) \<longrightarrow> 0 < k)"
proof (induction es arbitrary: acc)
  case (Cons e es)
  show ?case
  proof (cases "full acc e")
    case True
    then show ?thesis by (intro exI [of _ 0]) simp
  next
    case False
    obtain k where "add_until_full full (acc @ [e]) es = (acc @ [e]) @ take k es"
      using Cons.IH [of "acc @ [e]"] by blast
    with False show ?thesis by (intro exI [of _ "Suc k"]) simp
  qed
qed simp

type_synonym listing = "(fuse_entry list \<Rightarrow> fuse_entry \<Rightarrow> bool) \<times> ino \<times> (string \<times> ino \<times> bool) list"

definition listing_entries :: "listing \<Rightarrow> fuse_entry list" where
  "listing_entries c = (case c of (_, i, es) \<Rightarrow> fuse_entries i es)"

definition listing_page :: "listing \<Rightarrow> u64 \<Rightarrow> fuse_entry list" where
  "listing_page c off = add_until_full (fst c) [] (drop (unat (at_least_0 off)) (listing_entries c))"

text \<open>A buffer takes at least one entry, and the offsets fit an \<open>i64\<close>.\<close>

definition listing_usable :: "listing \<Rightarrow> bool" where
  "listing_usable c \<longleftrightarrow> (\<forall>e. \<not> fst c [] e) \<and> length (snd (snd c)) + 2 < 2 ^ 63"

lemma length_fuse_entries [simp]: "length (fuse_entries i es) = length es + 2"
  by (simp add: fuse_entries_def)

lemma nth_offsets:
  "k < length xs \<Longrightarrow>
    fe_offset (map (\<lambda>(k, child, dir, name).
      \<lparr>fe_ino = child, fe_offset = of_nat (k + 1), fe_is_dir = dir, fe_name = name\<rparr>) (enumerate 0 xs) ! k)
    = of_nat (k + 1)"
  by (simp add: nth_enumerate_eq split_beta)

lemma nth_fuse_entries: "k < length es + 2 \<Longrightarrow> fe_offset (fuse_entries i es ! k) = of_nat (k + 1)"
  unfolding fuse_entries_def by (rule nth_offsets) simp

lemma at_least_0_small: "unat off < 2 ^ 63 \<Longrightarrow> at_least_0 off = off"
proof -
  assume "unat off < 2 ^ 63"
  then have "int (unat off) < int (2 ^ 63)"
    by (simp only: of_nat_less_iff)
  then have "uint off < 2 ^ 63"
    by (simp only: uint_nat of_nat_power of_nat_numeral)
  moreover have "- (2 ^ 63) \<le> uint off"
    by (rule order_trans [OF _ unsigned_greater_eq]) simp
  ultimately have "sint off = uint off"
    using signed_take_bit_int_eq_self [of 63 "uint off"] by (simp add: sint_uint)
  then show "at_least_0 off = off"
    by (simp add: at_least_0_def)
qed

interpretation fuse_pages: pager listing_page listing_entries fe_offset listing_usable
proof unfold_locales
  fix c :: listing and off :: u64
  assume c: "listing_usable c" and off: "unat off \<le> length (listing_entries c)"
  obtain full i es where c_eq: "c = (full, i, es)" by (cases c)
  have "unat off < 2 ^ 63"
    using c off by (simp add: listing_usable_def listing_entries_def c_eq)
  then show "\<exists>k. listing_page c off = take k (drop (unat off) (listing_entries c)) \<and> 0 < k"
    using add_until_full_prefix [of full "[]" "drop (unat off) (listing_entries c)"] c
    by (cases "drop (unat off) (listing_entries c) = []")
      (auto simp: listing_page_def at_least_0_small listing_usable_def c_eq)
next
  fix c :: listing and k
  assume c: "listing_usable c" and k: "k < length (listing_entries c)"
  obtain full i es where c_eq: "c = (full, i, es)" by (cases c)
  have "k < length es + 2" and "k + 1 < 2 ^ 64"
    using c k by (simp_all add: listing_usable_def listing_entries_def c_eq)
  then show "unat (fe_offset (listing_entries c ! k)) = k + 1"
    by (simp add: listing_entries_def c_eq nth_fuse_entries unat_of_nat del: of_nat_add of_nat_Suc)
qed

section \<open>Listing twice\<close>

text \<open>Interning keeps what is interned, so listing a directory again changes nothing and gives the same.\<close>

lemma intern_known: "fmlookup (v_ino_of v) n = Some i \<Longrightarrow> intern v n = (v, i)"
  by (simp add: intern_def)

lemma intern_keeps: "keeps_inodes v (fst (intern v n))" "fmlookup (v_ino_of (fst (intern v n))) n = Some (snd (intern v n))"
  by (auto simp: keeps_inodes_def intern_def Let_def split: option.split)

lemma keeps_inodes_trans: "keeps_inodes v v1 \<Longrightarrow> keeps_inodes v1 v2 \<Longrightarrow> keeps_inodes v v2"
  by (simp add: keeps_inodes_def)

definition numbered :: "vfs \<Rightarrow> (string \<times> node_id \<times> node_kind) list \<Rightarrow> (string \<times> ino \<times> bool) list" where
  "numbered v es = map (\<lambda>(name, n, kind). (name, the (fmlookup (v_ino_of v) n), kind = Dir)) es"

lemma readdir_loop_result:
  "keeps_inodes v (fst (readdir_loop v es)) \<and> v_drive (fst (readdir_loop v es)) = v_drive v \<and>
   snd (readdir_loop v es) = numbered (fst (readdir_loop v es)) es \<and>
   (\<forall>(name, n, kind) \<in> set es. fmlookup (v_ino_of (fst (readdir_loop v es))) n \<noteq> None)"
proof (induction v es rule: readdir_loop.induct)
  case (1 v)
  then show ?case by (simp add: keeps_inodes_def numbered_def)
next
  case (2 v name n kind es)
  let ?v1 = "fst (intern v n)"
  let ?v2 = "fst (readdir_loop ?v1 es)"
  have IH: "keeps_inodes ?v1 ?v2" "v_drive ?v2 = v_drive ?v1" "snd (readdir_loop ?v1 es) = numbered ?v2 es"
    "\<forall>(name, n, kind) \<in> set es. fmlookup (v_ino_of ?v2) n \<noteq> None"
    using 2 [of "intern v n" ?v1 "snd (intern v n)"] by simp_all
  have n: "fmlookup (v_ino_of ?v2) n = Some (snd (intern v n))"
    using IH(1) intern_keeps(2) by (simp add: keeps_inodes_def)
  have "v_drive ?v1 = v_drive v"
    by (simp add: intern_def Let_def split: option.split)
  with IH n show ?case
    using keeps_inodes_trans [OF intern_keeps(1) IH(1)] by (simp add: split_beta Let_def numbered_def)
qed

lemma readdir_loop_known:
  "\<forall>(name, n, kind) \<in> set es. fmlookup (v_ino_of v) n \<noteq> None \<Longrightarrow> readdir_loop v es = (v, numbered v es)"
  by (induction v es rule: readdir_loop.induct) (auto simp: intern_known numbered_def)

lemma readdir_again:
  assumes "inode_inv v" and "node_at v i = Inr node"
    and "unat (v_next_ino v) + length (readdir (d_tree (v_drive v)) node) < 2 ^ 64"
  defines "v1 \<equiv> fst (vfs_readdir v i)" and "es \<equiv> readdir (d_tree (v_drive v)) node"
  shows "vfs_readdir v i = (v1, Inr (numbered v1 es))" and "vfs_readdir v1 i = (v1, Inr (numbered v1 es))"
proof -
  have v1: "v1 = fst (readdir_loop v es)"
    using assms(2) by (simp add: v1_def es_def vfs_readdir_def split_beta Let_def)
  note R = readdir_loop_result [of v es, folded v1]
  show first: "vfs_readdir v i = (v1, Inr (numbered v1 es))"
    using assms(2) R by (simp add: vfs_readdir_def split_beta Let_def v1 es_def)
  have inv: "inode_inv v1"
    using readdir_loop_stable [of es v] assms(1,3) by (simp add: stable_by_def v1 es_def)
  have "fmlookup (v_ino_of v) node = Some i"
    using assms(1,2) by (auto simp: inode_inv_def node_at_def split: option.splits)
  then have "fmlookup (v_node_of v1) i = Some node"
    using R inv by (simp add: keeps_inodes_def inode_inv_def)
  then show "vfs_readdir v1 i = (v1, Inr (numbered v1 es))"
    using R by (simp add: vfs_readdir_def node_at_def readdir_loop_known es_def)
qed

lemma fuse_readdir_page:
  "vfs_readdir v i = (v1, Inr es) \<Longrightarrow> fuse_readdir full v i off = (v1, Done (listing_page (full, i, es) off))"
  by (simp add: fuse_readdir_def answer_def listing_page_def listing_entries_def)

lemma list_directory_pages:
  "vfs_readdir v i = (v, Inr es) \<Longrightarrow>
    list_directory full n v i off = read_pages (listing_page (full, i, es)) fe_offset n off"
  by (induction n arbitrary: off) (simp_all add: fuse_readdir_page)

lemma list_directory_first:
  assumes "vfs_readdir v i = (v1, Inr es)" and "vfs_readdir v1 i = (v1, Inr es)"
  shows "list_directory full n v i off = read_pages (listing_page (full, i, es)) fe_offset n off"
  using assms by (cases n) (simp_all add: fuse_readdir_page list_directory_pages)

lemma names_fuse_entries: "map fe_name (fuse_entries i (numbered v es)) = ''.'' # ''..'' # map fst es"
proof (rule nth_equalityI)
  fix k
  assume "k < length (map fe_name (fuse_entries i (numbered v es)))"
  then have "k < length es + 2" by (simp add: numbered_def)
  then show "map fe_name (fuse_entries i (numbered v es)) ! k = (''.'' # ''..'' # map fst es) ! k"
    by (auto simp: fuse_entries_def numbered_def nth_enumerate_eq split_beta nth_Cons split: nat.split)
qed (simp add: numbered_def)

section \<open>Error numbers\<close>

lemma starts_with_set: "starts_with s p \<Longrightarrow> set p \<subseteq> set s"
  by (metis starts_with_def set_take_subset)

lemma str_contains_iff: "str_contains s p \<longleftrightarrow> (\<exists>i < Suc (length s). starts_with (drop i s) p)"
  by (auto simp: str_contains_def list_ex_iff simp del: upt_Suc)

lemma str_contains_Cons: "str_contains (c # s) p \<longleftrightarrow> starts_with (c # s) p \<or> str_contains s p"
  by (simp add: str_contains_iff Ex_less_Suc2)

lemma str_contains_start: "starts_with s p \<Longrightarrow> str_contains s p"
  unfolding str_contains_iff by (auto intro!: exI [of _ 0])

lemma str_contains_set: "str_contains s p \<Longrightarrow> set p \<subseteq> set s"
  unfolding str_contains_iff using starts_with_set set_drop_subset by fastforce

lemma dec_digits: "c \<in> set (digits_base 10 n) \<Longrightarrow> (of_char c :: nat) < 58"
proof (induction n rule: less_induct)
  case (less n)
  have digit: "(of_char (digit_char k) :: nat) < 58" if "k < 10" for k
    using that by (simp add: digit_char_def)
  show ?case
  proof (cases "n < 10")
    case True
    then show ?thesis using less.prems digit by (subst (asm) digits_base.simps) simp
  next
    case False
    with less.prems less.IH [of "n div 10"] digit show ?thesis
      by (subst (asm) digits_base.simps) auto
  qed
qed

text \<open>The text of an unknown parent has none of the words \<open>errno\<close> looks for.\<close>

lemma errno_unknown_parent: "errno_of (UnknownParent i) = EIO"
proof -
  let ?t = "vfs_error_text (UnknownParent i)"
  have "CHR ''s'' \<notin> set (dec_string i)" and "CHR ''u'' \<notin> set (dec_string i)"
    using dec_digits [of _ "unat i"] by (force simp: dec_string_def)+
  then have "CHR ''s'' \<notin> set ?t" and "CHR ''u'' \<notin> set (''nknown parent inode '' @ dec_string i)"
    by simp_all
  then have "\<not> str_contains ?t ''no such''" and "\<not> str_contains ?t ''no such entry''"
    and "\<not> str_contains (''nknown parent inode '' @ dec_string i) ''unknown inode''"
    using str_contains_set by fastforce+
  moreover have "\<not> starts_with ?t ''unknown inode''"
    by (simp add: starts_with_def)
  ultimately show ?thesis
    by (simp add: errno_of_def Let_def str_contains_Cons del: append_Cons) (simp add: str_contains_Cons)
qed

lemma errno_missing: "errno_of (vfs_error.NoEntry n) = ENOENT" "errno_of (UnknownInode i) = ENOENT"
  "errno_of (DriveFailed (NoSuchPath p)) = ENOENT" "errno_of (DriveFailed (NoSuchDirectory p)) = ENOENT"
  by (simp_all add: errno_of_def Let_def str_contains_start starts_with_def)

section \<open>Properties\<close>

lemma vfs_run_inv:
  assumes "vfs_run m (vfs_new d) v" and "m + 2 < 2 ^ 64"
  shows "inode_inv v" and "unat (v_next_ino v) \<le> m + 2"
  using vfs_run_stable [OF assms(1)] vfs_new_inv [of d] assms(2) by (simp_all add: stable_by_def)

lemma children_fuse_entries:
  assumes "inode_inv v" and "\<forall>(name, n, kind) \<in> set es. fmlookup (v_ino_of v) n \<noteq> None"
  shows "list_all2 (\<lambda>e (name, n, kind). fe_is_dir e = (kind = Dir) \<and> fmlookup (v_node_of v) (fe_ino e) = Some n)
    (drop 2 (fuse_entries i (numbered v es))) es"
proof (rule list_all2_all_nthI)
  fix k
  assume k: "k < length (drop 2 (fuse_entries i (numbered v es)))"
  then have len: "k < length es" by (simp add: numbered_def)
  obtain name n kind where x: "es ! k = (name, n, kind)" by (cases "es ! k")
  then obtain j where j: "fmlookup (v_ino_of v) n = Some j"
    using nth_mem [OF len] assms(2) by auto
  then have "fmlookup (v_node_of v) j = Some n"
    using assms(1) unfolding inode_inv_def by blast
  with j have "fmlookup (v_node_of v) (the (fmlookup (v_ino_of v) n)) = Some n"
    by simp
  then show "case es ! k of (name, n, kind) \<Rightarrow>
      fe_is_dir (drop 2 (fuse_entries i (numbered v es)) ! k) = (kind = Dir) \<and>
      fmlookup (v_node_of v) (fe_ino (drop 2 (fuse_entries i (numbered v es)) ! k)) = Some n"
    using len x by (simp add: fuse_entries_def numbered_def nth_enumerate_eq)
qed (simp add: numbered_def)

text \<open>
  C29. Reading a directory through the FUSE adapter ends and is complete: whatever the size of the kernel's
  buffer, as long as it takes one entry, asking for pages until one is empty gives the two dots and then
  every child the tree lists, each once and in its order, with its kind and an inode that stands for it.
\<close>

theorem fuse_listing_complete:
  assumes "vfs_run m (vfs_new d) v" and "fmlookup (v_node_of v) i = Some node" and "\<forall>e. \<not> full [] e"
    and "length (readdir (d_tree (v_drive v)) node) + 2 < 2 ^ 63"
    and "m + length (readdir (d_tree (v_drive v)) node) + 2 < 2 ^ 64"
    and "length (readdir (d_tree (v_drive v)) node) + 2 < fuel"
  shows "\<exists>out. list_directory full fuel v i 0 = Some out \<and>
    map fe_name out = ''.'' # ''..'' # map fst (readdir (d_tree (v_drive v)) node) \<and>
    list_all2 (\<lambda>e (name, n, kind). fe_is_dir e = (kind = Dir) \<and>
        fmlookup (v_node_of (fst (vfs_readdir v i))) (fe_ino e) = Some n)
      (drop 2 out) (readdir (d_tree (v_drive v)) node)"
proof -
  let ?es = "readdir (d_tree (v_drive v)) node"
  define v1 where "v1 = fst (vfs_readdir v i)"
  have inv: "inode_inv v" and room: "unat (v_next_ino v) + length ?es < 2 ^ 64"
    using vfs_run_inv [OF assms(1)] assms(5) by simp_all
  have node: "node_at v i = Inr node"
    using assms(2) by (simp add: node_at_def)
  note again = readdir_again [OF inv node room, folded v1_def]
  let ?c = "(full, i, numbered v1 ?es)"
  have "listing_usable ?c"
    using assms(3,4) by (simp add: listing_usable_def numbered_def)
  moreover have "length (listing_entries ?c) < fuel"
    using assms(6) by (simp add: listing_entries_def numbered_def)
  ultimately have "list_directory full fuel v i 0 = Some (fuse_entries i (numbered v1 ?es))"
    using fuse_pages.read_pages_all [of ?c fuel] list_directory_first [OF again]
    by (simp add: listing_entries_def)
  moreover have v1: "v1 = fst (readdir_loop v ?es)"
    using node by (simp add: v1_def vfs_readdir_def split_beta Let_def)
  moreover have "inode_inv v1"
    using readdir_loop_stable [of ?es v] inv room by (simp add: stable_by_def v1)
  ultimately show ?thesis
    using children_fuse_entries [of v1 ?es i] readdir_loop_result [of v ?es] names_fuse_entries [of i v1 ?es]
    by (simp add: v1_def)
qed

definition one_at_a_time :: "'e list \<Rightarrow> 'e \<Rightarrow> bool" where
  "one_at_a_time acc e \<longleftrightarrow> 1 \<le> length acc"

theorem fuse_listing_complete_witness:
  "\<exists>out. list_directory one_at_a_time 9 m0 ROOT_INO 0 = Some out \<and> map fe_name out = [''.'', ''..'', ''docs'']"
proof -
  have "map fst (readdir (d_tree (v_drive m0)) ROOT) = [''docs'']" and "fmlookup (v_node_of m0) ROOT_INO = Some ROOT"
    by code_simp+
  then show ?thesis
    using fuse_listing_complete [of 0 w3 m0 ROOT_INO ROOT one_at_a_time 9] run_done [of m0]
    by (auto simp: one_at_a_time_def m0_def map_eq_Cons_conv)
qed



section \<open>What goes wrong\<close>

text \<open>Reading a directory by \<open>readdirplus\<close>, as \<open>list_directory\<close> does by \<open>readdir\<close>.\<close>

fun list_directory_plus ::
    "(fuse_entry_plus list \<Rightarrow> fuse_entry_plus \<Rightarrow> bool) \<Rightarrow> nat \<Rightarrow> vfs \<Rightarrow> ino \<Rightarrow> u64 \<Rightarrow> fuse_entry_plus list option" where
  "list_directory_plus full 0 v i offset = None"
| "list_directory_plus full (Suc n) v i offset =
     (case fuse_readdirplus full v i offset of
        (v1, Done es) \<Rightarrow>
          if es = [] then Some []
          else map_option ((@) es) (list_directory_plus full n v1 i (fp_offset (last es)))
      | (_, _) \<Rightarrow> None)"

definition at_most :: "nat \<Rightarrow> 'e list \<Rightarrow> 'e \<Rightarrow> bool" where
  "at_most k acc e \<longleftrightarrow> k \<le> length acc"

definition abc :: drive where
  "abc = snd (projr (add_file a_and_b 2 ''/'' ''c'' (fc ''x'' 7)))"

text \<open>
  The offset of a child of \<open>readdirplus\<close> is two after its position, but a later call skips as many
  children as the offset says: with room for two entries the first page ends with \<open>a\<close> and the second
  starts with \<open>c\<close>. A page that ends with the dot skips \<open>a\<close>.
\<close>

theorem readdirplus_loses_children:
  "map_option (map fp_name) (list_directory_plus (at_most 9) 9 (vfs_new abc) ROOT_INO 0) = Some [''.'', ''a'', ''b'', ''c''] \<and>
   map_option (map fp_name) (list_directory_plus (at_most 2) 9 (vfs_new abc) ROOT_INO 0) = Some [''.'', ''a'', ''c''] \<and>
   map_option (map fp_name) (list_directory_plus (at_most 1) 9 (vfs_new abc) ROOT_INO 0) = Some [''.'', ''b'']"
  by code_simp

text \<open>
  \<open>errno\<close> looks for words in the text of the error, and that text holds names: making a directory that
  exists is an \<open>EIO\<close>, but an \<open>ENOENT\<close> if it is called \<open>no such\<close>; a rename of a name that is not there is an
  \<open>EIO\<close>.
\<close>

definition odd_name :: drive where
  "odd_name = snd (projr (mkdir (snd (projr (mkdir w0 0 ''/'' ''no such''))) 1 ''/'' ''plain''))"

theorem errno_depends_on_names:
  "snd (fuse_mkdir 2 (vfs_new odd_name) ROOT_INO ''plain'') = Fails EIO \<and>
   snd (fuse_mkdir 2 (vfs_new odd_name) ROOT_INO ''no such'') = Fails ENOENT \<and>
   snd (fuse_rename (vfs_new odd_name) ROOT_INO ''gone'' ROOT_INO ''here'') = Fails EIO"
  by code_simp

lemma default_mountpoint_accepted: "\<not> starts_with drv ''/'' \<Longrightarrow> under_volumes (default_mountpoint drv)"
proof -
  assume "\<not> starts_with drv ''/''"
  then have "default_mountpoint drv = ''/Volumes/CEDrive/'' @ drv"
    by (simp add: default_mountpoint_def path_join_def)
  then show ?thesis
    by (simp add: under_volumes_def path_components_def starts_with_def split: list.split)
qed

end
