(* ===== verification/WindowsAdapter.thy ===== *)
theory WindowsAdapter
  imports FuseProps
begin

text \<open>
  The Windows adapters, \<open>crates/ce-drive-mount/src/windows.rs\<close>: the WinFsp file system and the ProjFS
  provider, each callback a function of the engine of \<open>Vfs\<close>. The raw interfaces are parameters: \<open>full\<close>
  says whether an entry no longer fits the caller's buffer, \<open>set_name\<close> whether WinFsp takes a name.
  WinFsp answers Win32 error numbers; for ProjFS every failure of the engine is "file not found".
\<close>

section \<open>WinFsp\<close>

text \<open>The sum is a plain \<open>+\<close>, unlike \<open>ms_to_filetime\<close>.\<close>

definition to_filetime :: "u64 \<Rightarrow> u64" where
  "to_filetime mtime_ms = EPOCH_DIFF_100NS + sat_mul mtime_ms 10000"

text \<open>All four times are the same.\<close>

record file_info =
  fi_attributes :: u32
  fi_file_size :: u64
  fi_allocation_size :: u64
  fi_time :: u64
  fi_index_number :: u64

definition fill_file_info :: "attr \<Rightarrow> file_info" where
  "fill_file_info a =
     \<lparr>fi_attributes = (if a_is_dir a then 0x10 else 0x80), fi_file_size = a_size a,
      fi_allocation_size = div_ceil (a_size a) 4096 * 4096, fi_time = to_filetime (a_mtime_ms a),
      fi_index_number = a_ino a\<rparr>"

record file_ctx =
  cx_ino :: ino
  cx_fh :: u64
  cx_is_dir :: bool

definition win32 :: "u32 \<Rightarrow> vfs_error + 'a \<Rightarrow> (u32, 'a) outcome" where
  "win32 code r = (case r of Inr x \<Rightarrow> Done x | Inl SlicePanic \<Rightarrow> Panics | Inl _ \<Rightarrow> Fails code)"

text \<open>The copy of \<open>win_path_to_engine\<close> in this file, and the access control it answers for every name.\<close>

definition winfsp_path_to_engine :: "string \<Rightarrow> string option" where
  "winfsp_path_to_engine p =
     (if p = [CHR 0x5C] \<or> p = [] then Some ''/''
      else win_components (filter (\<lambda>c. c \<noteq> []) (split_on (CHR 0x5C) p)))"

definition winfsp_security :: "string \<Rightarrow> bool \<times> nat \<times> u32" where
  "winfsp_security file_name = (False, 0, 0)"

definition winfsp_open :: "vfs \<Rightarrow> string \<Rightarrow> vfs \<times> (u32, file_ctx \<times> file_info) outcome" where
  "winfsp_open v file_name =
     (case winfsp_path_to_engine file_name of
        None \<Rightarrow> (v, Fails 2)
      | Some p \<Rightarrow>
          (case lookup_path v p of
             (v1, Inl e) \<Rightarrow> (v1, Fails 2)
           | (v1, Inr a) \<Rightarrow>
               if a_is_dir a then (v1, Done (\<lparr>cx_ino = a_ino a, cx_fh = 0, cx_is_dir = True\<rparr>, fill_file_info a))
               else
                 (case vfs_open v1 (a_ino a) of
                    (v2, Inl e) \<Rightarrow> (v2, Fails 5)
                  | (v2, Inr fh) \<Rightarrow>
                      (v2, Done (\<lparr>cx_ino = a_ino a, cx_fh = fh, cx_is_dir = False\<rparr>, fill_file_info a)))))"

definition winfsp_close :: "put_bytes \<Rightarrow> u64 \<Rightarrow> vfs \<Rightarrow> file_ctx \<Rightarrow> vfs" where
  "winfsp_close put_bytes now v ctx = (if cx_is_dir ctx then v else fst (release put_bytes now v (cx_fh ctx)))"

text \<open>The bytes copied to the front of a buffer of the given length.\<close>

definition winfsp_read :: "get_object \<Rightarrow> vfs \<Rightarrow> file_ctx \<Rightarrow> nat \<Rightarrow> u64 \<Rightarrow> vfs \<times> (u32, bytes) outcome" where
  "winfsp_read get_object v ctx len offset =
     apsnd (win32 5 \<circ> map_sum id (take len)) (vfs_read get_object v (cx_fh ctx) offset (of_nat len))"

definition winfsp_write ::
    "get_object \<Rightarrow> vfs \<Rightarrow> file_ctx \<Rightarrow> bytes \<Rightarrow> u64 \<Rightarrow> vfs \<times> (u32, nat \<times> file_info option) outcome" where
  "winfsp_write get_object v ctx buffer offset =
     (case vfs_write get_object v (cx_fh ctx) offset buffer of
        (v1, Inl e) \<Rightarrow> (v1, win32 5 (Inl e))
      | (v1, Inr n) \<Rightarrow>
          (v1, Done (n, (case getattr v1 (cx_ino ctx) of Inr a \<Rightarrow> Some (fill_file_info a) | Inl _ \<Rightarrow> None))))"

definition winfsp_flush :: "put_bytes \<Rightarrow> u64 \<Rightarrow> vfs \<Rightarrow> file_ctx option \<Rightarrow> vfs \<times> (u32, unit) outcome" where
  "winfsp_flush put_bytes now v context =
     (case context of
        None \<Rightarrow> (v, Done ())
      | Some ctx \<Rightarrow> apsnd (win32 5 \<circ> map_sum id (\<lambda>_. ())) (flush put_bytes now v (cx_fh ctx)))"

definition winfsp_get_file_info :: "vfs \<Rightarrow> file_ctx \<Rightarrow> (u32, file_info) outcome" where
  "winfsp_get_file_info v ctx = win32 2 (map_sum id fill_file_info (getattr v (cx_ino ctx)))"

text \<open>The entries Windows can show: a name it cannot is skipped.\<close>

definition windows_entries :: "(string \<Rightarrow> bool) \<Rightarrow> dir_entry_plus list \<Rightarrow> (string \<times> file_info) list" where
  "windows_entries set_name entries =
     concat (map (\<lambda>e. case normalize_windows (dp_name e) of
                        None \<Rightarrow> []
                      | Some name \<Rightarrow> if set_name name then [(name, fill_file_info (dp_attr e))] else []) entries)"

definition winfsp_read_directory ::
    "(string \<Rightarrow> bool) \<Rightarrow> ((string \<times> file_info) list \<Rightarrow> string \<times> file_info \<Rightarrow> bool) \<Rightarrow> vfs \<Rightarrow> file_ctx
      \<Rightarrow> string option \<Rightarrow> vfs \<times> (u32, (string \<times> file_info) list) outcome" where
  "winfsp_read_directory set_name full v ctx marker =
     apsnd (win32 5 \<circ> map_sum id (\<lambda>entries. add_until_full full [] (windows_entries set_name entries)))
       (readdirplus v (cx_ino ctx))"

definition winfsp_volume_info :: "u64 \<times> u64 \<times> string" where
  "winfsp_volume_info = (- 1 div 2, - 1 div 4, ''CEDrive'')"

text \<open>The host's stages (\<open>init\<close>, \<open>mount\<close>, \<open>start\<close>, \<open>join\<close>) are one parameter: the last state or the failed stage.\<close>

definition winfsp_mount :: "(string \<Rightarrow> vfs \<Rightarrow> string + vfs) \<Rightarrow> vfs \<Rightarrow> string \<Rightarrow> mount_error + drive_state" where
  "winfsp_mount host v mountpoint = map_sum MountFailed vfs_state (host mountpoint v)"

section \<open>ProjFS\<close>

datatype projfs_error = ERROR_FILE_NOT_FOUND

definition projfs_answer :: "vfs_error + 'a \<Rightarrow> (projfs_error, 'a) outcome" where
  "projfs_answer r = (case r of Inr x \<Rightarrow> Done x | Inl SlicePanic \<Rightarrow> Panics | Inl _ \<Rightarrow> Fails ERROR_FILE_NOT_FOUND)"

definition read_through_engine ::
    "get_object \<Rightarrow> put_bytes \<Rightarrow> u64 \<Rightarrow> vfs \<Rightarrow> string \<Rightarrow> u64 \<Rightarrow> u32 \<Rightarrow> vfs \<times> (vfs_error + bytes)" where
  "read_through_engine get_object put_bytes now v engine_path offset len =
     (case lookup_path v engine_path of
        (v1, Inl e) \<Rightarrow> (v1, Inl e)
      | (v1, Inr a) \<Rightarrow>
          (case vfs_open v1 (a_ino a) of
             (v2, Inl e) \<Rightarrow> (v2, Inl e)
           | (v2, Inr fh) \<Rightarrow>
               (case vfs_read get_object v2 fh offset len of
                  (v3, Inl e) \<Rightarrow> (v3, Inl e)
                | (v3, Inr b) \<Rightarrow> (fst (release put_bytes now v3 fh), Inr b))))"

definition projfs_get_dir_enum ::
    "((string \<times> basic_info_fields) list \<Rightarrow> string \<times> basic_info_fields \<Rightarrow> bool) \<Rightarrow> vfs \<Rightarrow> string
      \<Rightarrow> vfs \<times> (projfs_error, (string \<times> basic_info_fields) list) outcome" where
  "projfs_get_dir_enum full v win_path =
     (case win_path_to_engine win_path of
        None \<Rightarrow> (v, Fails ERROR_FILE_NOT_FOUND)
      | Some p \<Rightarrow>
          apsnd (projfs_answer \<circ> map_sum id (\<lambda>entries. add_until_full full []
              (concat (map (\<lambda>e. case normalize_windows (dp_name e) of
                                  None \<Rightarrow> [] | Some name \<Rightarrow> [(name, basic_info (dp_attr e))]) entries))))
            (readdirplus_path v p))"

definition projfs_get_placeholder :: "vfs \<Rightarrow> string \<Rightarrow> vfs \<times> (projfs_error, basic_info_fields) outcome" where
  "projfs_get_placeholder v win_path =
     (case win_path_to_engine win_path of
        None \<Rightarrow> (v, Fails ERROR_FILE_NOT_FOUND)
      | Some p \<Rightarrow> apsnd (projfs_answer \<circ> map_sum id basic_info) (lookup_path v p))"

text \<open>The attributes handed to \<open>PrjWritePlaceholderInfo\<close> above; here the bytes handed to \<open>PrjWriteFileData\<close> with their offset; nothing is written when there are none.\<close>

definition projfs_get_file_data ::
    "get_object \<Rightarrow> put_bytes \<Rightarrow> u64 \<Rightarrow> vfs \<Rightarrow> string \<Rightarrow> u64 \<Rightarrow> u32
      \<Rightarrow> vfs \<times> (projfs_error, (u64 \<times> bytes) option) outcome" where
  "projfs_get_file_data get_object put_bytes now v win_path byte_offset len =
     (case win_path_to_engine win_path of
        None \<Rightarrow> (v, Fails ERROR_FILE_NOT_FOUND)
      | Some p \<Rightarrow>
          apsnd (projfs_answer \<circ> map_sum id (\<lambda>b. if b = [] then None else Some (byte_offset, b)))
            (read_through_engine get_object put_bytes now v p byte_offset len))"

section \<open>Properties\<close>


definition m_docs :: vfs where "m_docs = fst (lookup_path m0 ''/docs/a.md'')"
definition a_docs :: attr where "a_docs = projr (snd (lookup_path m0 ''/docs/a.md''))"
definition c_docs :: file_content where "c_docs = the (content_get (d_content w3) id_file)"


section \<open>What goes wrong\<close>

text \<open>
  The sum of \<open>to_filetime\<close> overflows where the shared \<open>ms_to_filetime\<close> saturates: the time of a file far in
  the future wraps to one before 1970 (a debug build panics in the callback).
\<close>

theorem winfsp_time_wraps:
  "to_filetime 1844674407370955 = 116444735999998384 \<and> unat (ms_to_filetime 1844674407370955) = 2 ^ 64 - 1"
  by (simp add: to_filetime_def sat_mul_def EPOCH_DIFF_100NS_def filetime_saturates)

text \<open>
  A directory larger than one buffer never ends: WinFsp resumes from a marker and ProjFS calls again, but
  both callbacks ignore it and give the first page each time.
\<close>

definition enumerated :: "string option \<Rightarrow> string list" where
  "enumerated marker =
     (case snd (winfsp_read_directory (\<lambda>_. True) (at_most 2) (vfs_new abc)
         \<lparr>cx_ino = ROOT_INO, cx_fh = 0, cx_is_dir = True\<rparr> marker) of
        Done es \<Rightarrow> map fst es | _ \<Rightarrow> [])"

definition projected :: "vfs \<Rightarrow> string list" where
  "projected v = (case snd (projfs_get_dir_enum (at_most 2) v []) of Done es \<Rightarrow> map fst es | _ \<Rightarrow> [])"

lemma add_at_most: "add_until_full (at_most k) acc es = acc @ take (k - length acc) es"
proof (induction es arbitrary: acc)
  case (Cons e es)
  have "\<not> k \<le> length acc \<Longrightarrow> k - length acc = Suc (k - Suc (length acc))" by simp
  with Cons show ?case
    by (simp add: at_most_def)
qed simp

lemma shown_names:
  "map fst (windows_entries (\<lambda>_. True) es) = filter (\<lambda>n. normalize_windows n \<noteq> None) (map dp_name es)"
  "map fst (concat (map (\<lambda>e. case normalize_windows (dp_name e) of
      None \<Rightarrow> [] | Some name \<Rightarrow> [(name, basic_info (dp_attr e))]) es))
    = filter (\<lambda>n. normalize_windows n \<noteq> None) (map dp_name es)"
proof (induction es)
  case (Cons e es)
  from normalize_windows_same [of "dp_name e"]
  show "map fst (windows_entries (\<lambda>_. True) (e # es)) = filter (\<lambda>n. normalize_windows n \<noteq> None) (map dp_name (e # es))"
    using Cons(1) by (elim disjE) (simp_all add: windows_entries_def)
  from normalize_windows_same [of "dp_name e"]
  show "map fst (concat (map (\<lambda>e. case normalize_windows (dp_name e) of
      None \<Rightarrow> [] | Some name \<Rightarrow> [(name, basic_info (dp_attr e))]) (e # es)))
    = filter (\<lambda>n. normalize_windows n \<noteq> None) (map dp_name (e # es))"
    using Cons(2) by (elim disjE) simp_all
qed (simp_all add: windows_entries_def)

lemma abc_names:
  "map_sum (\<lambda>_. ()) (map dp_name) (snd (readdirplus (vfs_new abc) ROOT_INO)) = Inr [''a'', ''b'', ''c'']"
  "map_sum (\<lambda>_. ()) (map dp_name) (snd (readdirplus_path (vfs_new abc) ''/'')) = Inr [''a'', ''b'', ''c'']"
  "map_sum (\<lambda>_. ()) (map dp_name) (snd (readdirplus_path (fst (readdirplus_path (vfs_new abc) ''/'')) ''/''))
    = Inr [''a'', ''b'', ''c'']"
  "filter (\<lambda>n. normalize_windows n \<noteq> None) [''a'', ''b'', ''c''] = [''a'', ''b'', ''c'']"
  by code_simp+

lemma projected_names:
  "map_sum (\<lambda>_. ()) (map dp_name) (snd (readdirplus_path v ''/'')) = Inr ns \<Longrightarrow>
    projected v = take 2 (filter (\<lambda>n. normalize_windows n \<noteq> None) ns)"
  by (cases "readdirplus_path v ''/''"; cases "snd (readdirplus_path v ''/'')")
    (auto simp: projected_def projfs_get_dir_enum_def win_path_to_engine_def projfs_answer_def add_at_most shown_names
      simp flip: take_map)

theorem enumeration_restarts:
  "enumerated None = [''a'', ''b''] \<and> enumerated (Some ''b'') = [''a'', ''b''] \<and> projected (vfs_new abc) = [''a'', ''b''] \<and>
   projected (fst (projfs_get_dir_enum (at_most 2) (vfs_new abc) [])) = [''a'', ''b'']"
proof -
  obtain es where "snd (readdirplus (vfs_new abc) ROOT_INO) = Inr es" and "map dp_name es = [''a'', ''b'', ''c'']"
    using abc_names(1) by (cases "snd (readdirplus (vfs_new abc) ROOT_INO)") auto
  then have "enumerated marker = [''a'', ''b'']" for marker
    using abc_names(4)
    by (simp add: enumerated_def winfsp_read_directory_def win32_def add_at_most shown_names flip: take_map)
  moreover have "fst (projfs_get_dir_enum (at_most 2) (vfs_new abc) []) = fst (readdirplus_path (vfs_new abc) ''/'')"
    by (simp add: projfs_get_dir_enum_def win_path_to_engine_def)
  ultimately show ?thesis
    using projected_names [OF abc_names(2)] projected_names [OF abc_names(3)] abc_names(4) by simp
qed

text \<open>
  Flushing an open directory is refused with access denied, because its handle number 0 is not a handle;
  and a read that fails in \<open>read_through_engine\<close> returns before the release, so the handle stays open.
\<close>

definition offline :: get_object where
  "offline cid = Inl ''offline''"

definition failed_read :: "vfs \<times> (vfs_error + bytes)" where
  "failed_read = read_through_engine offline demo_put 9 m0 ''/docs/a.md'' 0 1"

theorem windows_handles:
  "snd (winfsp_flush demo_put 9 m0 (Some \<lparr>cx_ino = ROOT_INO, cx_fh = 0, cx_is_dir = True\<rparr>)) = Fails 5 \<and>
   isl (snd failed_read) \<and> map_option of_ino (fmlookup (v_open (fst failed_read)) 1) = Some 2"
proof (intro conjI)
  show "snd (winfsp_flush demo_put 9 m0 (Some \<lparr>cx_ino = ROOT_INO, cx_fh = 0, cx_is_dir = True\<rparr>)) = Fails 5"
    by (simp add: winfsp_flush_def flush_def flush_snapshot_def m0_def vfs_new_def win32_def)
  show "isl (snd failed_read)"
    by code_simp
  show "map_option of_ino (fmlookup (v_open (fst failed_read)) 1) = Some 2"
    by code_simp
qed

text \<open>
  The volume is declared case-insensitive and the module says its names are, but a path is resolved as it
  is written: \<open>DOCS\<close> is not found where \<open>docs\<close> is.
\<close>

theorem winfsp_is_case_sensitive:
  "snd (winfsp_open m0 (CHR 0x5C # ''DOCS'')) = Fails 2 \<and>
   map_option (\<lambda>_. ()) (case snd (winfsp_open m0 (CHR 0x5C # ''docs'')) of Done x \<Rightarrow> Some x | _ \<Rightarrow> None) = Some ()"
proof
  have "winfsp_path_to_engine (CHR 0x5C # ''DOCS'') = Some ''/DOCS''" and "isl (snd (lookup_path m0 ''/DOCS''))"
    by code_simp+
  then show "snd (winfsp_open m0 (CHR 0x5C # ''DOCS'')) = Fails 2"
    by (auto simp: winfsp_open_def isl_def split: prod.split)
next
  have "winfsp_path_to_engine (CHR 0x5C # ''docs'') = Some ''/docs''"
    and "map_sum (\<lambda>_. ()) a_is_dir (snd (lookup_path m0 ''/docs'')) = Inr True"
    by code_simp+
  then show "map_option (\<lambda>_. ()) (case snd (winfsp_open m0 (CHR 0x5C # ''docs'')) of Done x \<Rightarrow> Some x | _ \<Rightarrow> None) = Some ()"
    by (cases "lookup_path m0 ''/docs''"; cases "snd (lookup_path m0 ''/docs'')") (auto simp: winfsp_open_def)
qed

end
