(* ===== verification/MacFuse.thy ===== *)
theory MacFuse
  imports FuseProps
begin

text \<open>
  The callbacks of the macOS adapter, \<open>crates/ce-drive-mount/src/macos_fskit.rs\<close>. The source is a copy of
  the Linux adapter's; here its own text is translated, and the lemmas \<open>mac_same\<close> show that the copies
  agree, so that what \<open>FuseProps\<close> proves of one holds of the other.
\<close>

section \<open>The copy\<close>

definition mac_to_file_attr :: "attr \<Rightarrow> file_attr" where
  "mac_to_file_attr a =
     \<lparr>fa_ino = a_ino a, fa_size = a_size a, fa_blocks = div_ceil (a_size a) 512, fa_mtime_ms = a_mtime_ms a,
      fa_is_dir = a_is_dir a, fa_perm = ucast (and (a_mode a) 0xFFF), fa_nlink = (if a_is_dir a then 2 else 1)\<rparr>"

definition mac_errno :: "vfs_error \<Rightarrow> errno" where
  "mac_errno e =
     (let msg = vfs_error_text e in
      if str_contains msg ''no such'' \<or> str_contains msg ''unknown inode'' \<or> str_contains msg ''no such entry''
      then ENOENT else EIO)"

definition mac_answer :: "('a \<Rightarrow> 'b) \<Rightarrow> vfs_error + 'a \<Rightarrow> (errno, 'b) outcome" where
  "mac_answer f r =
     (case r of
        Inr x \<Rightarrow> Done (f x)
      | Inl SlicePanic \<Rightarrow> Panics
      | Inl e \<Rightarrow> Fails (mac_errno e))"

definition mac_lookup :: "vfs \<Rightarrow> ino \<Rightarrow> string \<Rightarrow> vfs \<times> (errno, file_attr) outcome" where
  "mac_lookup v parent name = apsnd (mac_answer mac_to_file_attr) (lookup v parent name)"

definition mac_getattr :: "vfs \<Rightarrow> ino \<Rightarrow> (errno, file_attr) outcome" where
  "mac_getattr v i = mac_answer mac_to_file_attr (getattr v i)"

definition mac_open :: "vfs \<Rightarrow> ino \<Rightarrow> vfs \<times> (errno, u64) outcome" where
  "mac_open v i = apsnd (mac_answer id) (vfs_open v i)"

definition mac_read :: "get_object \<Rightarrow> vfs \<Rightarrow> u64 \<Rightarrow> u64 \<Rightarrow> u32 \<Rightarrow> vfs \<times> (errno, bytes) outcome" where
  "mac_read get_object v fh offset sz = apsnd (mac_answer id) (vfs_read get_object v fh (at_least_0 offset) sz)"

definition mac_write :: "get_object \<Rightarrow> vfs \<Rightarrow> u64 \<Rightarrow> u64 \<Rightarrow> bytes \<Rightarrow> vfs \<times> (errno, nat) outcome" where
  "mac_write get_object v fh offset data = apsnd (mac_answer id) (vfs_write get_object v fh (at_least_0 offset) data)"

definition mac_flush :: "put_bytes \<Rightarrow> u64 \<Rightarrow> vfs \<Rightarrow> u64 \<Rightarrow> vfs \<times> (errno, unit) outcome" where
  "mac_flush put_bytes now v fh = apsnd (mac_answer (\<lambda>_. ())) (flush put_bytes now v fh)"

definition mac_fsync :: "put_bytes \<Rightarrow> u64 \<Rightarrow> vfs \<Rightarrow> u64 \<Rightarrow> vfs \<times> (errno, unit) outcome" where
  "mac_fsync put_bytes now v fh = apsnd (mac_answer (\<lambda>_. ())) (flush put_bytes now v fh)"

definition mac_release :: "put_bytes \<Rightarrow> u64 \<Rightarrow> vfs \<Rightarrow> u64 \<Rightarrow> vfs \<times> (errno, unit) outcome" where
  "mac_release put_bytes now v fh = apsnd (mac_answer (\<lambda>_. ())) (release put_bytes now v fh)"

definition mac_create :: "u64 \<Rightarrow> u64 \<Rightarrow> vfs \<Rightarrow> ino \<Rightarrow> string \<Rightarrow> vfs \<times> (errno, file_attr \<times> u64) outcome" where
  "mac_create ctr now v parent name = apsnd (mac_answer (apfst mac_to_file_attr)) (vfs_create ctr now v parent name)"

definition mac_mkdir :: "u64 \<Rightarrow> vfs \<Rightarrow> ino \<Rightarrow> string \<Rightarrow> vfs \<times> (errno, file_attr) outcome" where
  "mac_mkdir ctr v parent name = apsnd (mac_answer mac_to_file_attr) (vfs_mkdir ctr v parent name)"

definition mac_unlink :: "vfs \<Rightarrow> ino \<Rightarrow> string \<Rightarrow> vfs \<times> (errno, unit) outcome" where
  "mac_unlink v parent name = apsnd (mac_answer id) (vfs_unlink v parent name)"

definition mac_rmdir :: "vfs \<Rightarrow> ino \<Rightarrow> string \<Rightarrow> vfs \<times> (errno, unit) outcome" where
  "mac_rmdir v parent name = apsnd (mac_answer id) (vfs_unlink v parent name)"

definition mac_rename :: "vfs \<Rightarrow> ino \<Rightarrow> string \<Rightarrow> ino \<Rightarrow> string \<Rightarrow> vfs \<times> (errno, unit) outcome" where
  "mac_rename v parent name new_parent new_name = apsnd (mac_answer id) (vfs_rename v parent name new_parent new_name)"

text \<open>The parent entry is the root, written out.\<close>

definition mac_entries :: "ino \<Rightarrow> (string \<times> ino \<times> bool) list \<Rightarrow> fuse_entry list" where
  "mac_entries i entries =
     map (\<lambda>(k, child, dir, name). \<lparr>fe_ino = child, fe_offset = of_nat (k + 1), fe_is_dir = dir, fe_name = name\<rparr>)
       (enumerate 0
         ([(i, True, ''.''), (ROOT_INO, True, ''..'')] @ map (\<lambda>(name, child, dir). (child, dir, name)) entries))"

definition mac_readdir ::
    "(fuse_entry list \<Rightarrow> fuse_entry \<Rightarrow> bool) \<Rightarrow> vfs \<Rightarrow> ino \<Rightarrow> u64 \<Rightarrow> vfs \<times> (errno, fuse_entry list) outcome" where
  "mac_readdir full v i offset =
     apsnd (mac_answer (\<lambda>entries. add_until_full full [] (drop (unat (at_least_0 offset)) (mac_entries i entries))))
       (vfs_readdir v i)"

definition mac_readdirplus ::
    "(fuse_entry_plus list \<Rightarrow> fuse_entry_plus \<Rightarrow> bool) \<Rightarrow> vfs \<Rightarrow> ino \<Rightarrow> u64
      \<Rightarrow> vfs \<times> (errno, fuse_entry_plus list) outcome" where
  "mac_readdirplus full v i offset =
     (case readdirplus v i of
        (v1, Inl e) \<Rightarrow> (v1, mac_answer id (Inl e))
      | (v1, Inr entries) \<Rightarrow>
          (let rest = drop (unat (at_least_0 offset))
                 (map (\<lambda>(k, e). \<lparr>fp_ino = a_ino (dp_attr e), fp_offset = of_nat (k + 2), fp_name = dp_name e,
                                fp_attr = mac_to_file_attr (dp_attr e)\<rparr>) (enumerate 0 entries)) in
           (v1, Done
             (case getattr v1 i of
                Inr a \<Rightarrow>
                  if offset = 0 then
                    (let dot = \<lparr>fp_ino = i, fp_offset = 1, fp_name = ''.'', fp_attr = mac_to_file_attr a\<rparr> in
                     if full [] dot then [] else add_until_full full [dot] rest)
                  else add_until_full full [] rest
              | Inl _ \<Rightarrow> add_until_full full [] rest))))"

section \<open>The copies agree\<close>

lemma mac_same_parts: "mac_to_file_attr = to_file_attr" "mac_errno = errno_of" "mac_answer = answer" "mac_entries = fuse_entries"
proof -
  show "mac_to_file_attr = to_file_attr" and e: "mac_errno = errno_of"
    by (intro ext, simp add: mac_to_file_attr_def to_file_attr_def mac_errno_def errno_of_def)+
  show "mac_answer = answer"
    by (intro ext) (simp only: mac_answer_def answer_def e)
  show "mac_entries = fuse_entries"
    by (intro ext) (simp only: mac_entries_def fuse_entries_def parent_or_self_def if_cancel)
qed

lemma mac_same:
  "mac_lookup = fuse_lookup" "mac_getattr = fuse_getattr" "mac_open = fuse_open" "mac_read = fuse_read"
  "mac_write = fuse_write" "mac_flush = fuse_flush" "mac_fsync = fuse_fsync" "mac_release = fuse_release"
  "mac_create = fuse_create" "mac_mkdir = fuse_mkdir" "mac_unlink = fuse_unlink" "mac_rmdir = fuse_rmdir"
  "mac_rename = fuse_rename" "mac_readdir = fuse_readdir" "mac_readdirplus = fuse_readdirplus"
  by (intro ext, simp only: mac_same_parts mac_lookup_def fuse_lookup_def mac_getattr_def fuse_getattr_def
      mac_open_def fuse_open_def mac_read_def fuse_read_def mac_write_def fuse_write_def mac_flush_def fuse_flush_def
      mac_fsync_def fuse_fsync_def mac_release_def fuse_release_def mac_create_def fuse_create_def mac_mkdir_def
      fuse_mkdir_def mac_unlink_def fuse_unlink_def mac_rmdir_def fuse_rmdir_def mac_rename_def fuse_rename_def
      mac_readdir_def fuse_readdir_def mac_readdirplus_def fuse_readdirplus_def fuse_entries_plus_def)+

end
