(* ===== verification/LocalDrive.thy ===== *)
theory LocalDrive
  imports DriveOpsProps
begin

text \<open>
  The drive of a single writer as a typed system. \<open>Drive\<close> keeps the kind of a node on its edge and takes
  a parent from \<open>resolve_dir\<close> and a name through \<open>check_name\<close>; here is what that buys: in every
  drive reached by local operations a parent is a directory (or one of the three tops) and a name is
  valid, kinds never change, and compaction needs no hypothesis. The node ids minted must be new;
  the last section is a run in which compaction makes the program mint one that is not.
\<close>

section \<open>Typing\<close>

definition typed_edge :: "edge_map \<Rightarrow> edge \<Rightarrow> bool" where
  "typed_edge E e \<longleftrightarrow>
     (e_parent e \<in> {ROOT, TRASH, LIMBO} \<or> map_option e_kind (fmlookup E (e_parent e)) = Some Dir) \<and>
     (e_parent e \<noteq> LIMBO \<longrightarrow> valid_name (e_name e))"

definition typed_edges :: "edge_map \<Rightarrow> bool" where
  "typed_edges E \<longleftrightarrow> (\<forall>n e. fmlookup E n = Some e \<longrightarrow> typed_edge E e)"

definition drive_typed :: "drive \<Rightarrow> bool" where
  "drive_typed d \<longleftrightarrow> drive_ok d \<and> typed_edges (edges_of d)"

text \<open>A node that has a kind keeps it.\<close>

definition keeps_kinds :: "edge_map \<Rightarrow> edge_map \<Rightarrow> bool" where
  "keeps_kinds E E' \<longleftrightarrow>
     (\<forall>n e e'. fmlookup E n = Some e \<longrightarrow> fmlookup E' n = Some e' \<longrightarrow> e_kind e' = e_kind e)"

lemma typed_edgesD: "typed_edges E \<Longrightarrow> fmlookup E n = Some e \<Longrightarrow> typed_edge E e"
  by (simp add: typed_edges_def)

lemma drive_typedD: "drive_typed d \<Longrightarrow> drive_ok d" "drive_typed d \<Longrightarrow> typed_edges (edges_of d)"
  by (simp_all add: drive_typed_def)

lemma typed_update:
  assumes "typed_edges E" and "typed_edge E e" and "\<And>e0. fmlookup E n = Some e0 \<Longrightarrow> e_kind e = e_kind e0"
  shows "typed_edges (fmupd n e E)" and "keeps_kinds E (fmupd n e E)"
proof -
  have "typed_edge (fmupd n e E) x" if "typed_edge E x" for x
    using that assms(3) by (auto simp: typed_edge_def)
  then show "typed_edges (fmupd n e E)"
    using assms(1,2) by (auto simp: typed_edges_def)
  show "keeps_kinds E (fmupd n e E)"
    using assms(3) by (auto simp: keeps_kinds_def)
qed

lemma keeps_kinds_refl [simp]: "keeps_kinds E E"
  by (simp add: keeps_kinds_def)

lemma below_root_not_top:
  assumes "drive_ok d" and "below (edges_of d) m ROOT"
  shows "m \<noteq> TRASH" and "m \<noteq> LIMBO"
  using below_top(1,2) [OF drive_okD(3) [OF assms(1)] assms(2)] rtrancl_refl by metis+

lemma resolve_dir_typed:
  assumes "resolve_dir d p = Inr parent" and "valid_name name"
  shows "typed_edge (edges_of d) \<lparr>e_parent = parent, e_name = name, e_kind = k\<rparr>"
  using assms by (auto simp: typed_edge_def resolve_dir_Inr is_dir_def tree_edge_def)

section \<open>Local steps\<close>

text \<open>The operations of a single writer, each with room on the clock and a new id where it mints one.\<close>

inductive local_step :: "drive \<Rightarrow> drive \<Rightarrow> bool" where
  local_mkdir: "room 1 d \<Longrightarrow> mkdir d ctr p n = Inr (i, d') \<Longrightarrow> fmlookup (edges_of d) i = None \<Longrightarrow> local_step d d'"
| local_add_file: "room 2 d \<Longrightarrow> add_file d ctr p n c = Inr (i, d') \<Longrightarrow>
    fmlookup (edges_of d) (fresh_node_id (ds_lamport (d_state d) + 1) ctr) = None \<Longrightarrow> local_step d d'"
| local_mv: "room 1 d \<Longrightarrow> mv d s dp n = Inr d' \<Longrightarrow> local_step d d'"
| local_rm: "room 1 d \<Longrightarrow> rm d p = Inr d' \<Longrightarrow> local_step d d'"
| local_restore: "room 1 d \<Longrightarrow> i \<noteq> TRASH \<Longrightarrow> restore d i pp nm = Inr d' \<Longrightarrow> local_step d d'"
| local_empty_trash: "room (2 * length (trash d)) d \<Longrightarrow> local_step d (snd (empty_trash d))"
| local_gc_trash: "room (2 * length (trash d)) d \<Longrightarrow> local_step d (snd (gc_trash d now keep))"
| local_set_content: "room 1 d \<Longrightarrow> local_step d (set_content d i c)"
| local_restore_version: "room 1 d \<Longrightarrow> restore_version d now p cid = Inr d' \<Longrightarrow> local_step d d'"
| local_compact: "compact d = Some d' \<Longrightarrow> op_count d' < 2 ^ 64 \<Longrightarrow> local_step d d'"

inductive local_reachable :: "string \<Rightarrow> string \<Rightarrow> drive \<Rightarrow> bool" for name rep where
  local_init: "local_reachable name rep (drive_init name rep)"
| local_next: "local_reachable name rep d \<Longrightarrow> local_step d d' \<Longrightarrow> local_reachable name rep d'"

lemma local_step_drive_step: "local_step d d' \<Longrightarrow> drive_step d d'"
  by (induction rule: local_step.induct) (blast intro: drive_step.intros)+

text \<open>What a step does to the typing and the kinds.\<close>

definition typed_step :: "drive \<Rightarrow> drive \<Rightarrow> bool" where
  "typed_step d d' \<longleftrightarrow> typed_edges (edges_of d') \<and> keeps_kinds (edges_of d) (edges_of d')"

lemma typed_step_same: "typed_edges (edges_of d) \<Longrightarrow> edges_of d' = edges_of d \<Longrightarrow> typed_step d d'"
  by (simp add: typed_step_def)

lemma typed_step_update:
  assumes "typed_edges (edges_of d)" and "edges_of d' = fmupd n e (edges_of d)" and "typed_edge (edges_of d) e"
    and "\<And>e0. fmlookup (edges_of d) n = Some e0 \<Longrightarrow> e_kind e = e_kind e0"
  shows "typed_step d d'"
  using typed_update [OF assms(1,3), of n] assms(2,4) by (simp add: typed_step_def)

lemma new_node_typed:
  assumes "drive_typed d" and "room 1 d" and "resolve_dir d p = Inr parent" and "child_named d parent name = None"
    and "valid_name name" and "i = fresh_node_id l ctr" and "fmlookup (edges_of d) i = None"
  shows "typed_step d (push_new_move d i parent name k)"
  by (rule typed_step_update [OF drive_typedD(2) [OF assms(1)]
        new_node(1) [OF drive_typedD(1) [OF assms(1)] assms(2-4,7)] resolve_dir_typed [OF assms(3,5)]])
    (use assms(6,7) in simp_all)

lemma delete_typed:
  assumes "drive_typed d" and "room (2 * length ids) d" and "set ids \<subseteq> set (trash_ids d)"
  shows "typed_step d (hard_delete d ids)"
proof -
  let ?E = "edges_of d" and ?E' = "edges_of (hard_delete d ids)"
  note ok = drive_typedD(1) [OF assms(1)]
  have "\<forall>i \<in> set ids. tree_edge (d_tree d) i \<noteq> None"
    using assms(3) trash_ids_iff [OF drive_okD(2) [OF ok]] by fastforce
  from hard_delete_effect [OF ok assms(2) this]
  have E': "fmlookup ?E' j = (if j \<in> set ids then Some (limbo_edge j (kind_of (d_tree d) j)) else fmlookup ?E j)" for j
    by (simp add: tree_edge_def)
  have kinds: "map_option e_kind (fmlookup ?E j) = Some k \<Longrightarrow> map_option e_kind (fmlookup ?E' j) = Some k" for j k
    by (auto simp: E' kind_of_def tree_edge_def)
  then have "typed_edge ?E' x" if "typed_edge ?E x" for x
    using that by (auto simp: typed_edge_def)
  moreover have "typed_edge ?E' (limbo_edge j k)" for j k
    by (simp add: typed_edge_def)
  ultimately have "typed_edges ?E'"
    using drive_typedD(2) [OF assms(1)] by (auto simp: typed_edges_def E' split: if_splits)
  moreover have "keeps_kinds ?E ?E'"
    unfolding keeps_kinds_def using kinds by fastforce
  ultimately show ?thesis by (simp add: typed_step_def)
qed

lemma typed_parents_are_dirs:
  assumes "drive_typed d"
  shows "parents_are_dirs (d_tree d)"
  unfolding parents_are_dirs_def
proof (intro allI impI)
  fix c e
  assume e: "tree_edge (d_tree d) c = Some e" and b: "below (edges_of d) (e_parent e) ROOT"
  have "typed_edge (edges_of d) e"
    using typed_edgesD [OF drive_typedD(2) [OF assms]] e by (simp add: tree_edge_def)
  then show "is_dir (d_tree d) (e_parent e)"
    using below_root_not_top [OF drive_typedD(1) [OF assms] b] by (auto simp: typed_edge_def is_dir_def tree_edge_def)
qed

lemma compact_typed:
  assumes "drive_typed d" and "compact d = Some d'" and "op_count d' < 2 ^ 64"
  shows "typed_step d d'"
proof -
  note ok = drive_typedD(1) [OF assms(1)]
  obtain a where d': "d' = compacted d a" and inv: "acc_inv d [] a"
    using compact_returns [OF ok] assms(2) by (metis option.inject)
  note E' = compacted_edges [OF ok inv _ typed_parents_are_dirs [OF assms(1)], folded d']
  have E': "fmlookup (edges_of d') c =
      (if c \<noteq> ROOT \<and> below (edges_of d) c ROOT then fmlookup (edges_of d) c else None)" for c
    using E' [of c] assms(3) d' by simp
  have "typed_edges (edges_of d')"
    unfolding typed_edges_def
  proof (intro allI impI)
    fix c e
    assume c: "fmlookup (edges_of d') c = Some e"
    then have e: "fmlookup (edges_of d) c = Some e" "below (edges_of d) c ROOT" "c \<noteq> ROOT"
      by (auto simp: E' split: if_splits)
    then have up: "below (edges_of d) (e_parent e) ROOT"
      using below_edge [OF e(2,3)] by auto
    have "typed_edge (edges_of d) e"
      using typed_edgesD [OF drive_typedD(2) [OF assms(1)] e(1)] .
    with up show "typed_edge (edges_of d') e"
      by (auto simp: typed_edge_def E')
  qed
  moreover have "keeps_kinds (edges_of d) (edges_of d')"
    by (auto simp: keeps_kinds_def E' split: if_splits)
  ultimately show ?thesis by (simp add: typed_step_def)
qed

lemma local_step_typed: "local_step d d' \<Longrightarrow> drive_typed d \<Longrightarrow> typed_step d d'"
proof (induction rule: local_step.induct)
  case (local_mkdir d ctr p n i d')
  then show ?case by (auto simp: mkdir_Inr intro: new_node_typed)
next
  case (local_add_file d ctr p n c i d')
  have r: "room 1 d" using local_add_file(1) by (rule room_mono) simp
  have push: "typed_step d e \<Longrightarrow> typed_step d (push_content e op)" for e op
    by (simp add: typed_step_def)
  have "typed_step d d"
    using drive_typedD(2) [OF local_add_file(4)] by (simp add: typed_step_def)
  with local_add_file r show ?case
    by (auto simp: add_file_Inr intro!: push new_node_typed)
next
  case (local_mv d s dp n d')
  from mv_effect [OF drive_typedD(1) [OF local_mv(3)] local_mv(1,2)]
  obtain m parent e where M: "resolve_dir d dp = Inr parent" "tree_edge (d_tree d) m = Some e" "valid_name n"
    "edges_of d' = (if below (edges_of d) parent m then edges_of d
       else fmupd m (e\<lparr>e_parent := parent, e_name := n\<rparr>) (edges_of d))"
    by metis
  have "typed_edge (edges_of d) (e\<lparr>e_parent := parent, e_name := n\<rparr>)"
    using resolve_dir_typed [OF M(1,3), of "e_kind e"] by (simp add: typed_edge_def)
  then show ?case
    using M(2,4) drive_typedD(2) [OF local_mv(3)]
    by (cases "below (edges_of d) parent m")
      (auto simp: tree_edge_def intro: typed_step_same elim: typed_step_update)
next
  case (local_rm d p d')
  from rm_effect [OF drive_typedD(1) [OF local_rm(3)] local_rm(1,2)]
  obtain m e where M: "resolve (d_tree d) p = Some m" "tree_edge (d_tree d) m = Some e" "m \<noteq> ROOT"
    "edges_of d' = fmupd m (e\<lparr>e_parent := TRASH\<rparr>) (edges_of d)"
    by metis
  note ok = drive_typedD(1) [OF local_rm(3)]
  have "e_parent e \<noteq> LIMBO"
    using below_edge [OF resolve_node(1) [OF ok M(1)] M(3)] M(2) below_root_not_top(2) [OF ok, of "e_parent e"]
    by (auto simp: tree_edge_def)
  then have "typed_edge (edges_of d) (e\<lparr>e_parent := TRASH\<rparr>)"
    using typed_edgesD [OF drive_typedD(2) [OF local_rm(3)], of m e] M(2)
    by (simp add: typed_edge_def tree_edge_def)
  then show ?case
    using M(2,4) drive_typedD(2) [OF local_rm(3)] by (auto simp: tree_edge_def elim: typed_step_update)
next
  case (local_restore d i pp nm d')
  from restore_effect [OF drive_typedD(1) [OF local_restore(4)] local_restore(1-3)]
  obtain parent e nm' where M: "resolve_dir d (case pp of Some s \<Rightarrow> s | None \<Rightarrow> ''/'') = Inr parent"
    "tree_edge (d_tree d) i = Some e" "valid_name nm'"
    "edges_of d' = fmupd i (e\<lparr>e_parent := parent, e_name := nm'\<rparr>) (edges_of d)"
    by metis
  have "typed_edge (edges_of d) (e\<lparr>e_parent := parent, e_name := nm'\<rparr>)"
    using resolve_dir_typed [OF M(1,3), of "e_kind e"] by (simp add: typed_edge_def)
  then show ?case
    using M(2,4) drive_typedD(2) [OF local_restore(4)] by (auto simp: tree_edge_def elim: typed_step_update)
next
  case (local_empty_trash d)
  then show ?case
    using delete_typed [of d "trash_ids d"] by (simp add: empty_trash_def)
next
  case (local_gc_trash d now keep)
  have "typed_step d (hard_delete d (gc_victims d cutoff))" for cutoff
    using set_sub_trash(2) [of d cutoff]
    by (intro delete_typed [OF local_gc_trash(2) _ set_sub_trash(1)] room_mono [OF local_gc_trash(1)]) simp
  moreover have "typed_step d (hard_delete d (trash_ids d))"
    using delete_typed [of d "trash_ids d"] local_gc_trash by simp
  ultimately show ?case
    by (simp add: gc_trash_def empty_trash_def Let_def)
next
  case (local_set_content d i c)
  then show ?case by (simp add: set_content_def typed_step_same drive_typedD)
next
  case (local_restore_version d now p cid d')
  then show ?case by (auto simp: restore_version_Inr intro: typed_step_same dest: drive_typedD)
next
  case (local_compact d d')
  then show ?case by (intro compact_typed)
qed

lemma local_reachable_typed: "local_reachable name rep d \<Longrightarrow> drive_typed d"
proof (induction rule: local_reachable.induct)
  case local_init
  have "edges_of (drive_init name rep) = fmempty"
    by (simp add: drive_init_def tree_new_def)
  then show ?case
    using drive_init_ok by (simp add: drive_typed_def typed_edges_def)
next
  case (local_next d d')
  then show ?case
    using local_step_typed [of d d'] drive_step_ok [OF local_step_drive_step]
    by (simp add: drive_typed_def typed_step_def)
qed

section \<open>Properties\<close>


lemma demo_local: "local_reachable ''work'' ''dev1'' w3"
proof -
  have "fmlookup (edges_of w0) id_docs = None" and
    f: "fmlookup (edges_of w1) (fresh_node_id (ds_lamport (d_state w1) + 1) 1) = None"
    by code_simp+
  then have "local_reachable ''work'' ''dev1'' w1"
    using local_next [OF local_init local_mkdir [OF _ w1_step [unfolded w0_def]]] demo_room(1) [of 1]
    by (simp add: w0_def)
  then have "local_reachable ''work'' ''dev1'' w2"
    by (rule local_next [OF _ local_add_file [OF _ w2_step f]]) simp
  then show ?thesis
    unfolding w3_def by (rule local_next [OF _ local_set_content]) simp
qed


section \<open>Ids minted after a compaction\<close>

text \<open>
  Four commands, each in a process of its own, so that the counter starts at 0 each time: two
  directories are made, the first is removed, the drive is compacted, and a third is made.
\<close>

definition two_dirs :: drive where
  "two_dirs = snd (projr (mkdir (snd (projr (mkdir w0 0 ''/'' ''a''))) 0 ''/'' ''b''))"

definition one_left :: drive where
  "one_left = the (compact (projr (rm two_dirs ''/a'')))"

text \<open>
  Compaction sets the clock back to the length of the new log, so the next id minted is that of an
  older, live node: creating \<open>/c\<close> succeeds, but it renames \<open>/b\<close>.
\<close>

theorem mkdir_after_compact_renames:
  "map de_name (projr (ls one_left ''/'')) = [''b''] \<and>
   \<not> isl (mkdir one_left 0 ''/'' ''c'') \<and>
   map de_name (projr (ls (snd (projr (mkdir one_left 0 ''/'' ''c''))) ''/'')) = [''c''] \<and>
   map de_node_id (projr (ls (snd (projr (mkdir one_left 0 ''/'' ''c''))) ''/''))
     = map de_node_id (projr (ls one_left ''/''))"
  by code_simp

end
