(* ===== verification/AuditLog.thy ===== *)
theory AuditLog
  imports Share
begin

text \<open>
  The share journal and its rendering, \<open>crates/ce-drive-core/src/audit.rs\<close>, and the announcement of
  stored content, \<open>durability.rs\<close>. The node client is a parameter: the revoked set it returns or its
  error, whether an advertisement succeeds, the holders it finds. JSON encoding is a parameter.
\<close>

section \<open>The journal\<close>

record grant_record =
  gc_issued_at :: u64
  gc_issuer :: string
  gc_audience :: string
  gc_ability :: ability
  gc_scope :: string
  gc_expires :: u64
  gc_revoke_nonce :: u64
  gc_is_link :: bool

record revoke_record =
  rv_revoked_at :: u64
  rv_issuer :: string
  rv_revoke_nonce :: u64

record audit_journal =
  aj_grants :: "grant_record list"
  aj_revokes :: "revoke_record list"

record audit_entry =
  ae_record :: grant_record
  ae_revoked :: bool
  ae_expired :: bool

definition from_grant :: "string \<Rightarrow> u64 \<Rightarrow> grant \<Rightarrow> bool \<Rightarrow> grant_record" where
  "from_grant issuer issued_at g is_link =
     \<lparr>gc_issued_at = issued_at, gc_issuer = issuer, gc_audience = gr_audience g, gc_ability = gr_ability g,
      gc_scope = gr_scope g, gc_expires = gr_expires g, gc_revoke_nonce = gr_revoke_nonce g, gc_is_link = is_link\<rparr>"

definition journal_new :: audit_journal where
  "journal_new = \<lparr>aj_grants = [], aj_revokes = []\<rparr>"

definition record_grant :: "grant_record \<Rightarrow> audit_journal \<Rightarrow> audit_journal" where
  "record_grant r j = j\<lparr>aj_grants := aj_grants j @ [r]\<rparr>"

definition record_revoke :: "revoke_record \<Rightarrow> audit_journal \<Rightarrow> audit_journal" where
  "record_revoke r j = j\<lparr>aj_revokes := aj_revokes j @ [r]\<rparr>"

definition journal_from_json :: "(string \<Rightarrow> string + audit_journal) \<Rightarrow> string \<Rightarrow> string + audit_journal" where
  "journal_from_json decode s = (if trim s = [] then Inr journal_new else decode s)"

text \<open>\<open>unwrap_or_default\<close> turns a failed query into the empty revoked set.\<close>

definition render_audit :: "string + (string \<times> u64) list \<Rightarrow> audit_journal \<Rightarrow> u64 \<Rightarrow> audit_entry list" where
  "render_audit query j now =
     (let revoked = (case query of Inl _ \<Rightarrow> [] | Inr xs \<Rightarrow> xs) in
      map (\<lambda>g. \<lparr>ae_record = g,
                ae_revoked = list_ex (\<lambda>(i, n). i = gc_issuer g \<and> n = gc_revoke_nonce g) revoked,
                ae_expired = (gc_expires g \<noteq> 0 \<and> now > gc_expires g)\<rparr>) (aj_grants j))"

section \<open>Durability\<close>

record pin_policy =
  pp_replication :: "8 word"
  pp_trash_retention_secs :: u64
  pp_announce :: bool

record pin_status =
  ps_cid :: string
  ps_holders :: "string list"
  ps_satisfied :: bool

definition policy_default :: pin_policy where
  "policy_default = \<lparr>pp_replication = 2, pp_trash_retention_secs = 30 * 24 * 3600, pp_announce = True\<rparr>"

definition policy_local :: pin_policy where
  "policy_local = \<lparr>pp_replication = 0, pp_trash_retention_secs = 30 * 24 * 3600, pp_announce = True\<rparr>"

text \<open>The filter with a set of the strings already seen.\<close>

fun dedup_from :: "string fset \<Rightarrow> string list \<Rightarrow> string list" where
  "dedup_from seen [] = []"
| "dedup_from seen (c # cs) =
     (if c |\<in>| seen then dedup_from seen cs else c # dedup_from (finsert c seen) cs)"

definition dedup :: "string list \<Rightarrow> string list" where
  "dedup cids = dedup_from {||} cids"

definition pin_service :: "string \<Rightarrow> string" where
  "pin_service cid = ''pin:'' @ cid"

text \<open>The services asked to be advertised, in order, and the number of successes.\<close>

definition announce_all :: "(string \<Rightarrow> string + unit) \<Rightarrow> pin_policy \<Rightarrow> string list \<Rightarrow> string list \<times> nat" where
  "announce_all advertise pol cids =
     (if \<not> pp_announce pol then ([], 0)
      else fold (\<lambda>cid (sent, n). (sent @ [pin_service cid],
                   case advertise (pin_service cid) of Inl _ \<Rightarrow> n | Inr _ \<Rightarrow> n + 1)) (dedup cids) ([], 0))"

definition pin_status_of :: "(string \<Rightarrow> string + string list) \<Rightarrow> pin_policy \<Rightarrow> string \<Rightarrow> pin_status" where
  "pin_status_of find_service pol cid =
     (let holders = (case find_service (pin_service cid) of Inl _ \<Rightarrow> [] | Inr hs \<Rightarrow> hs) in
      \<lparr>ps_cid = cid, ps_holders = holders, ps_satisfied = (length holders \<ge> unat (max (pp_replication pol) 1))\<rparr>)"

definition status_all :: "(string \<Rightarrow> string + string list) \<Rightarrow> pin_policy \<Rightarrow> string list \<Rightarrow> pin_status list" where
  "status_all find_service pol cids = map (pin_status_of find_service pol) (dedup cids)"

section \<open>Lemmas\<close>

lemma dedup_from_set: "set (dedup_from S cs) = set cs - fset S"
  by (induction cs arbitrary: S) auto

lemma dedup_from_distinct: "distinct (dedup_from S cs)"
  by (induction cs arbitrary: S) (auto simp: dedup_from_set)

lemma dedup_simps [simp]: "set (dedup cs) = set cs" "distinct (dedup cs)"
  by (simp_all add: dedup_def dedup_from_set dedup_from_distinct)

lemma fold_announce:
  "fold (\<lambda>cid (sent, n). (sent @ [f cid], case adv (f cid) of Inl _ \<Rightarrow> n | Inr _ \<Rightarrow> n + 1)) cs (sent, n)
    = (sent @ map f cs, n + length (filter (\<lambda>c. \<not> isl (adv (f c))) cs))"
  by (induction cs arbitrary: sent n) (auto split: sum.split)

section \<open>Properties\<close>

text \<open>
  The audit view is exact and follows the chain: issuing a grant, journaling it and rendering with the
  revoked set of the chain gives an entry for that grant with its scope and ability, marked revoked just
  when its revocation address is in the set, and expired just when it has an expiry that has passed.
\<close>

theorem audited_grant_status:
  "let r = from_grant issuer at g is_link; es = render_audit (Inr revoked) (record_grant r j) now in
   length es = length (aj_grants j) + 1 \<and> gc_scope (ae_record (last es)) = gr_scope g \<and>
   gc_ability (ae_record (last es)) = gr_ability g \<and>
   (ae_revoked (last es) \<longleftrightarrow> (issuer, gr_revoke_nonce g) \<in> set revoked) \<and>
   (ae_expired (last es) \<longleftrightarrow> gr_expires g \<noteq> 0 \<and> gr_expires g < now) \<and>
   butlast es = render_audit (Inr revoked) j now"
  by (auto simp: Let_def render_audit_def record_grant_def from_grant_def list_ex_iff butlast_append)

text \<open>
  When the chain cannot be asked, the failure is replaced by an empty revoked set and every grant shows as
  not revoked, whatever the journal says.
\<close>

theorem offline_audit_shows_nothing_revoked:
  "list_all (\<lambda>e. \<not> ae_revoked e) (render_audit (Inl err) j now)"
  by (simp add: render_audit_def list_all_iff)

text \<open>
  Announcing is idempotent on repeated content: with announcing on, each distinct content id is
  advertised exactly once, and the count is the number of distinct ids whose advertisement succeeded; with
  it off nothing is sent.
\<close>

theorem announced_once:
  "if pp_announce pol
   then distinct (fst (announce_all adv pol cids)) \<and> set (fst (announce_all adv pol cids)) = pin_service ` set cids \<and>
     snd (announce_all adv pol cids) = card {c \<in> set cids. \<not> isl (adv (pin_service c))}
   else announce_all adv pol cids = ([], 0)"
proof -
  have inj: "inj pin_service" by (simp add: inj_def pin_service_def)
  have "length (filter P (dedup cids)) = card {c \<in> set cids. P c}" for P
    using distinct_card [of "filter P (dedup cids)"] by simp
  then show ?thesis
    using inj by (auto simp: announce_all_def fold_announce distinct_map intro: inj_on_subset)
qed

end
