(* ===== verification/Materialize.thy ===== *)
theory Materialize
  imports DirWalk
begin

text \<open>
  The directory mirror, \<open>crates/ce-drive-mount/src/materialize.rs\<close>: \<open>materialize\<close> writes a drive into a
  local directory, \<open>push\<close> brings the changes of that directory back into the drive. The disk is explicit;
  the block store and the attributes of a file on disk are parameters.
\<close>

section \<open>The local disk\<close>

text \<open>
  A disk without symbolic links: what exists, by the components of its absolute path. The root always
  exists. Joining a name to a path is \<open>Path::join\<close> followed by the resolution of the operating system: an
  absolute name replaces the path, empty components and \<open>.\<close> stay, \<open>..\<close> goes up.
\<close>

datatype disk_node = DiskDir | DiskFile blob

type_synonym os_path = "string list"
type_synonym disk = "(os_path, disk_node) fmap"

datatype os_error = AlreadyThere | NoEntry | NotDirectory | IsDirectory

definition disk_at :: "disk \<Rightarrow> os_path \<Rightarrow> disk_node option" where
  "disk_at disk p = (if p = [] then Some DiskDir else fmlookup disk p)"

fun os_push :: "os_path \<Rightarrow> string list \<Rightarrow> os_path" where
  "os_push p [] = p"
| "os_push p (c # cs) =
     os_push (if c = [] \<or> c = ''.'' then p else if c = ''..'' then butlast p else p @ [c]) cs"

definition os_join :: "os_path \<Rightarrow> string \<Rightarrow> os_path" where
  "os_join p name = os_push (if starts_with name ''/'' then [] else p) (split_on (CHR ''/'') name)"

definition os_mkdir :: "disk \<Rightarrow> os_path \<Rightarrow> os_error + disk" where
  "os_mkdir disk p =
     (case disk_at disk (butlast p) of
        None \<Rightarrow> Inl NoEntry
      | Some (DiskFile _) \<Rightarrow> Inl NotDirectory
      | Some DiskDir \<Rightarrow> if disk_at disk p = None then Inr (fmupd p DiskDir disk) else Inl AlreadyThere)"

text \<open>\<open>std::fs::create_dir_all\<close>: make the directory, and its parents first when they are missing.\<close>

function create_dir_all :: "disk \<Rightarrow> os_path \<Rightarrow> disk \<times> (os_error + unit)" where
  "create_dir_all disk p =
     (if p = [] then (disk, Inr ())
      else
        (case os_mkdir disk p of
           Inr disk1 \<Rightarrow> (disk1, Inr ())
         | Inl NoEntry \<Rightarrow>
             (case create_dir_all disk (butlast p) of
                (disk1, Inl e) \<Rightarrow> (disk1, Inl e)
              | (disk1, Inr _) \<Rightarrow>
                  (case os_mkdir disk1 p of
                     Inr disk2 \<Rightarrow> (disk2, Inr ())
                   | Inl e \<Rightarrow> (disk1, if disk_at disk1 p = Some DiskDir then Inr () else Inl e)))
         | Inl e \<Rightarrow> (disk, if disk_at disk p = Some DiskDir then Inr () else Inl e)))"
  by pat_completeness auto
termination by (relation "measure (\<lambda>(disk, p). length p)") auto

declare create_dir_all.simps [simp del]

definition os_write :: "disk \<Rightarrow> os_path \<Rightarrow> blob \<Rightarrow> os_error + disk" where
  "os_write disk p bytes =
     (if disk_at disk p = Some DiskDir then Inl IsDirectory
      else
        (case disk_at disk (butlast p) of
           None \<Rightarrow> Inl NoEntry
         | Some (DiskFile _) \<Rightarrow> Inl NotDirectory
         | Some DiskDir \<Rightarrow> Inr (fmupd p (DiskFile bytes) disk)))"

text \<open>The names in a directory, sorted.\<close>

definition read_dir :: "disk \<Rightarrow> os_path \<Rightarrow> string list" where
  "read_dir disk p = sorted_list_of_fset (last |`| ffilter (\<lambda>q. q \<noteq> [] \<and> butlast q = p) (fmdom disk))"

section \<open>Loops that may fail\<close>

text \<open>
  A \<open>for\<close> loop whose body threads a state and may stop with an error, the state reached so far being kept;
  \<open>None\<close> is a recursion that ran out of fuel.
\<close>

fun try_each :: "('a \<Rightarrow> 's \<Rightarrow> ('s \<times> ('e + unit)) option) \<Rightarrow> 'a list \<Rightarrow> 's \<Rightarrow> ('s \<times> ('e + unit)) option" where
  "try_each f [] s = Some (s, Inr ())"
| "try_each f (x # xs) s = (case f x s of Some (s1, Inr _) \<Rightarrow> try_each f xs s1 | stop \<Rightarrow> stop)"

section \<open>Writing a drive to disk\<close>

datatype mirror_error =
    ListFailed drive_error
  | MkdirFailed os_path os_error
  | FetchFailed string string
  | WriteFailed os_path os_error
  | ReadDirFailed os_path
  | PutFailed string
  | DriveFailed drive_error

record mirror =
  mi_disk :: disk
  mi_files :: nat
  mi_dirs :: nat
  mi_bytes :: u64

definition join_path :: "string \<Rightarrow> string \<Rightarrow> string" where
  "join_path dir name =
     (if dir = ''/'' then ''/'' @ name else trim_end_matches (CHR ''/'') dir @ ''/'' @ name)"

definition file_bytes :: "(string \<Rightarrow> string + blob) \<Rightarrow> file_content \<Rightarrow> string + blob" where
  "file_bytes get_object content = (if fc_cid content = [] then Inr [] else get_object (fc_cid content))"

definition mirror_mkdir :: "os_path \<Rightarrow> mirror \<Rightarrow> mirror \<times> (mirror_error + unit)" where
  "mirror_mkdir target mi =
     (case create_dir_all (mi_disk mi) target of
        (disk1, Inl e) \<Rightarrow> (mi\<lparr>mi_disk := disk1\<rparr>, Inl (MkdirFailed target e))
      | (disk1, Inr _) \<Rightarrow> (mi\<lparr>mi_disk := disk1, mi_dirs := mi_dirs mi + 1\<rparr>, Inr ()))"

definition mirror_file ::
    "(string \<Rightarrow> string + blob) \<Rightarrow> os_path \<Rightarrow> dir_entry \<Rightarrow> mirror \<Rightarrow> mirror \<times> (mirror_error + unit)" where
  "mirror_file get_object target e mi =
     (case de_content e of
        None \<Rightarrow> (mi, Inr ())
      | Some content \<Rightarrow>
          (case file_bytes get_object content of
             Inl err \<Rightarrow> (mi, Inl (FetchFailed (de_name e) err))
           | Inr bytes \<Rightarrow>
               (case os_write (mi_disk mi) target bytes of
                  Inl err \<Rightarrow> (mi, Inl (WriteFailed target err))
                | Inr disk1 \<Rightarrow>
                    (mi\<lparr>mi_disk := disk1, mi_files := mi_files mi + 1,
                        mi_bytes := mi_bytes mi + of_nat (length bytes)\<rparr>, Inr ()))))"

fun materialize_dir ::
    "nat \<Rightarrow> drive \<Rightarrow> (string \<Rightarrow> string + blob) \<Rightarrow> string \<Rightarrow> os_path \<Rightarrow> mirror \<Rightarrow> (mirror \<times> (mirror_error + unit)) option" where
  "materialize_dir 0 d get_object p out mi = None"
| "materialize_dir (Suc k) d get_object p out mi =
     (case ls d p of
        Inl e \<Rightarrow> Some (mi, Inl (ListFailed e))
      | Inr entries \<Rightarrow>
          try_each (\<lambda>e mi.
            let target = os_join out (de_name e) in
            if de_is_dir e then
              (case mirror_mkdir target mi of
                 (mi1, Inl err) \<Rightarrow> Some (mi1, Inl err)
               | (mi1, Inr _) \<Rightarrow> materialize_dir k d get_object (join_path p (de_name e)) target mi1)
            else Some (mirror_file get_object target e mi)) entries mi)"

definition materialize ::
    "drive \<Rightarrow> (string \<Rightarrow> string + blob) \<Rightarrow> os_path \<Rightarrow> disk \<Rightarrow> (mirror \<times> (mirror_error + unit)) option" where
  "materialize d get_object out disk =
     (case create_dir_all disk out of
        (disk1, Inl e) \<Rightarrow> Some (\<lparr>mi_disk = disk1, mi_files = 0, mi_dirs = 0, mi_bytes = 0\<rparr>, Inl (MkdirFailed out e))
      | (disk1, Inr _) \<Rightarrow>
          materialize_dir (Suc (Suc (fcard (fmdom (edges_of d))))) d get_object ''/'' out
            \<lparr>mi_disk = disk1, mi_files = 0, mi_dirs = 0, mi_bytes = 0\<rparr>)"

section \<open>Bringing changes back\<close>

text \<open>
  \<open>ps_ctr\<close> is the process counter of fresh node ids; \<open>put_bytes\<close> is the block store's, \<open>stat\<close> the mode and
  modification time of a file on disk.
\<close>

record 's pushing =
  ps_drive :: drive
  ps_store :: 's
  ps_ctr :: u64
  ps_changed :: nat
  ps_removed :: nat
  ps_uploaded :: nat

type_synonym 's put_bytes = "blob \<Rightarrow> u32 \<Rightarrow> u64 \<Rightarrow> 's \<Rightarrow> 's \<times> (string + file_content \<times> nat)"
type_synonym stat = "os_path \<Rightarrow> u32 \<times> u64"

definition push_mkdir :: "string \<Rightarrow> string \<Rightarrow> 's pushing \<Rightarrow> 's pushing \<times> (mirror_error + unit)" where
  "push_mkdir parent name st =
     (case mkdir (ps_drive st) (ps_ctr st) parent name of
        Inl e \<Rightarrow> (st, Inl (DriveFailed e))
      | Inr (_, d1) \<Rightarrow> (st\<lparr>ps_drive := d1, ps_ctr := ps_ctr st + 1\<rparr>, Inr ()))"

fun ensure_components :: "string \<Rightarrow> string list \<Rightarrow> 's pushing \<Rightarrow> 's pushing \<times> (mirror_error + unit)" where
  "ensure_components cur [] st = (st, Inr ())"
| "ensure_components cur (c # cs) st =
     (if resolve (d_tree (ps_drive st)) (join_path cur c) = None then
        (case push_mkdir cur c st of
           (st1, Inl e) \<Rightarrow> (st1, Inl e)
         | (st1, Inr _) \<Rightarrow> ensure_components (join_path cur c) cs st1)
      else ensure_components (join_path cur c) cs st)"

definition ensure_dir_path :: "string \<Rightarrow> 's pushing \<Rightarrow> 's pushing \<times> (mirror_error + unit)" where
  "ensure_dir_path dir st =
     (if dir = ''/'' \<or> resolve (d_tree (ps_drive st)) dir \<noteq> None then (st, Inr ())
      else ensure_components ''/'' (filter (\<lambda>c. c \<noteq> []) (split_on (CHR ''/'') (trim_matches (CHR ''/'') dir))) st)"

definition ensure_dir :: "string \<Rightarrow> string \<Rightarrow> 's pushing \<Rightarrow> 's pushing \<times> (mirror_error + unit)" where
  "ensure_dir parent name st =
     (if resolve (d_tree (ps_drive st)) (join_path parent name) = None then
        (case ensure_dir_path parent st of
           (st1, Inl e) \<Rightarrow> (st1, Inl e)
         | (st1, Inr _) \<Rightarrow> push_mkdir parent name st1)
      else (st, Inr ()))"

definition push_file ::
    "'s put_bytes \<Rightarrow> u32 \<times> u64 \<Rightarrow> string \<Rightarrow> string \<Rightarrow> blob \<Rightarrow> 's pushing \<Rightarrow> 's pushing \<times> (mirror_error + unit)" where
  "push_file put_bytes meta drive_path name bytes st =
     (let existing_cid =
            (case resolve (d_tree (ps_drive st)) (join_path drive_path name) of
               None \<Rightarrow> None
             | Some i \<Rightarrow> map_option fc_cid (content_get (d_content (ps_drive st)) i)) in
      (case put_bytes bytes (fst meta) (snd meta) (ps_store st) of
         (s1, Inl e) \<Rightarrow> (st\<lparr>ps_store := s1\<rparr>, Inl (PutFailed e))
       | (s1, Inr (content, uploaded)) \<Rightarrow>
           if existing_cid = Some (fc_cid content) then (st\<lparr>ps_store := s1\<rparr>, Inr ())
           else
             (case ensure_dir_path drive_path (st\<lparr>ps_store := s1\<rparr>) of
                (st1, Inl e) \<Rightarrow> (st1, Inl e)
              | (st1, Inr _) \<Rightarrow>
                  (case add_file (ps_drive st1) (ps_ctr st1) drive_path name content of
                     Inl e \<Rightarrow> (st1, Inl (DriveFailed e))
                   | Inr (_, d1) \<Rightarrow>
                       (st1\<lparr>ps_drive := d1, ps_ctr := ps_ctr st1 + 1, ps_changed := ps_changed st1 + 1,
                            ps_uploaded := ps_uploaded st1 + uploaded\<rparr>, Inr ())))))"

fun push_dir ::
    "nat \<Rightarrow> 's put_bytes \<Rightarrow> stat \<Rightarrow> disk \<Rightarrow> os_path \<Rightarrow> string \<Rightarrow> 's pushing \<Rightarrow>
     ('s pushing \<times> (mirror_error + unit)) option" where
  "push_dir 0 put_bytes stat disk disk_dir drive_path st = None"
| "push_dir (Suc k) put_bytes stat disk disk_dir drive_path st =
     (if disk_at disk disk_dir \<noteq> Some DiskDir then Some (st, Inl (ReadDirFailed disk_dir))
      else
        try_each (\<lambda>name st.
          case disk_at disk (disk_dir @ [name]) of
            Some DiskDir \<Rightarrow>
              (case ensure_dir drive_path name st of
                 (st1, Inl e) \<Rightarrow> Some (st1, Inl e)
               | (st1, Inr _) \<Rightarrow>
                   push_dir k put_bytes stat disk (disk_dir @ [name]) (join_path drive_path name) st1)
          | Some (DiskFile bytes) \<Rightarrow>
              Some (push_file put_bytes (stat (disk_dir @ [name])) drive_path name bytes st)
          | None \<Rightarrow> Some (st, Inr ())) (read_dir disk disk_dir) st)"

fun collect_disk_paths :: "nat \<Rightarrow> disk \<Rightarrow> os_path \<Rightarrow> string \<Rightarrow> string fset \<Rightarrow> (string fset \<times> (mirror_error + unit)) option" where
  "collect_disk_paths 0 disk src drive_path out = None"
| "collect_disk_paths (Suc k) disk src drive_path out =
     (case disk_at disk src of
        None \<Rightarrow> Some (out, Inr ())
      | Some (DiskFile _) \<Rightarrow> Some (out, Inl (ReadDirFailed src))
      | Some DiskDir \<Rightarrow>
          try_each (\<lambda>name out.
            case disk_at disk (src @ [name]) of
              Some DiskDir \<Rightarrow> collect_disk_paths k disk (src @ [name]) (join_path drive_path name) out
            | Some (DiskFile _) \<Rightarrow> Some (finsert (join_path drive_path name) out, Inr ())
            | None \<Rightarrow> Some (out, Inr ())) (read_dir disk src) out)"

fun drive_file_paths :: "nat \<Rightarrow> drive \<Rightarrow> string \<Rightarrow> string list \<Rightarrow> string list option" where
  "drive_file_paths 0 d p out = None"
| "drive_file_paths (Suc k) d p out =
     (case ls d p of
        Inl _ \<Rightarrow> Some out
      | Inr entries \<Rightarrow>
          each (\<lambda>e out.
            if de_is_dir e then drive_file_paths k d (join_path p (de_name e)) out
            else Some (out @ [join_path p (de_name e)])) entries out)"

text \<open>The last loop of \<open>push\<close>: trash the files of the drive that are not on disk.\<close>

fun trash_missing :: "string fset \<Rightarrow> string list \<Rightarrow> 's pushing \<Rightarrow> 's pushing \<times> (mirror_error + unit)" where
  "trash_missing on_disk [] st = (st, Inr ())"
| "trash_missing on_disk (p # ps) st =
     (if p |\<in>| on_disk then trash_missing on_disk ps st
      else
        (case rm (ps_drive st) p of
           Inl e \<Rightarrow> (st, Inl (DriveFailed e))
         | Inr d1 \<Rightarrow> trash_missing on_disk ps (st\<lparr>ps_drive := d1, ps_removed := ps_removed st + 1\<rparr>)))"

text \<open>
  The recursions over the disk go one level down the disk, those over the drive one level down the tree:
  the fuel is above both depths.
\<close>

definition push_src ::
    "'s put_bytes \<Rightarrow> stat \<Rightarrow> disk \<Rightarrow> os_path \<Rightarrow> 's pushing \<Rightarrow> ('s pushing \<times> (mirror_error + unit)) option" where
  "push_src put_bytes stat disk src st =
     (let deep = Suc (Suc (fcard (fmdom disk))) in
      (case collect_disk_paths deep disk src ''/'' {||} of
         None \<Rightarrow> None
       | Some (_, Inl e) \<Rightarrow> Some (st, Inl e)
       | Some (on_disk, Inr _) \<Rightarrow>
           (case push_dir deep put_bytes stat disk src ''/'' st of
              Some (st1, Inr _) \<Rightarrow>
                (case drive_file_paths (Suc (Suc (fcard (fmdom (edges_of (ps_drive st1)))))) (ps_drive st1) ''/'' [] of
                   None \<Rightarrow> None
                 | Some files \<Rightarrow> Some (trash_missing on_disk files st1))
            | stop \<Rightarrow> stop)))"

definition push_report :: "drive \<Rightarrow> u64 \<Rightarrow> 's \<Rightarrow> 's pushing" where
  "push_report d ctr s = \<lparr>ps_drive = d, ps_store = s, ps_ctr = ctr, ps_changed = 0, ps_removed = 0, ps_uploaded = 0\<rparr>"

definition push_drive ::
    "'s put_bytes \<Rightarrow> stat \<Rightarrow> disk \<Rightarrow> os_path \<Rightarrow> u64 \<Rightarrow> drive \<Rightarrow> 's \<Rightarrow> ('s pushing \<times> (mirror_error + unit)) option" where
  "push_drive put_bytes stat disk src ctr d s = push_src put_bytes stat disk src (push_report d ctr s)"

end
