(* ===== verification/MaterializeProps.thy ===== *)
theory MaterializeProps
  imports Materialize SearchProps
begin

text \<open>
  What the directory mirror guarantees: materializing writes exactly the tree and touches nothing outside
  the target, pushing a mirror that nobody changed changes nothing, and what goes wrong with nodes whose
  name or content is not what the code expects.
\<close>

section \<open>Paths on both sides\<close>

lemma join_path_str:
  assumes "\<forall>x \<in> set ns. clean_name x"
  shows "join_path (path_str ns) m = path_str (ns @ [m])"
proof (cases "ns = []")
  case False
  have "trim_end_matches (CHR ''/'') (path_str ns) = path_str ns"
    using path_str_last [OF False assms]
    by (cases "path_str ns" rule: rev_cases) (simp_all add: trim_end_matches_def)
  then show ?thesis
    using False path_str_root [OF assms] by (simp add: join_path_def path_str_snoc)
qed (simp add: join_path_def path_str_def)

definition portable_name :: "string \<Rightarrow> bool" where
  "portable_name m \<longleftrightarrow> clean_name m \<and> m \<noteq> ''.'' \<and> m \<noteq> ''..''"

lemma os_join_plain: "portable_name m \<Longrightarrow> os_join p m = p @ [m]"
  using split_on_join [of "[m]" "CHR ''/''"]
  by (cases m) (auto simp: portable_name_def clean_name_def os_join_def starts_with_iff)

lemma node_at_unique: "walkable d \<Longrightarrow> node_at d n ns \<Longrightarrow> node_at d n' ns \<Longrightarrow> n = n'"
  using node_at_resolve [of d n ns] node_at_resolve [of d n' ns] by simp

section \<open>The disk\<close>

lemma disk_at_upd [simp]: "p \<noteq> [] \<Longrightarrow> disk_at (fmupd p x disk) q = (if q = p then Some x else disk_at disk q)"
  by (auto simp: disk_at_def)

lemma create_dir_all_dir: "create_dir_all disk p = (disk1, Inr ()) \<Longrightarrow> disk_at disk1 p = Some DiskDir"
proof (induction disk p arbitrary: disk1 rule: create_dir_all.induct)
  case (1 disk p)
  from 1(2) show ?case
    by (subst (asm) create_dir_all.simps)
      (auto simp: os_mkdir_def disk_at_def split: if_splits sum.splits os_error.splits prod.splits option.splits disk_node.splits)
qed

text \<open>Below an existing directory a directory is made, or is there already, without touching anything else.\<close>

lemma create_dir_below:
  assumes "disk_at disk p = Some DiskDir" and "disk_at disk (p @ [m]) \<in> {None, Some DiskDir}"
  shows "create_dir_all disk (p @ [m]) =
    (if disk_at disk (p @ [m]) = None then fmupd (p @ [m]) DiskDir disk else disk, Inr ())"
  using assms by (subst create_dir_all.simps) (auto simp: os_mkdir_def)

lemma mem_read_dir: "m \<in> set (read_dir disk p) \<longleftrightarrow> disk_at disk (p @ [m]) \<noteq> None"
proof -
  have "m \<in> set (read_dir disk p) \<longleftrightarrow> (\<exists>q. fmlookup disk q \<noteq> None \<and> q \<noteq> [] \<and> butlast q = p \<and> m = last q)"
    by (auto simp: read_dir_def fmlookup_dom_iff)
  also have "\<dots> \<longleftrightarrow> fmlookup disk (p @ [m]) \<noteq> None"
    by (metis append_butlast_last_id butlast_snoc last_snoc snoc_eq_iff_butlast)
  finally show ?thesis by (simp add: disk_at_def)
qed

text \<open>A loop whose body always succeeds succeeds, and what each round achieves is kept by the later ones.\<close>

lemma try_each_all:
  assumes "P s"
    and "\<And>x s. x \<in> set xs \<Longrightarrow> P s \<Longrightarrow> \<exists>s1. f x s = Some (s1, Inr ()) \<and> P s1 \<and> R s s1 \<and> Q x s1"
    and "\<And>s. R s s" and "\<And>s s1 s2. R s s1 \<Longrightarrow> R s1 s2 \<Longrightarrow> R s s2"
    and "\<And>x s s1. Q x s \<Longrightarrow> R s s1 \<Longrightarrow> Q x s1"
  shows "\<exists>s1. try_each f xs s = Some (s1, Inr ()) \<and> P s1 \<and> R s s1 \<and> (\<forall>x \<in> set xs. Q x s1)"
  using assms(1,2)
proof (induction xs arbitrary: s)
  case Nil
  then show ?case using assms(3) by simp
next
  case (Cons x xs)
  obtain s1 where s1: "f x s = Some (s1, Inr ())" "P s1" "R s s1" "Q x s1"
    using Cons.prems(2) [of x s] Cons.prems(1) by auto
  obtain s2 where s2: "try_each f xs s1 = Some (s2, Inr ())" "P s2" "R s1 s2" "\<forall>y \<in> set xs. Q y s2"
    using Cons.IH [OF s1(2)] Cons.prems(2) by auto
  have "R s s2" and "Q x s2"
    using assms(4) [OF s1(3) s2(3)] assms(5) [OF s1(4) s2(3)] .
  with s1(1) s2 show ?case by auto
qed

section \<open>Materializing\<close>

text \<open>What a node looks like on disk: a directory, the bytes of its content, or nothing without content.\<close>

definition node_image :: "(string \<Rightarrow> string + blob) \<Rightarrow> drive \<Rightarrow> node_id \<Rightarrow> disk_node option" where
  "node_image get d n =
     (if kind_of (d_tree d) n = Dir then Some DiskDir
      else (case content_get (d_content d) n of
              None \<Rightarrow> None
            | Some co \<Rightarrow> (case file_bytes get co of Inl _ \<Rightarrow> None | Inr b \<Rightarrow> Some (DiskFile b))))"

text \<open>The drives and stores for which the mirror is exact.\<close>

definition mirrorable :: "(string \<Rightarrow> string + blob) \<Rightarrow> drive \<Rightarrow> bool" where
  "mirrorable get d \<longleftrightarrow> walkable d \<and> parents_are_dirs (d_tree d) \<and>
     (\<forall>c e. tree_edge (d_tree d) c = Some e \<longrightarrow> portable_name (e_name e)) \<and>
     (\<forall>n co. content_get (d_content d) n = Some co \<longrightarrow> \<not> isl (file_bytes get co))"

lemma mirrorableD:
  assumes "mirrorable get d"
  shows "walkable d" "parents_are_dirs (d_tree d)"
    "content_get (d_content d) n = Some co \<Longrightarrow> \<exists>b. file_bytes get co = Inr b"
  using assms by (auto simp: mirrorable_def isl_def) (metis isl_def obj_sumE)

lemma node_at_edge: "node_at d c (ns @ [m]) \<Longrightarrow> \<exists>e. tree_edge (d_tree d) c = Some e \<and> e_name e = m"
  by (erule node_at_snocD) (auto simp: tree_edge_def)

lemma node_at_portable: "mirrorable get d \<Longrightarrow> node_at d c (ns @ [m]) \<Longrightarrow> portable_name m"
  using node_at_edge [of d c ns m] by (auto simp: mirrorable_def)

lemma node_at_dir: "node_at d c (ns @ [m]) \<Longrightarrow> is_dir (d_tree d) c \<longleftrightarrow> c = ROOT \<or> kind_of (d_tree d) c = Dir"
  using node_at_edge [of d c ns m] by (auto simp: is_dir_def kind_of_def)

text \<open>A node below another one has a directory above it.\<close>

lemma node_below_dir:
  assumes "mirrorable get d" and "node_at d b (ns @ [m])" and "node_at d c (ns @ m # m' # ms)"
  shows "kind_of (d_tree d) b = Dir"
proof -
  obtain b' where "node_at d b' (ns @ [m])" and "kind_of (d_tree d) b' = Dir"
    using node_at_prefix_dir [OF mirrorableD(2) [OF assms(1)] assms(3) _ mirrorableD(1) [OF assms(1)]] by blast
  then show ?thesis
    using node_at_unique [OF mirrorableD(1) [OF assms(1)] assms(2)] by metis
qed

text \<open>
  A mirror in progress: outside the target nothing changed, below it every entry is the image of the node
  at that place.
\<close>

definition mirror_inv :: "(string \<Rightarrow> string + blob) \<Rightarrow> drive \<Rightarrow> os_path \<Rightarrow> disk \<Rightarrow> mirror \<Rightarrow> bool" where
  "mirror_inv get d out disk0 mi \<longleftrightarrow>
     (\<forall>q. (\<forall>ns. ns \<noteq> [] \<longrightarrow> q \<noteq> out @ ns) \<longrightarrow> disk_at (mi_disk mi) q = disk_at disk0 q) \<and>
     (\<forall>ns. ns \<noteq> [] \<longrightarrow> disk_at (mi_disk mi) (out @ ns) = None \<or>
        (\<exists>n. node_at d n ns \<and> disk_at (mi_disk mi) (out @ ns) = node_image get d n))"

definition grown :: "mirror \<Rightarrow> mirror \<Rightarrow> bool" where
  "grown mi mi1 \<longleftrightarrow> (\<forall>q x. disk_at (mi_disk mi) q = Some x \<longrightarrow> disk_at (mi_disk mi1) q = Some x)"

lemma grown_refl: "grown mi mi"
  and grown_trans: "grown mi mi1 \<Longrightarrow> grown mi1 mi2 \<Longrightarrow> grown mi mi2"
  by (simp_all add: grown_def)

text \<open>What is at a node's place is its image or nothing yet.\<close>

lemma mirror_inv_at:
  assumes "mirrorable get d" and "mirror_inv get d out disk0 mi" and "node_at d c ns" and "ns \<noteq> []"
  shows "disk_at (mi_disk mi) (out @ ns) \<in> {None, node_image get d c}"
  using assms(2,4) node_at_unique [OF mirrorableD(1) [OF assms(1)] assms(3)] unfolding mirror_inv_def by blast

lemma mirror_inv_put:
  assumes "mirrorable get d" and inv: "mirror_inv get d out disk0 mi" and "node_at d c ns" and "ns \<noteq> []"
    and "node_image get d c = Some x" and "mi_disk mi1 = fmupd (out @ ns) x (mi_disk mi)"
  shows "mirror_inv get d out disk0 mi1 \<and> grown mi mi1 \<and> disk_at (mi_disk mi1) (out @ ns) = Some x"
proof -
  have at: "disk_at (mi_disk mi) (out @ ns) \<in> {None, Some x}"
    using mirror_inv_at [OF assms(1,2,3,4)] assms(5) by simp
  have upd: "disk_at (mi_disk mi1) q = (if q = out @ ns then Some x else disk_at (mi_disk mi) q)" for q
    using assms(4,6) by simp
  have "grown mi mi1"
    using at by (auto simp: grown_def upd)
  moreover have "mirror_inv get d out disk0 mi1"
    using inv assms(3,4,5) unfolding mirror_inv_def upd by auto
  ultimately show ?thesis
    using upd by simp
qed

text \<open>A round of the loop, for a directory and for a file.\<close>

lemma mirror_mkdir_ok:
  assumes "mirrorable get d" and "mirror_inv get d out disk0 mi" and "node_at d c (ns @ [m])"
    and "disk_at (mi_disk mi) (out @ ns) = Some DiskDir" and "kind_of (d_tree d) c = Dir"
  shows "\<exists>mi1. mirror_mkdir (out @ ns @ [m]) mi = (mi1, Inr ()) \<and> mirror_inv get d out disk0 mi1 \<and>
    grown mi mi1 \<and> disk_at (mi_disk mi1) (out @ ns @ [m]) = Some DiskDir"
proof -
  have image: "node_image get d c = Some DiskDir"
    using assms(5) by (simp add: node_image_def)
  have at: "disk_at (mi_disk mi) ((out @ ns) @ [m]) \<in> {None, Some DiskDir}"
    using mirror_inv_at [OF assms(1-3)] image by simp
  note made = create_dir_below [OF assms(4) at]
  show ?thesis
  proof (cases "disk_at (mi_disk mi) ((out @ ns) @ [m]) = None")
    case True
    then show ?thesis
      using made mirror_inv_put [OF assms(1-3) _ image] by (simp add: mirror_mkdir_def)
  next
    case False
    then show ?thesis
      using made at assms(2) by (auto simp: mirror_mkdir_def mirror_inv_def grown_def)
  qed
qed

lemma mirror_file_ok:
  assumes "mirrorable get d" and "mirror_inv get d out disk0 mi" and "node_at d c (ns @ [m])"
    and "disk_at (mi_disk mi) (out @ ns) = Some DiskDir" and "kind_of (d_tree d) c \<noteq> Dir"
    and "de_content e = content_get (d_content d) c"
  shows "\<exists>mi1. mirror_file get (out @ ns @ [m]) e mi = (mi1, Inr ()) \<and> mirror_inv get d out disk0 mi1 \<and>
    grown mi mi1 \<and> (\<forall>x. node_image get d c = Some x \<longrightarrow> disk_at (mi_disk mi1) (out @ ns @ [m]) = Some x)"
proof (cases "content_get (d_content d) c")
  case None
  then show ?thesis
    using assms(2,5,6) by (simp add: mirror_file_def node_image_def grown_refl)
next
  case (Some co)
  then obtain b where b: "file_bytes get co = Inr b"
    using mirrorableD(3) [OF assms(1)] by blast
  have image: "node_image get d c = Some (DiskFile b)"
    using assms(5) Some b by (simp add: node_image_def)
  have "disk_at (mi_disk mi) (out @ ns @ [m]) \<noteq> Some DiskDir"
    using mirror_inv_at [OF assms(1-3)] image by auto
  then have "os_write (mi_disk mi) (out @ ns @ [m]) b = Inr (fmupd (out @ ns @ [m]) (DiskFile b) (mi_disk mi))"
    using assms(4) by (simp add: os_write_def butlast_append)
  then show ?thesis
    using mirror_inv_put [OF assms(1-3) _ image] Some b assms(6) image by (simp add: mirror_file_def)
qed

text \<open>The image of a node, or of one below it, is on disk.\<close>

definition shown_below :: "(string \<Rightarrow> string + blob) \<Rightarrow> drive \<Rightarrow> os_path \<Rightarrow> string list \<Rightarrow> string \<Rightarrow> mirror \<Rightarrow> bool" where
  "shown_below get d out ns m mi \<longleftrightarrow>
     (\<forall>c ms x. node_at d c (ns @ m # ms) \<longrightarrow> node_image get d c = Some x \<longrightarrow>
        disk_at (mi_disk mi) (out @ ns @ m # ms) = Some x)"

lemma shown_below_grown: "shown_below get d out ns m mi \<Longrightarrow> grown mi mi1 \<Longrightarrow> shown_below get d out ns m mi1"
  by (simp add: shown_below_def grown_def)

lemma shown_below_dir:
  assumes "mirrorable get d" and c: "node_at d c (ns @ [m])" and "disk_at (mi_disk mi) (out @ ns @ [m]) = node_image get d c"
    and below: "\<And>m'. shown_below get d out (ns @ [m]) m' mi"
  shows "shown_below get d out ns m mi"
  unfolding shown_below_def
proof (intro allI impI)
  fix c' ms x
  assume c': "node_at d c' (ns @ m # ms)" and x: "node_image get d c' = Some x"
  show "disk_at (mi_disk mi) (out @ ns @ m # ms) = Some x"
  proof (cases ms)
    case Nil
    then have "c' = c"
      using node_at_unique [OF mirrorableD(1) [OF assms(1)], of c' "ns @ [m]" c] c c' by simp
    then show ?thesis
      using Nil x assms(3) by simp
  next
    case (Cons m' ms')
    then show ?thesis
      using below [of m'] c' x unfolding shown_below_def by simp
  qed
qed

lemma materialize_dir_ok:
  assumes M: "mirrorable get d"
  shows "node_at d n ns \<Longrightarrow> is_dir (d_tree d) n \<Longrightarrow> disk_at (mi_disk mi) (out @ ns) = Some DiskDir \<Longrightarrow>
    mirror_inv get d out disk0 mi \<Longrightarrow> fcard (fmdom (edges_of d)) + 2 \<le> k + length ns \<Longrightarrow>
    \<exists>mi1. materialize_dir k d get (path_str ns) (out @ ns) mi = Some (mi1, Inr ()) \<and>
      mirror_inv get d out disk0 mi1 \<and> grown mi mi1 \<and> (\<forall>m. shown_below get d out ns m mi1)"
proof (induction k arbitrary: n ns mi)
  case 0
  then show ?case using node_at_length [OF 0(1)] by simp
next
  case (Suc k)
  note W = mirrorableD(1) [OF M]
  let ?P = "\<lambda>s. mirror_inv get d out disk0 s \<and> grown mi s"
  let ?f = "\<lambda>e mi. let target = os_join (out @ ns) (de_name e) in
    if de_is_dir e then
      (case mirror_mkdir target mi of (mi1, Inl err) \<Rightarrow> Some (mi1, Inl err)
       | (mi1, Inr _) \<Rightarrow> materialize_dir k d get (join_path (path_str ns) (de_name e)) target mi1)
    else Some (mirror_file get target e mi)"
  obtain es where ls: "ls d (path_str ns) = Inr es"
    using ls_at [OF W Suc.prems(1,2)] by blast
  have round: "\<exists>s1. ?f e s = Some (s1, Inr ()) \<and> ?P s1 \<and> grown s s1 \<and> shown_below get d out ns (de_name e) s1"
    if e: "e \<in> set es" and P: "?P s" for e s
  proof -
    let ?m = "de_name e" and ?c = "de_node_id e"
    note c = ls_at_entry(1) [OF W Suc.prems(1) ls e]
    have target: "os_join (out @ ns) ?m = out @ ns @ [?m]"
      using os_join_plain [OF node_at_portable [OF M c]] by simp
    have here: "disk_at (mi_disk s) (out @ ns) = Some DiskDir"
      using P Suc.prems(3) by (simp add: grown_def)
    have inv: "mirror_inv get d out disk0 s" using P ..
    have kind: "de_is_dir e \<longleftrightarrow> kind_of (d_tree d) ?c = Dir" and co: "de_content e = content_get (d_content d) ?c"
      using ls_at_entry(2,3) [OF W Suc.prems(1) ls e] .
    show ?thesis
    proof (cases "de_is_dir e")
      case True
      then have dir: "kind_of (d_tree d) ?c = Dir" using kind by simp
      obtain s1 where s1: "mirror_mkdir (out @ ns @ [?m]) s = (s1, Inr ())" "mirror_inv get d out disk0 s1" "grown s s1"
          "disk_at (mi_disk s1) (out @ ns @ [?m]) = Some DiskDir"
        using mirror_mkdir_ok [OF M inv c here dir] by blast
      have "is_dir (d_tree d) ?c"
        using node_at_dir [OF c] dir by simp
      then obtain s2 where s2: "materialize_dir k d get (path_str (ns @ [?m])) (out @ ns @ [?m]) s1 = Some (s2, Inr ())"
          "mirror_inv get d out disk0 s2" "grown s1 s2" "\<And>m'. shown_below get d out (ns @ [?m]) m' s2"
        using Suc.IH [OF c _ _ s1(2)] s1(4) Suc.prems(5) by auto
      have "disk_at (mi_disk s2) (out @ ns @ [?m]) = node_image get d ?c"
        using s1(4) s2(3) dir by (simp add: grown_def node_image_def)
      from shown_below_dir [OF M c this s2(4)] have "shown_below get d out ns ?m s2" .
      moreover have "?f e s = Some (s2, Inr ())"
        using True s1(1) s2(1) by (simp add: target join_path_str [OF node_at_clean [OF W Suc.prems(1)]])
      moreover have "grown s s2" and "grown mi s2"
        using P s1(3) s2(3) grown_trans by blast+
      ultimately show ?thesis using s2(2) by blast
    next
      case False
      then have plain: "kind_of (d_tree d) ?c \<noteq> Dir" using kind by simp
      obtain s1 where s1: "mirror_file get (out @ ns @ [?m]) e s = (s1, Inr ())" "mirror_inv get d out disk0 s1" "grown s s1"
          "\<forall>x. node_image get d ?c = Some x \<longrightarrow> disk_at (mi_disk s1) (out @ ns @ [?m]) = Some x"
        using mirror_file_ok [OF M inv c here plain co] by blast
      have "disk_at (mi_disk s1) (out @ ns @ [?m]) = node_image get d ?c"
        using mirror_inv_at [OF M s1(2) c] s1(4) by (cases "node_image get d ?c") auto
      moreover have "shown_below get d out (ns @ [?m]) m' s1" for m'
        using node_below_dir [OF M c] plain by (auto simp: shown_below_def)
      ultimately have "shown_below get d out ns ?m s1"
        by (rule shown_below_dir [OF M c])
      moreover have "grown mi s1"
        using P s1(3) grown_trans by blast
      moreover have "?f e s = Some (s1, Inr ())"
        using False s1(1) by (simp add: target)
      ultimately show ?thesis using s1(2,3) by blast
    qed
  qed
  have "\<exists>s1. try_each ?f es mi = Some (s1, Inr ()) \<and> ?P s1 \<and> grown mi s1 \<and> (\<forall>e \<in> set es. shown_below get d out ns (de_name e) s1)"
    by (rule try_each_all [of ?P mi es ?f grown "\<lambda>e s. shown_below get d out ns (de_name e) s"])
      (use Suc.prems(4) round in \<open>auto intro: grown_refl grown_trans shown_below_grown\<close>)
  then obtain s1 where s1: "try_each ?f es mi = Some (s1, Inr ())" "?P s1" "\<forall>e \<in> set es. shown_below get d out ns (de_name e) s1"
    by blast
  have "shown_below get d out ns m s1" for m
  proof (cases "\<exists>e \<in> set es. de_name e = m")
    case True
    then show ?thesis using s1(3) by blast
  next
    case False
    have "\<not> node_at d c (ns @ m # ms)" for c ms
    proof
      assume c: "node_at d c (ns @ m # ms)"
      obtain b where "node_at d b (ns @ [m])"
        using node_at_prefix [OF c] c by (cases "ms = []") auto
      from ls_at_child [OF W this mirrorableD(2) [OF M]] ls False show False
        by auto
    qed
    then show ?thesis by (simp add: shown_below_def)
  qed
  with s1(1,2) ls show ?case by simp
qed

text \<open>The target holds the drive: the images of the nodes, and nothing where there is no node.\<close>

definition mirrored :: "(string \<Rightarrow> string + blob) \<Rightarrow> drive \<Rightarrow> os_path \<Rightarrow> disk \<Rightarrow> bool" where
  "mirrored get d out disk \<longleftrightarrow> disk_at disk out = Some DiskDir \<and>
     (\<forall>n ns. ns \<noteq> [] \<longrightarrow> node_at d n ns \<longrightarrow> disk_at disk (out @ ns) = node_image get d n) \<and>
     (\<forall>ns. ns \<noteq> [] \<longrightarrow> (\<forall>n. \<not> node_at d n ns) \<longrightarrow> disk_at disk (out @ ns) = None)"

lemma materialize_ok:
  assumes M: "mirrorable get d" and start: "create_dir_all disk out = (disk0, Inr ())"
    and fresh: "\<forall>ns. ns \<noteq> [] \<longrightarrow> fmlookup disk0 (out @ ns) = None"
  shows "\<exists>mi. materialize d get out disk = Some (mi, Inr ()) \<and> mirrored get d out (mi_disk mi) \<and>
    (\<forall>q. (\<forall>ns. ns \<noteq> [] \<longrightarrow> q \<noteq> out @ ns) \<longrightarrow> disk_at (mi_disk mi) q = disk_at disk0 q)"
proof -
  let ?mi = "\<lparr>mi_disk = disk0, mi_files = 0, mi_dirs = 0, mi_bytes = 0\<rparr>"
  have dir: "disk_at disk0 out = Some DiskDir"
    by (rule create_dir_all_dir [OF start])
  have inv: "mirror_inv get d out disk0 ?mi"
    using fresh by (auto simp: mirror_inv_def disk_at_def)
  have here: "disk_at (mi_disk ?mi) (out @ []) = Some DiskDir"
    using dir by simp
  have "\<exists>mi. materialize_dir (Suc (Suc (fcard (fmdom (edges_of d))))) d get (path_str []) (out @ []) ?mi = Some (mi, Inr ()) \<and>
      mirror_inv get d out disk0 mi \<and> grown ?mi mi \<and> (\<forall>m. shown_below get d out [] m mi)"
    by (rule materialize_dir_ok [OF M _ _ here inv, of ROOT]) (simp_all add: is_dir_def)
  then obtain mi where run: "materialize_dir (Suc (Suc (fcard (fmdom (edges_of d))))) d get ''/'' out ?mi = Some (mi, Inr ())"
      and inv': "mirror_inv get d out disk0 mi" and grown: "grown ?mi mi" and shown: "\<And>m. shown_below get d out [] m mi"
    by auto
  have "disk_at (mi_disk mi) (out @ ns) = node_image get d n" if n: "node_at d n ns" and ns: "ns \<noteq> []" for n ns
  proof (cases "node_image get d n")
    case None
    then show ?thesis using mirror_inv_at [OF M inv' n ns] by auto
  next
    case (Some x)
    then show ?thesis
      using shown n ns unfolding shown_below_def by (cases ns) auto
  qed
  moreover have "disk_at (mi_disk mi) (out @ ns) = None" if "ns \<noteq> []" and "\<forall>n. \<not> node_at d n ns" for ns
    using inv' that unfolding mirror_inv_def by blast
  moreover have "disk_at (mi_disk mi) out = Some DiskDir"
    using grown dir by (simp add: grown_def)
  ultimately have "mirrored get d out (mi_disk mi)"
    by (simp add: mirrored_def)
  moreover have "materialize d get out disk = Some (mi, Inr ())"
    using run by (simp add: materialize_def start del: materialize_dir.simps)
  ultimately show ?thesis
    using inv' unfolding mirror_inv_def by blast
qed

section \<open>Pushing an untouched mirror\<close>

text \<open>
  The store knows the drive's content: storing a file's bytes again gives the id they are recorded under.
  Every file has its content.
\<close>

definition put_same :: "'s put_bytes \<Rightarrow> (string \<Rightarrow> string + blob) \<Rightarrow> drive \<Rightarrow> bool" where
  "put_same put get d \<longleftrightarrow>
     (\<forall>n co b. content_get (d_content d) n = Some co \<longrightarrow> file_bytes get co = Inr b \<longrightarrow>
        (\<forall>mode t s. \<exists>s1 co1 up. put b mode t s = (s1, Inr (co1, up)) \<and> fc_cid co1 = fc_cid co))"

definition files_filled :: "drive \<Rightarrow> bool" where
  "files_filled d \<longleftrightarrow> (\<forall>n e. tree_edge (d_tree d) n = Some e \<longrightarrow> e_kind e = File \<longrightarrow> content_get (d_content d) n \<noteq> None)"

lemma image_filled:
  assumes "mirrorable get d" and "files_filled d" and "node_at d c (ns @ [m])"
  shows "node_image get d c = Some DiskDir \<and> kind_of (d_tree d) c = Dir \<or>
    (\<exists>co b. kind_of (d_tree d) c = File \<and> content_get (d_content d) c = Some co \<and> file_bytes get co = Inr b \<and>
      node_image get d c = Some (DiskFile b))"
proof (cases "kind_of (d_tree d) c")
  case Dir
  then show ?thesis by (simp add: node_image_def)
next
  case File
  obtain e where e: "tree_edge (d_tree d) c = Some e"
    using node_at_edge [OF assms(3)] by blast
  with File have "content_get (d_content d) c \<noteq> None"
    using assms(2) by (simp add: files_filled_def kind_of_def)
  then obtain co where co: "content_get (d_content d) c = Some co"
    by blast
  then obtain b where "file_bytes get co = Inr b"
    using mirrorableD(3) [OF assms(1)] by blast
  with File co show ?thesis by (simp add: node_image_def)
qed

text \<open>The names of a mirrored directory are those of its nodes, and the disk is as deep as the tree.\<close>

lemma mirroredD:
  assumes "mirrored get d src disk"
  shows "disk_at disk src = Some DiskDir" "ns \<noteq> [] \<Longrightarrow> node_at d n ns \<Longrightarrow> disk_at disk (src @ ns) = node_image get d n"
    "ns \<noteq> [] \<Longrightarrow> disk_at disk (src @ ns) \<noteq> None \<Longrightarrow> \<exists>n. node_at d n ns"
proof -
  note M = assms [unfolded mirrored_def]
  show "disk_at disk src = Some DiskDir"
    by (rule conjunct1 [OF M])
  show "ns \<noteq> [] \<Longrightarrow> node_at d n ns \<Longrightarrow> disk_at disk (src @ ns) = node_image get d n"
    by (rule M [THEN conjunct2, THEN conjunct1, rule_format])
  show "\<exists>n. node_at d n ns" if ne: "ns \<noteq> []" and some: "disk_at disk (src @ ns) \<noteq> None"
  proof (rule ccontr)
    assume "\<nexists>n. node_at d n ns"
    then have "disk_at disk (src @ ns) = None"
      by (intro M [THEN conjunct2, THEN conjunct2, rule_format, OF ne]) blast
    with some show False ..
  qed
qed

lemma mirrored_name:
  assumes "mirrored get d src disk" and "m \<in> set (read_dir disk (src @ ns))"
  obtains c where "node_at d c (ns @ [m])" and "disk_at disk (src @ ns @ [m]) = node_image get d c"
proof -
  have some: "disk_at disk (src @ ns @ [m]) \<noteq> None"
    using assms(2) by (simp add: mem_read_dir)
  obtain c where c: "node_at d c (ns @ [m])"
    using mirroredD(3) [OF assms(1) _ some] by auto
  have "disk_at disk (src @ ns @ [m]) = node_image get d c"
    by (rule mirroredD(2) [OF assms(1) _ c]) simp
  with c show thesis by (rule that)
qed

lemma mirrored_depth:
  assumes "mirrored get d src disk" and "mirrorable get d" and "node_at d n ns" and "is_dir (d_tree d) n"
  shows "length ns \<le> fcard (fmdom disk)"
proof -
  let ?f = "\<lambda>i. src @ take (Suc i) ns"
  have in_dom: "?f i |\<in>| fmdom disk" if i: "i < length ns" for i
  proof -
    have split: "ns = take i ns @ ns ! i # drop (Suc i) ns"
      using id_take_nth_drop [OF i] .
    have "\<exists>b. node_at d b (take i ns @ [ns ! i]) \<and> kind_of (d_tree d) b = Dir"
    proof (cases "drop (Suc i) ns = []")
      case True
      have last: "node_at d n (take i ns @ [ns ! i])"
        using assms(3) by (subst (asm) split) (simp only: True)
      have "ns \<noteq> []" using i by force
      then have "n \<noteq> ROOT"
        using node_at_reserved [OF mirrorableD(1) [OF assms(2)] assms(3)] by blast
      then have "kind_of (d_tree d) n = Dir"
        using node_at_dir [OF last] assms(4) by blast
      with last show ?thesis by blast
    next
      case False
      have "node_at d n (take i ns @ ns ! i # drop (Suc i) ns)"
        using assms(3) by (subst (asm) split)
      from node_at_prefix_dir [OF mirrorableD(2) [OF assms(2)] this False mirrorableD(1) [OF assms(2)]]
      show ?thesis by blast
    qed
    then obtain b where b: "node_at d b (take (Suc i) ns)" "kind_of (d_tree d) b = Dir"
      unfolding take_Suc_conv_app_nth [OF i] by blast
    have ne: "take (Suc i) ns \<noteq> []" using i by force
    have "disk_at disk (?f i) = node_image get d b"
      by (rule mirroredD(2) [OF assms(1) ne b(1)])
    then have "disk_at disk (?f i) = Some DiskDir" using b(2) by (simp add: node_image_def)
    moreover have "?f i \<noteq> []" using ne by simp
    ultimately show ?thesis
      by (simp only: disk_at_def if_False fmdomI)
  qed
  have sub: "?f ` {..<length ns} \<subseteq> fset (fmdom disk)"
    by (rule image_subsetI) (rule in_dom, simp)
  have "inj_on ?f {..<length ns}"
  proof (rule inj_onI)
    fix i j
    assume i: "i \<in> {..<length ns}" and j: "j \<in> {..<length ns}" and "?f i = ?f j"
    then have "length (take (Suc i) ns) = length (take (Suc j) ns)" by simp
    then show "i = j" using i j by simp
  qed
  then have "card (?f ` {..<length ns}) = length ns"
    by (simp add: card_image)
  moreover have "card (?f ` {..<length ns}) \<le> fcard (fmdom disk)"
    unfolding fcard.rep_eq by (rule card_mono [OF finite_fset sub])
  ultimately show ?thesis by simp
qed

text \<open>The drive and the counters of a push that has changed nothing so far.\<close>

definition untouched :: "drive \<Rightarrow> 's pushing \<Rightarrow> bool" where
  "untouched d st \<longleftrightarrow> ps_drive st = d \<and> ps_changed st = 0 \<and> ps_removed st = 0 \<and> ps_uploaded st = 0"

lemma push_file_same:
  assumes "put_same put get d" and "untouched d st" and "resolve (d_tree d) (join_path p m) = Some c"
    and "content_get (d_content d) c = Some co" and "file_bytes get co = Inr b"
  shows "\<exists>st1. push_file put meta p m b st = (st1, Inr ()) \<and> untouched d st1"
proof -
  obtain s1 co1 up where "put b (fst meta) (snd meta) (ps_store st) = (s1, Inr (co1, up))" and "fc_cid co1 = fc_cid co"
    using assms(1,4,5) unfolding put_same_def by blast
  then show ?thesis
    using assms(2-4) by (simp add: push_file_def untouched_def)
qed

lemma push_dir_untouched:
  assumes M: "mirrorable get d" and D: "mirrored get d src disk" and F: "files_filled d" and S: "put_same put get d"
  shows "node_at d n ns \<Longrightarrow> is_dir (d_tree d) n \<Longrightarrow> disk_at disk (src @ ns) = Some DiskDir \<Longrightarrow> untouched d st \<Longrightarrow>
    fcard (fmdom disk) + 2 \<le> k + length ns \<Longrightarrow>
    \<exists>st1. push_dir k put stat disk (src @ ns) (path_str ns) st = Some (st1, Inr ()) \<and> untouched d st1"
proof (induction k arbitrary: n ns st)
  case 0
  then show ?case using mirrored_depth [OF D M 0(1,2)] by simp
next
  case (Suc k)
  note W = mirrorableD(1) [OF M]
  note join = join_path_str [OF node_at_clean [OF W Suc.prems(1)]]
  let ?f = "\<lambda>name st. case disk_at disk ((src @ ns) @ [name]) of
      Some DiskDir \<Rightarrow>
        (case ensure_dir (path_str ns) name st of
           (st1, Inl e) \<Rightarrow> Some (st1, Inl e)
         | (st1, Inr _) \<Rightarrow> push_dir k put stat disk ((src @ ns) @ [name]) (join_path (path_str ns) name) st1)
    | Some (DiskFile bytes) \<Rightarrow> Some (push_file put (stat ((src @ ns) @ [name])) (path_str ns) name bytes st)
    | None \<Rightarrow> Some (st, Inr ())"
  have round: "\<exists>st1. ?f m s = Some (st1, Inr ()) \<and> untouched d st1 \<and> True \<and> True"
    if m: "m \<in> set (read_dir disk (src @ ns))" and s: "untouched d s" for m s
  proof -
    obtain c where c: "node_at d c (ns @ [m])" and at: "disk_at disk (src @ ns @ [m]) = node_image get d c"
      by (rule mirrored_name [OF D m])
    have res: "resolve (d_tree d) (join_path (path_str ns) m) = Some c"
      unfolding join by (rule node_at_resolve [OF W c])
    from image_filled [OF M F c] show ?thesis
    proof
      assume dir: "node_image get d c = Some DiskDir \<and> kind_of (d_tree d) c = Dir"
      have "ensure_dir (path_str ns) m s = (s, Inr ())"
        using s res by (simp add: ensure_dir_def untouched_def)
      moreover have "is_dir (d_tree d) c"
        using node_at_dir [OF c] dir by simp
      with Suc.IH [OF c _ _ s] at dir Suc.prems(5)
      have "\<exists>st1. push_dir k put stat disk (src @ ns @ [m]) (path_str (ns @ [m])) s = Some (st1, Inr ()) \<and> untouched d st1"
        by simp
      ultimately show ?thesis using at dir join by simp
    next
      assume "\<exists>co b. kind_of (d_tree d) c = File \<and> content_get (d_content d) c = Some co \<and> file_bytes get co = Inr b \<and>
        node_image get d c = Some (DiskFile b)"
      then obtain co b where co: "content_get (d_content d) c = Some co" "file_bytes get co = Inr b"
        and b: "node_image get d c = Some (DiskFile b)" by blast
      from push_file_same [OF S s res co] show ?thesis using at b by simp
    qed
  qed
  have "\<exists>st1. try_each ?f (read_dir disk (src @ ns)) st = Some (st1, Inr ()) \<and> untouched d st1 \<and> True \<and>
      (\<forall>m \<in> set (read_dir disk (src @ ns)). True)"
    by (rule try_each_all [of "untouched d" st _ ?f "\<lambda>_ _. True" "\<lambda>_ _. True"])
      (use Suc.prems(4) round in simp_all)
  then show ?case using Suc.prems(3) by simp
qed

text \<open>The set of paths on disk has every file of the drive.\<close>

definition collected_below :: "drive \<Rightarrow> string list \<Rightarrow> string \<Rightarrow> string fset \<Rightarrow> bool" where
  "collected_below d ns m out \<longleftrightarrow>
     (\<forall>c ms. node_at d c (ns @ m # ms) \<longrightarrow> kind_of (d_tree d) c = File \<longrightarrow> path_str (ns @ m # ms) |\<in>| out)"

lemma collected_below_child:
  assumes M: "mirrorable get d" and c: "node_at d c (ns @ [m])"
    and here: "kind_of (d_tree d) c = File \<Longrightarrow> path_str (ns @ [m]) |\<in>| out"
    and below: "kind_of (d_tree d) c = Dir \<Longrightarrow> \<forall>m'. collected_below d (ns @ [m]) m' out"
  shows "collected_below d ns m out"
  unfolding collected_below_def
proof (intro allI impI)
  fix c' ms
  assume c': "node_at d c' (ns @ m # ms)" and plain: "kind_of (d_tree d) c' = File"
  show "path_str (ns @ m # ms) |\<in>| out"
  proof (cases ms)
    case Nil
    then have "c' = c"
      using node_at_unique [OF mirrorableD(1) [OF M], of c' "ns @ [m]" c] c c' by simp
    then show ?thesis using Nil here plain by simp
  next
    case (Cons m' ms')
    then have "node_at d c' (ns @ m # m' # ms')" using c' by simp
    from below [OF node_below_dir [OF M c this]] c' plain Cons show ?thesis
      by (simp add: collected_below_def)
  qed
qed

lemma collect_ok:
  assumes M: "mirrorable get d" and D: "mirrored get d src disk" and F: "files_filled d"
  shows "node_at d n ns \<Longrightarrow> is_dir (d_tree d) n \<Longrightarrow> disk_at disk (src @ ns) = Some DiskDir \<Longrightarrow>
    fcard (fmdom disk) + 2 \<le> k + length ns \<Longrightarrow>
    \<exists>out1. collect_disk_paths k disk (src @ ns) (path_str ns) out = Some (out1, Inr ()) \<and> out |\<subseteq>| out1 \<and>
      (\<forall>m. collected_below d ns m out1)"
proof (induction k arbitrary: n ns out)
  case 0
  then show ?case using mirrored_depth [OF D M 0(1,2)] by simp
next
  case (Suc k)
  note W = mirrorableD(1) [OF M]
  note join = join_path_str [OF node_at_clean [OF W Suc.prems(1)]]
  let ?f = "\<lambda>name out. case disk_at disk ((src @ ns) @ [name]) of
      Some DiskDir \<Rightarrow> collect_disk_paths k disk ((src @ ns) @ [name]) (join_path (path_str ns) name) out
    | Some (DiskFile _) \<Rightarrow> Some (finsert (join_path (path_str ns) name) out, Inr ())
    | None \<Rightarrow> Some (out, Inr ())"
  have round: "\<exists>out1. ?f m s = Some (out1, Inr ()) \<and> True \<and> s |\<subseteq>| out1 \<and> collected_below d ns m out1"
    if m: "m \<in> set (read_dir disk (src @ ns))" for m s
  proof -
    obtain c where c: "node_at d c (ns @ [m])" and at: "disk_at disk (src @ ns @ [m]) = node_image get d c"
      by (rule mirrored_name [OF D m])
    from image_filled [OF M F c] show ?thesis
    proof
      assume dir: "node_image get d c = Some DiskDir \<and> kind_of (d_tree d) c = Dir"
      have "is_dir (d_tree d) c"
        using node_at_dir [OF c] dir by simp
      with Suc.IH [OF c, of s] at dir Suc.prems(4)
      obtain out1 where out1: "collect_disk_paths k disk (src @ ns @ [m]) (path_str (ns @ [m])) s = Some (out1, Inr ())"
          "s |\<subseteq>| out1" "\<forall>m'. collected_below d (ns @ [m]) m' out1"
        by auto
      have "collected_below d ns m out1"
        by (rule collected_below_child [OF M c]) (use dir out1(3) in simp_all)
      then show ?thesis using at dir join out1 by simp
    next
      assume "\<exists>co b. kind_of (d_tree d) c = File \<and> content_get (d_content d) c = Some co \<and> file_bytes get co = Inr b \<and>
        node_image get d c = Some (DiskFile b)"
      then obtain b where b: "node_image get d c = Some (DiskFile b)" and plain: "kind_of (d_tree d) c = File" by blast
      have "collected_below d ns m (finsert (path_str (ns @ [m])) s)"
        by (rule collected_below_child [OF M c]) (use plain in simp_all)
      then show ?thesis using at b join by auto
    qed
  qed
  have "\<exists>out1. try_each ?f (read_dir disk (src @ ns)) out = Some (out1, Inr ()) \<and> True \<and> out |\<subseteq>| out1 \<and>
      (\<forall>m \<in> set (read_dir disk (src @ ns)). collected_below d ns m out1)"
    by (rule try_each_all [of "\<lambda>_. True" out _ ?f "\<lambda>a b. a |\<subseteq>| b" "collected_below d ns"])
      (use round in \<open>auto simp: collected_below_def\<close>)
  then obtain out1 where run: "try_each ?f (read_dir disk (src @ ns)) out = Some (out1, Inr ())" and sub: "out |\<subseteq>| out1"
    and each: "\<forall>m \<in> set (read_dir disk (src @ ns)). collected_below d ns m out1" by blast
  have "collected_below d ns m out1" for m
  proof (cases "m \<in> set (read_dir disk (src @ ns))")
    case True
    then show ?thesis using each by blast
  next
    case False
    have "\<not> node_at d c (ns @ m # ms)" for c ms
    proof
      assume c: "node_at d c (ns @ m # ms)"
      obtain b where b: "node_at d b (ns @ [m])"
        using node_at_prefix [OF c] c by (cases "ms = []") auto
      have "disk_at disk (src @ ns @ [m]) = node_image get d b"
        by (rule mirroredD(2) [OF D _ b]) simp
      with image_filled [OF M F b] False show False by (auto simp: mem_read_dir)
    qed
    then show ?thesis by (simp add: collected_below_def)
  qed
  with run sub Suc.prems(3) show ?case by simp
qed

text \<open>The files the drive lists are files of the tree, so none of them is missing.\<close>

definition listed_file :: "drive \<Rightarrow> string \<Rightarrow> bool" where
  "listed_file d p \<longleftrightarrow> (\<exists>c m ms. node_at d c (m # ms) \<and> kind_of (d_tree d) c = File \<and> p = path_str (m # ms))"

lemma drive_files_ok:
  assumes W: "walkable d"
  shows "node_at d n ns \<Longrightarrow> fcard (fmdom (edges_of d)) + 2 \<le> k + length ns \<Longrightarrow> \<forall>p \<in> set out. listed_file d p \<Longrightarrow>
    \<exists>out1. drive_file_paths k d (path_str ns) out = Some out1 \<and> (\<forall>p \<in> set out1. listed_file d p)"
proof (induction k arbitrary: n ns out)
  case 0
  then show ?case using node_at_length [OF 0(1)] by simp
next
  case (Suc k)
  show ?case
  proof (cases "ls d (path_str ns)")
    case (Inl e)
    then show ?thesis using Suc.prems(3) by simp
  next
    case (Inr es)
    let ?f = "\<lambda>e out. if de_is_dir e then drive_file_paths k d (join_path (path_str ns) (de_name e)) out
      else Some (out @ [join_path (path_str ns) (de_name e)])"
    have round: "\<exists>out1. ?f e s = Some out1 \<and> (\<forall>p \<in> set out1. listed_file d p)"
      if e: "e \<in> set es" and s: "\<forall>p \<in> set s. listed_file d p" for e s
    proof (cases "de_is_dir e")
      case True
      with Suc.IH [OF ls_at_entry(1) [OF W Suc.prems(1) Inr e] _ s] Suc.prems(2) show ?thesis
        by (simp add: join_path_str [OF node_at_clean [OF W Suc.prems(1)]])
    next
      case False
      note c = ls_at_entry(1) [OF W Suc.prems(1) Inr e]
      have "kind_of (d_tree d) (de_node_id e) = File"
        using False ls_at_entry(2) [OF W Suc.prems(1) Inr e] by (cases "kind_of (d_tree d) (de_node_id e)") auto
      then have "listed_file d (path_str (ns @ [de_name e]))"
        using c unfolding listed_file_def by (cases ns) (force, force)
      with False s show ?thesis
        by (auto simp: join_path_str [OF node_at_clean [OF W Suc.prems(1)]])
    qed
    have "\<exists>out1. each ?f es out = Some out1 \<and> (\<forall>p \<in> set out1. listed_file d p)"
      by (rule each_all [of "\<lambda>out. \<forall>p \<in> set out. listed_file d p", OF Suc.prems(3) round])
    with Inr show ?thesis by simp
  qed
qed

lemma trash_missing_none: "\<forall>p \<in> set ps. p |\<in>| on_disk \<Longrightarrow> trash_missing on_disk ps st = (st, Inr ())"
  by (induction ps) simp_all

lemma push_mirrored:
  assumes M: "mirrorable get d" and D: "mirrored get d src disk" and F: "files_filled d" and S: "put_same put get d"
  shows "\<exists>st. push_drive put stat disk src ctr d s = Some (st, Inr ()) \<and> untouched d st"
proof -
  let ?deep = "Suc (Suc (fcard (fmdom disk)))" and ?st = "push_report d ctr s"
  have root: "node_at d ROOT []" "is_dir (d_tree d) ROOT" "disk_at disk (src @ []) = Some DiskDir"
    using mirroredD(1) [OF D] by (simp_all add: is_dir_def)
  obtain on_disk where c: "collect_disk_paths ?deep disk src ''/'' {||} = Some (on_disk, Inr ())"
      "\<And>m. collected_below d [] m on_disk"
    using collect_ok [OF M D F root, of ?deep "{||}"] by auto
  obtain st where p: "push_dir ?deep put stat disk src ''/'' ?st = Some (st, Inr ())" "untouched d st"
    using push_dir_untouched [OF M D F S root, of ?st ?deep stat] by (auto simp: untouched_def push_report_def)
  have drive: "ps_drive st = d" using p(2) by (simp add: untouched_def)
  obtain files where f: "drive_file_paths (Suc (Suc (fcard (fmdom (edges_of d))))) d ''/'' [] = Some files"
      "\<forall>p \<in> set files. listed_file d p"
    using drive_files_ok [OF mirrorableD(1) [OF M] root(1), of "Suc (Suc (fcard (fmdom (edges_of d))))" "[]"] by auto
  have "\<forall>p \<in> set files. p |\<in>| on_disk"
    using f(2) c(2) by (auto simp: listed_file_def collected_below_def)
  from trash_missing_none [OF this, of st] p(2) show ?thesis
    by (simp add: push_drive_def push_src_def Let_def c(1) p(1) drive f(1)
        del: collect_disk_paths.simps push_dir.simps drive_file_paths.simps)
qed

section \<open>Properties\<close>

text \<open>
  C22. Materializing a drive writes the drive and nothing else: into a target directory that is empty or new
  it succeeds, every path of the tree is there as its directory or with the bytes of its content, below the
  target there is nothing more, and outside it nothing changed. (Names are unique, usable as components of
  a local path and not a dot or two; parents are directories; the store has every recorded content.)
\<close>

theorem materialize_writes_the_tree:
  assumes "mirrorable get d" and "create_dir_all disk out = (disk0, Inr ())"
    and "\<forall>ns. ns \<noteq> [] \<longrightarrow> fmlookup disk0 (out @ ns) = None"
  shows "\<exists>mi. materialize d get out disk = Some (mi, Inr ()) \<and>
    (\<forall>n ns. ns \<noteq> [] \<longrightarrow> node_at d n ns \<longrightarrow> disk_at (mi_disk mi) (out @ ns) = node_image get d n) \<and>
    (\<forall>ns. ns \<noteq> [] \<longrightarrow> (\<forall>n. \<not> node_at d n ns) \<longrightarrow> disk_at (mi_disk mi) (out @ ns) = None) \<and>
    (\<forall>q. (\<forall>ns. ns \<noteq> [] \<longrightarrow> q \<noteq> out @ ns) \<longrightarrow> disk_at (mi_disk mi) q = disk_at disk0 q)"
  using materialize_ok [OF assms] unfolding mirrored_def by blast

definition demo_get :: "string \<Rightarrow> string + blob" where
  "demo_get c = (if c = ''c1'' \<or> c = ''c2'' then Inr [1, 2] else Inl ''no such object'')"

definition same_put :: "nat put_bytes" where
  "same_put b mode t s = (s + 1, Inr (fc_new ''c2'' 2 mode t, 0))"

lemma w3_mirrorable: "mirrorable demo_get w3" and w3_filled: "files_filled w3" and w3_put_same: "put_same same_put demo_get w3"
proof -
  have content: "d_content w3 = fmap_of_list [(id_file, projl (Inl (the (content_get (d_content w3) id_file))))]"
    by code_simp
  have cid: "fc_cid (the (content_get (d_content w3) id_file)) = ''c2''"
    by code_simp
  have only: "n = id_file \<and> fc_cid co = ''c2''" if "content_get (d_content w3) n = Some co" for n co
    using that cid by (subst (asm) content) (auto simp: content_get_def fmlookup_of_list split: if_splits)
  have some: "content_get (d_content w3) id_file \<noteq> None"
    by code_simp
  have "portable_name ''docs''" and "portable_name ''a.md''"
    by code_simp+
  then have "tree_edge (d_tree w3) c = Some e \<Longrightarrow> portable_name (e_name e)" for c e
    by (auto simp: tree_edge_def w3_edges fmlookup_of_list split: if_splits)
  then show "mirrorable demo_get w3"
    using w3_walkable w3_dirs only by (auto simp: mirrorable_def file_bytes_def demo_get_def)
  show "files_filled w3"
    using some by (auto simp: files_filled_def tree_edge_def w3_edges fmlookup_of_list split: if_splits)
  show "put_same same_put demo_get w3"
    using only by (auto simp: put_same_def same_put_def fc_new_def)
qed

lemma demo_out:
  "create_dir_all fmempty [''out''] = (fmupd [''out''] DiskDir fmempty, Inr ())"
  "ns \<noteq> [] \<Longrightarrow> fmlookup (fmupd [''out''] DiskDir fmempty) ([''out''] @ ns) = None"
  by (subst create_dir_all.simps) (simp_all add: os_mkdir_def disk_at_def)

theorem materialize_writes_the_tree_witness:
  "\<exists>mi. materialize w3 demo_get [''out''] fmempty = Some (mi, Inr ()) \<and>
    disk_at (mi_disk mi) [''out'', ''docs''] = Some DiskDir \<and>
    disk_at (mi_disk mi) [''out'', ''docs'', ''a.md''] = Some (DiskFile [1, 2])"
proof -
  have "node_at w3 id_docs [''docs'']" and "node_at w3 id_file [''docs'', ''a.md'']"
    using w3_placed by (simp_all add: node_at_def)
  moreover have "node_image demo_get w3 id_docs = Some DiskDir" and "node_image demo_get w3 id_file = Some (DiskFile [1, 2])"
    by code_simp+
  moreover note materialize_writes_the_tree [OF w3_mirrorable demo_out(1), simplified]
  ultimately show ?thesis by fastforce
qed

text \<open>
  C23. Push undoes nothing: pushing a directory that was just materialized, before anybody edits it, leaves
  the drive as it is and reports no changed, removed or uploaded file. (Besides what makes the mirror
  exact: every file has its content, and storing the same bytes gives the id they are recorded under.)
\<close>

theorem push_of_untouched_mirror:
  assumes "mirrorable get d" and "files_filled d" and "put_same put get d"
    and "create_dir_all disk out = (disk0, Inr ())" and "\<forall>ns. ns \<noteq> [] \<longrightarrow> fmlookup disk0 (out @ ns) = None"
  shows "\<exists>mi st. materialize d get out disk = Some (mi, Inr ()) \<and>
    push_drive put stat (mi_disk mi) out ctr d s = Some (st, Inr ()) \<and>
    ps_drive st = d \<and> ps_changed st = 0 \<and> ps_removed st = 0 \<and> ps_uploaded st = 0"
proof -
  obtain mi where "materialize d get out disk = Some (mi, Inr ())" and "mirrored get d out (mi_disk mi)"
    using materialize_ok [OF assms(1,4,5)] by blast
  with push_mirrored [OF assms(1) _ assms(2,3), of out "mi_disk mi" stat ctr s] show ?thesis
    unfolding untouched_def by blast
qed

theorem push_of_untouched_mirror_witness:
  "\<exists>mi st. materialize w3 demo_get [''out''] fmempty = Some (mi, Inr ()) \<and>
    push_drive same_put (\<lambda>_. (0, 0)) (mi_disk mi) [''out''] 7 w3 0 = Some (st, Inr ()) \<and> ps_drive st = w3"
  using push_of_untouched_mirror [OF w3_mirrorable w3_filled w3_put_same demo_out(1), of "\<lambda>_. (0, 0)" 7 0] demo_out(2)
  by auto

section \<open>What goes wrong otherwise\<close>

text \<open>
  A file whose content operation has not arrived yet: materializing skips it, and pushing the directory back
  takes it for a file the user deleted and moves it to the trash.
\<close>

definition pending_file :: drive where
  "pending_file = apply_remote_move (drive_init ''work'' ''a'')
     \<lparr>op_ts = Timestamp 1 ''b'', op_child = ''x'', op_new_parent = ROOT, op_new_name = ''new.txt'', op_kind = File\<rparr>"

theorem push_trashes_pending_files:
  "case materialize pending_file demo_get [''out''] fmempty of
     Some (mi, Inr _) \<Rightarrow>
       (case push_drive same_put (\<lambda>_. (0, 0)) (mi_disk mi) [''out''] 7 pending_file 0 of
          Some (st, Inr _) \<Rightarrow> ps_removed st = 1 \<and> is_trashed (d_tree (ps_drive st)) ''x''
        | _ \<Rightarrow> False)
   | _ \<Rightarrow> False"
  by code_simp

text \<open>
  A remote name with a separator: the mirror joins it to the target as it is, so a peer chooses a file
  outside the target and its bytes.
\<close>

definition escaping_file :: drive where
  "escaping_file =
     apply_remote_content (apply_remote_move (drive_init ''work'' ''a'')
       \<lparr>op_ts = Timestamp 1 ''b'', op_child = ''x'', op_new_parent = ROOT, op_new_name = ''../.profile'', op_kind = File\<rparr>)
       \<lparr>s_ts = Timestamp 2 ''b'', s_op = Set ''x'' ''c1'' 2 0 0\<rparr>"

theorem materialize_escapes_the_target:
  "case materialize escaping_file demo_get [''home'', ''out'']
       (fmap_of_list [([''home''], DiskDir), ([''home'', ''.profile''], DiskFile [9])]) of
     Some (mi, Inr _) \<Rightarrow> disk_at (mi_disk mi) [''home'', ''.profile''] = Some (DiskFile [1, 2])
   | _ \<Rightarrow> False"
  by code_simp

end
