(* ===== verification/Cli.thy ===== *)
theory Cli
  imports Materialize Store Search Changes AuditLog
begin

text \<open>
  The command line, \<open>crates/ce-drive-cli/src/main.rs\<close>: the persisted state of a drive and every command as
  a function on the files of the data directory. What a command prints is its result, before formatting.
  The codecs (bincode, zstd, JSON), the node client, the identity and the clock are parameters.
\<close>

section \<open>Paths\<close>

text \<open>\<open>str::rsplit_once\<close>, and the parent and name of a destination.\<close>

definition rsplit_once :: "char \<Rightarrow> string \<Rightarrow> (string \<times> string) option" where
  "rsplit_once c s =
     (if c \<in> set s
      then Some (rev (tl (dropWhile (\<lambda>x. x \<noteq> c) (rev s))), rev (takeWhile (\<lambda>x. x \<noteq> c) (rev s)))
      else None)"

datatype cli_error =
    Codec string
  | BadMagic
  | StateNotFound
  | StateExists
  | BadDestination string
  | DriveError drive_error
  | StoreFailed store_error
  | NotInDrive string
  | UnknownAbility string
  | NoLinkHolder
  | NoAudience
  | ShareFailed share_error
  | BadCursor string
  | MirrorFailed mirror_error

definition split_path :: "string \<Rightarrow> cli_error + string \<times> string" where
  "split_path p =
     (case rsplit_once (CHR ''/'') (trim_end_matches (CHR ''/'') p) of
        Some (parent, n) \<Rightarrow>
          if n \<noteq> [] then Inr (if parent = [] then ''/'' else parent, n) else Inl (BadDestination p)
      | None \<Rightarrow> Inl (BadDestination p))"

definition cli_join :: "string \<Rightarrow> string \<Rightarrow> string" where
  "cli_join dir name =
     (if dir = ''/'' then ''/'' @ name else trim_end_matches (CHR ''/'') dir @ ''/'' @ name)"

definition lift_drive :: "drive_error + 'a \<Rightarrow> cli_error + 'a" where
  "lift_drive r = (case r of Inl e \<Rightarrow> Inl (DriveError e) | Inr a \<Rightarrow> Inr a)"

text \<open>The process counter of fresh ids starts at 0 in every run of the command and is threaded along.\<close>

fun make_components :: "string \<Rightarrow> string list \<Rightarrow> u64 \<times> drive \<Rightarrow> drive_error + u64 \<times> drive" where
  "make_components cur [] cd = Inr cd"
| "make_components cur (c # cs) (ctr, d) =
     (if resolve (d_tree d) (cli_join cur c) = None then
        (case mkdir d ctr cur c of
           Inl e \<Rightarrow> Inl e
         | Inr (_, d1) \<Rightarrow> make_components (cli_join cur c) cs (ctr + 1, d1))
      else make_components (cli_join cur c) cs (ctr, d))"

definition ensure_dirs :: "string \<Rightarrow> u64 \<times> drive \<Rightarrow> drive_error + u64 \<times> drive" where
  "ensure_dirs dir cd =
     (if dir = ''/'' \<or> resolve (d_tree (snd cd)) dir \<noteq> None then Inr cd
      else make_components ''/'' (filter (\<lambda>c. c \<noteq> []) (split_on (CHR ''/'') (trim_matches (CHR ''/'') dir))) cd)"

section \<open>The persisted state\<close>

text \<open>
  A file is its bytes and whether they are on stable storage; after a crash the bytes that are not may be
  cut short. Renaming replaces the target at once.
\<close>

record 'a ofile =
  of_bytes :: "'a list"
  of_synced :: bool

datatype 'a file_step = CreateTmp | WriteTmp "'a list" | SyncTmp | RenameTmp

fun do_step :: "'a file_step \<Rightarrow> 'a ofile option \<times> 'a ofile option \<Rightarrow> 'a ofile option \<times> 'a ofile option" where
  "do_step CreateTmp (target, tmp) = (target, Some \<lparr>of_bytes = [], of_synced = False\<rparr>)"
| "do_step (WriteTmp bs) (target, tmp) =
     (target, map_option (\<lambda>f. \<lparr>of_bytes = of_bytes f @ bs, of_synced = False\<rparr>) tmp)"
| "do_step SyncTmp (target, tmp) = (target, map_option (\<lambda>f. f\<lparr>of_synced := True\<rparr>) tmp)"
| "do_step RenameTmp (target, tmp) = (case tmp of Some f \<Rightarrow> (Some f, None) | None \<Rightarrow> (target, None))"

definition write_atomic_steps :: "'a list \<Rightarrow> 'a file_step list" where
  "write_atomic_steps bytes = [CreateTmp, WriteTmp bytes, SyncTmp, RenameTmp]"

record codec =
  cd_serialize :: "drive_state \<Rightarrow> string + blob"
  cd_deserialize :: "blob \<Rightarrow> string + drive_state"
  cd_compress :: "blob \<Rightarrow> string + blob"
  cd_decompress :: "blob \<Rightarrow> string + blob"
  cd_legacy :: "string \<Rightarrow> string + drive_state"
  cd_to_json :: "audit_journal \<Rightarrow> string + string"
  cd_of_json :: "string \<Rightarrow> string + audit_journal"

definition CEDRIVE_MAGIC :: blob where
  "CEDRIVE_MAGIC = [67, 69, 68, 82, 73, 86, 69, 49]"

definition lift_codec :: "string + 'a \<Rightarrow> cli_error + 'a" where
  "lift_codec r = (case r of Inl e \<Rightarrow> Inl (Codec e) | Inr a \<Rightarrow> Inr a)"

definition encode_state :: "codec \<Rightarrow> drive_state \<Rightarrow> cli_error + blob" where
  "encode_state cd st =
     res_bind (lift_codec (cd_serialize cd st)) (\<lambda>body. lift_codec (cd_compress cd (CEDRIVE_MAGIC @ body)))"

definition decode_state :: "codec \<Rightarrow> blob \<Rightarrow> cli_error + drive_state" where
  "decode_state cd bytes =
     res_bind (lift_codec (cd_decompress cd bytes)) (\<lambda>framed.
       if length framed < length CEDRIVE_MAGIC \<or> take (length CEDRIVE_MAGIC) framed \<noteq> CEDRIVE_MAGIC then Inl BadMagic
       else lift_codec (cd_deserialize cd (drop (length CEDRIVE_MAGIC) framed)))"

text \<open>The files of one drive: the state, its temporary, the legacy state and the journal with its own.\<close>

record drive_files =
  df_state :: "8 word ofile option"
  df_state_tmp :: "8 word ofile option"
  df_legacy :: "string option"
  df_journal :: "char ofile option"
  df_journal_tmp :: "char ofile option"

definition state_exists :: "drive_files \<Rightarrow> bool" where
  "state_exists fs \<longleftrightarrow> df_state fs \<noteq> None \<or> df_legacy fs \<noteq> None"

definition load_state :: "codec \<Rightarrow> drive_files \<Rightarrow> cli_error + drive_state" where
  "load_state cd fs =
     (case df_state fs of
        Some f \<Rightarrow> decode_state cd (of_bytes f)
      | None \<Rightarrow> (case df_legacy fs of Some s \<Rightarrow> lift_codec (cd_legacy cd s) | None \<Rightarrow> Inl StateNotFound))"

definition load :: "codec \<Rightarrow> drive_files \<Rightarrow> cli_error + drive" where
  "load cd fs = res_bind (load_state cd fs) (\<lambda>st. Inr (from_state st))"

text \<open>The steps of a save: those of the atomic write, then the legacy file goes.\<close>

definition state_step :: "8 word file_step \<Rightarrow> drive_files \<Rightarrow> drive_files" where
  "state_step s fs =
     (case do_step s (df_state fs, df_state_tmp fs) of (t, tmp) \<Rightarrow> fs\<lparr>df_state := t, df_state_tmp := tmp\<rparr>)"

definition save_steps :: "blob \<Rightarrow> (drive_files \<Rightarrow> drive_files) list" where
  "save_steps bytes = map state_step (write_atomic_steps bytes) @ [\<lambda>fs. fs\<lparr>df_legacy := None\<rparr>]"

definition save_state :: "codec \<Rightarrow> drive_state \<Rightarrow> drive_files \<Rightarrow> drive_files \<times> (cli_error + unit)" where
  "save_state cd st fs =
     (case encode_state cd st of
        Inl e \<Rightarrow> (fs, Inl e)
      | Inr bytes \<Rightarrow> (fold (\<lambda>step fs. step fs) (save_steps bytes) fs, Inr ()))"

definition save :: "codec \<Rightarrow> drive \<Rightarrow> drive_files \<Rightarrow> drive_files \<times> (cli_error + unit)" where
  "save cd d fs = save_state cd (d_state d) fs"

text \<open>An unreadable journal counts as a new one.\<close>

definition load_journal :: "codec \<Rightarrow> drive_files \<Rightarrow> cli_error + audit_journal" where
  "load_journal cd fs =
     (case df_journal fs of
        None \<Rightarrow> Inr journal_new
      | Some f \<Rightarrow> lift_codec (journal_from_json (cd_of_json cd) (of_bytes f)))"

definition save_journal :: "codec \<Rightarrow> audit_journal \<Rightarrow> drive_files \<Rightarrow> drive_files \<times> (cli_error + unit)" where
  "save_journal cd j fs =
     (case lift_codec (cd_to_json cd j) of
        Inl e \<Rightarrow> (fs, Inl e)
      | Inr s \<Rightarrow>
          (case fold do_step (write_atomic_steps s) (df_journal fs, df_journal_tmp fs) of
             (t, tmp) \<Rightarrow> (fs\<lparr>df_journal := t, df_journal_tmp := tmp\<rparr>, Inr ())))"

section \<open>Commands that change the drive\<close>

definition cmd_init :: "codec \<Rightarrow> string \<Rightarrow> string \<Rightarrow> drive_files \<Rightarrow> drive_files \<times> (cli_error + unit)" where
  "cmd_init cd name owner fs =
     (if state_exists fs then (fs, Inl StateExists) else save cd (drive_init name owner) fs)"

text \<open>Load, apply, save: an error before the save leaves the files alone.\<close>

definition update_drive ::
    "codec \<Rightarrow> (drive \<Rightarrow> cli_error + drive \<times> 'r) \<Rightarrow> drive_files \<Rightarrow> drive_files \<times> (cli_error + 'r)" where
  "update_drive cd op fs =
     (case load cd fs of
        Inl e \<Rightarrow> (fs, Inl e)
      | Inr d \<Rightarrow>
          (case op d of
             Inl e \<Rightarrow> (fs, Inl e)
           | Inr (d1, r) \<Rightarrow> (case save cd d1 fs of (fs1, Inl e) \<Rightarrow> (fs1, Inl e) | (fs1, Inr _) \<Rightarrow> (fs1, Inr r))))"

text \<open>\<open>stored\<close> is what \<open>Store::put_file\<close> returns for the local file, \<open>src_name\<close> its file name.\<close>

definition add_dest :: "string option \<Rightarrow> string option \<Rightarrow> string" where
  "add_dest src_name dest =
     (case dest of Some p \<Rightarrow> p | None \<Rightarrow> ''/'' @ (case src_name of Some n \<Rightarrow> n | None \<Rightarrow> ''file''))"

definition add_op :: "store_error + stored_file \<Rightarrow> string option \<Rightarrow> string option \<Rightarrow> drive \<Rightarrow> cli_error + drive \<times> stored_file" where
  "add_op stored src_name dest d =
     (case stored of
        Inl e \<Rightarrow> Inl (StoreFailed e)
      | Inr sf \<Rightarrow>
          res_bind (split_path (add_dest src_name dest)) (\<lambda>(parent, name).
          res_bind (lift_drive (ensure_dirs parent (0, d))) (\<lambda>(ctr, d1).
          res_bind (lift_drive (add_file d1 ctr parent name (sf_content sf))) (\<lambda>(_, d2). Inr (d2, sf)))))"

definition mv_op :: "string \<Rightarrow> string \<Rightarrow> drive \<Rightarrow> cli_error + drive \<times> unit" where
  "mv_op src dest d =
     res_bind (split_path dest) (\<lambda>(parent, name). res_bind (lift_drive (mv d src parent name)) (\<lambda>d1. Inr (d1, ())))"

definition rm_op :: "string \<Rightarrow> drive \<Rightarrow> cli_error + drive \<times> unit" where
  "rm_op p d = res_bind (lift_drive (rm d p)) (\<lambda>d1. Inr (d1, ()))"

definition restore_op :: "node_id \<Rightarrow> string option \<Rightarrow> string option \<Rightarrow> drive \<Rightarrow> cli_error + drive \<times> string" where
  "restore_op i dst name d =
     res_bind (lift_drive (restore d i dst name)) (\<lambda>d1.
       Inr (d1, case path_of d1 i of Some p \<Rightarrow> p | None \<Rightarrow> i))"

definition empty_trash_op :: "u64 \<Rightarrow> u64 \<Rightarrow> drive \<Rightarrow> cli_error + drive \<times> node_id list" where
  "empty_trash_op now older_than d =
     (let (removed, d1) = (if older_than = 0 then empty_trash d else gc_trash d now older_than) in Inr (d1, removed))"

definition cmd_add where "cmd_add cd stored src_name dest fs = update_drive cd (add_op stored src_name dest) fs"
definition cmd_mv where "cmd_mv cd src dest fs = update_drive cd (mv_op src dest) fs"
definition cmd_rm where "cmd_rm cd p fs = update_drive cd (rm_op p) fs"
definition cmd_restore where "cmd_restore cd i dst name fs = update_drive cd (restore_op i dst name) fs"
definition cmd_empty_trash where "cmd_empty_trash cd now older_than fs = update_drive cd (empty_trash_op now older_than) fs"

text \<open>The two commands whose loops carry fuel: \<open>None\<close> stands for a loop that does not end.\<close>

definition cmd_compact :: "codec \<Rightarrow> drive_files \<Rightarrow> (drive_files \<times> (cli_error + nat \<times> nat)) option" where
  "cmd_compact cd fs =
     (case load cd fs of
        Inl e \<Rightarrow> Some (fs, Inl e)
      | Inr d \<Rightarrow>
          (case compact d of
             None \<Rightarrow> None
           | Some d1 \<Rightarrow>
               Some (case save cd d1 fs of
                       (fs1, Inl e) \<Rightarrow> (fs1, Inl e)
                     | (fs1, Inr _) \<Rightarrow> (fs1, Inr (op_count d, op_count d1)))))"

definition cmd_push ::
    "codec \<Rightarrow> 's put_bytes \<Rightarrow> stat \<Rightarrow> disk \<Rightarrow> os_path \<Rightarrow> 's \<Rightarrow> drive_files \<Rightarrow>
     (drive_files \<times> (cli_error + nat \<times> nat \<times> nat)) option" where
  "cmd_push cd put stat disk dir s fs =
     (case load cd fs of
        Inl e \<Rightarrow> Some (fs, Inl e)
      | Inr d \<Rightarrow>
          (case push_drive put stat disk dir 0 d s of
             None \<Rightarrow> None
           | Some (st, Inl e) \<Rightarrow> Some (fs, Inl (MirrorFailed e))
           | Some (st, Inr _) \<Rightarrow>
               Some (case save cd (ps_drive st) fs of
                       (fs1, Inl e) \<Rightarrow> (fs1, Inl e)
                     | (fs1, Inr _) \<Rightarrow> (fs1, Inr (ps_changed st, ps_removed st, ps_uploaded st)))))"

text \<open>The callback of \<open>push --watch\<close>: save only if a file was changed or removed; a failed save is a warning.\<close>

definition on_push :: "codec \<Rightarrow> 's pushing \<Rightarrow> drive_files \<Rightarrow> drive_files" where
  "on_push cd st fs = (if ps_changed st > 0 \<or> ps_removed st > 0 then fst (save cd (ps_drive st) fs) else fs)"

section \<open>Commands that only read the drive\<close>

definition short_cid :: "string \<Rightarrow> string" where
  "short_cid cid = take 16 cid"

text \<open>A row of \<open>ls\<close>: a directory by its name, a file with its size and the front of its content id.\<close>

datatype ls_row = LsDir string | LsFile string u64 string

definition ls_row_of :: "dir_entry \<Rightarrow> ls_row" where
  "ls_row_of e =
     (if de_is_dir e then LsDir (de_name e)
      else (case de_content e of
              Some c \<Rightarrow> LsFile (de_name e) (fc_size c) (short_cid (fc_cid c))
            | None \<Rightarrow> LsFile (de_name e) 0 (short_cid ''-'')))"

definition cmd_ls :: "codec \<Rightarrow> string \<Rightarrow> drive_files \<Rightarrow> cli_error + ls_row list" where
  "cmd_ls cd p fs =
     res_bind (load cd fs) (\<lambda>d. res_bind (lift_drive (ls d p)) (\<lambda>es. Inr (map ls_row_of es)))"

text \<open>The lines of \<open>tree\<close>, with the box drawing characters in UTF-8.\<close>

definition branch_last :: string where
  "branch_last = [CHR 0xE2, CHR 0x94, CHR 0x94, CHR 0xE2, CHR 0x94, CHR 0x80, CHR 0xE2, CHR 0x94, CHR 0x80, CHR '' '']"

definition branch_mid :: string where
  "branch_mid = [CHR 0xE2, CHR 0x94, CHR 0x9C, CHR 0xE2, CHR 0x94, CHR 0x80, CHR 0xE2, CHR 0x94, CHR 0x80, CHR '' '']"

definition stem_mid :: string where
  "stem_mid = [CHR 0xE2, CHR 0x94, CHR 0x82] @ ''   ''"

fun print_tree :: "nat \<Rightarrow> drive \<Rightarrow> string \<Rightarrow> string \<Rightarrow> string list \<Rightarrow> string list option" where
  "print_tree 0 d p prefix out = None"
| "print_tree (Suc k) d p prefix out =
     (case ls d p of
        Inl _ \<Rightarrow> Some out
      | Inr entries \<Rightarrow>
          each (\<lambda>(i, e) out.
            let last = (i + 1 = length entries);
                branch = (if last then branch_last else branch_mid) in
            if de_is_dir e then
              print_tree k d (cli_join p (de_name e)) (prefix @ (if last then ''    '' else stem_mid))
                (out @ [prefix @ branch @ de_name e @ ''/''])
            else
              Some (out @ [prefix @ branch @ de_name e @ '' ('' @ dec_string (entry_size e) @ '' bytes)'']))
            (enumerate 0 entries) out)"

definition cmd_tree :: "codec \<Rightarrow> drive_files \<Rightarrow> cli_error + string list option" where
  "cmd_tree cd fs =
     res_bind (load cd fs) (\<lambda>d. Inr (print_tree (Suc (Suc (fcard (fmdom (edges_of d))))) d ''/'' [] [''/'']))"

definition cmd_trash :: "codec \<Rightarrow> drive_files \<Rightarrow> cli_error + (node_id \<times> bool \<times> string \<times> u64) list" where
  "cmd_trash cd fs =
     res_bind (load cd fs) (\<lambda>d. Inr (map (\<lambda>e. (de_node_id e, de_is_dir e, de_name e, entry_size e)) (trash d)))"

definition cmd_search :: "codec \<Rightarrow> unicode \<Rightarrow> string \<Rightarrow> nat \<Rightarrow> drive_files \<Rightarrow> cli_error + search_hit list option" where
  "cmd_search cd u query limit fs =
     res_bind (load cd fs) (\<lambda>d. Inr (map_option (\<lambda>ix. search u ix query limit) (drive_search_index u d)))"

definition cmd_conflicts :: "codec \<Rightarrow> drive_files \<Rightarrow> cli_error + (string \<times> string \<times> string list) list" where
  "cmd_conflicts cd fs =
     res_bind (load cd fs) (\<lambda>d.
       Inr (map (\<lambda>c. (cc_path c, short_cid (cc_current_cid c),
                     map (\<lambda>cid. cc_path c @ ''.conflict-'' @ take 8 cid) (cc_conflict_cids c)))
            (content_conflicts d)))"

text \<open>\<open>str::parse\<close> of a \<open>u64\<close>: an optional plus sign, then digits that do not overflow.\<close>

fun read_digits :: "nat \<Rightarrow> string \<Rightarrow> nat option" where
  "read_digits acc [] = Some acc"
| "read_digits acc (c # cs) =
     (let n = of_char c :: nat in
      if 48 \<le> n \<and> n \<le> 57 then read_digits (acc * 10 + (n - 48)) cs else None)"

definition parse_u64 :: "string \<Rightarrow> u64 option" where
  "parse_u64 s =
     (let digits = (if starts_with s ''+'' then tl s else s) in
      if digits = [] then None
      else (case read_digits 0 digits of
              Some n \<Rightarrow> if n < 2 ^ 64 then Some (of_nat n) else None
            | None \<Rightarrow> None))"

definition split_once :: "char \<Rightarrow> string \<Rightarrow> (string \<times> string) option" where
  "split_once c s =
     (if c \<in> set s then Some (takeWhile (\<lambda>x. x \<noteq> c) s, tl (dropWhile (\<lambda>x. x \<noteq> c) s)) else None)"

definition parse_since :: "string option \<Rightarrow> cli_error + cursor" where
  "parse_since since =
     (case since of
        None \<Rightarrow> Inr cursor_beginning
      | Some s \<Rightarrow>
          (case split_once (CHR '':'') s of
             None \<Rightarrow> Inl (BadCursor s)
           | Some (l, r) \<Rightarrow>
               (case parse_u64 l of
                  None \<Rightarrow> Inl (BadCursor s)
                | Some n \<Rightarrow> Inr (cursor_at (Timestamp n r)))))"

text \<open>The cursor \<open>changes\<close> prints after the changes, if there is one.\<close>

definition next_text :: "cursor \<Rightarrow> string option" where
  "next_text cur = map_option (\<lambda>ts. dec_string (lamport ts) @ '':'' @ replica ts) (cur_last cur)"

definition cmd_changes :: "codec \<Rightarrow> string option \<Rightarrow> nat \<Rightarrow> drive_files \<Rightarrow> cli_error + change list \<times> string option" where
  "cmd_changes cd since limit fs =
     res_bind (load cd fs) (\<lambda>d.
     res_bind (parse_since since) (\<lambda>cur.
       let (changes, next_cursor) = changes_since d cur limit in Inr (changes, next_text next_cursor)))"

section \<open>Sharing\<close>

definition render_offline :: "audit_journal \<Rightarrow> u64 \<Rightarrow> audit_entry list" where
  "render_offline j now =
     map (\<lambda>g. \<lparr>ae_record = g,
               ae_revoked = list_ex (\<lambda>r. rv_issuer r = gc_issuer g \<and> rv_revoke_nonce r = gc_revoke_nonce g) (aj_revokes j),
               ae_expired = (gc_expires g \<noteq> 0 \<and> gc_expires g < now)\<rparr>) (aj_grants j)"

text \<open>\<open>Audit::render\<close> always answers, so its fallback is here as the code has it.\<close>

definition cmd_history ::
    "codec \<Rightarrow> string + (string \<times> u64) list \<Rightarrow> u64 \<Rightarrow> drive_files \<Rightarrow> cli_error + audit_entry list" where
  "cmd_history cd query now fs =
     res_bind (load_journal cd fs) (\<lambda>j.
       if aj_grants j = [] then Inr []
       else
         (case (Inr (render_audit query j now) :: string + audit_entry list) of
            Inr es \<Rightarrow> Inr es
          | Inl _ \<Rightarrow> Inr (render_offline j now)))"

definition expiry :: "u64 \<Rightarrow> u64 \<Rightarrow> u64" where
  "expiry now days = (if days = 0 then 0 else now + days * 24 * 3600)"

text \<open>\<open>clock1\<close> to \<open>clock3\<close> are the three readings of the clock: for the expiry, the nonce and the journal.\<close>

definition cmd_share ::
    "codec \<Rightarrow> (string \<Rightarrow> id_bytes option) \<Rightarrow> (id_bytes \<Rightarrow> string list \<Rightarrow> caveats \<Rightarrow> u64 \<Rightarrow> 'cap) \<Rightarrow>
     ('cap list \<Rightarrow> string) \<Rightarrow> string \<Rightarrow> u64 \<times> u64 \<times> u64 \<Rightarrow> string \<Rightarrow> string option \<Rightarrow> string \<Rightarrow> bool \<Rightarrow>
     string option \<Rightarrow> u64 \<Rightarrow> drive_files \<Rightarrow> drive_files \<times> (cli_error + grant)" where
  "cmd_share cd hex_decode issue encode_chain issuer nows p to ability_name link link_holder days fs =
     (case nows of (clock1, clock2, clock3) \<Rightarrow>
      (case res_bind (load cd fs) (\<lambda>d.
            if resolve (d_tree d) p = None then Inl (NotInDrive p)
            else
              (case ability_parse ability_name of
                 None \<Rightarrow> Inl (UnknownAbility ability_name)
               | Some a \<Rightarrow>
                   let lift = (\<lambda>r. case r of Inl e \<Rightarrow> Inl (ShareFailed e) | Inr g \<Rightarrow> Inr g) in
                   if link then
                     (case link_holder of
                        None \<Rightarrow> Inl NoLinkHolder
                      | Some holder \<Rightarrow> lift (share_link hex_decode issue encode_chain holder a p (expiry clock1 days) clock2))
                   else
                     (case to of
                        None \<Rightarrow> Inl NoAudience
                      | Some audience \<Rightarrow> lift (grant_to hex_decode issue encode_chain audience a p (expiry clock1 days) clock2))))
       of
         Inl e \<Rightarrow> (fs, Inl e)
       | Inr g \<Rightarrow>
           (case load_journal cd fs of
              Inl e \<Rightarrow> (fs, Inl e)
            | Inr j \<Rightarrow>
                (case save_journal cd (record_grant (from_grant issuer clock3 g link) j) fs of
                   (fs1, Inl e) \<Rightarrow> (fs1, Inl e)
                 | (fs1, Inr _) \<Rightarrow> (fs1, Inr g)))))"

section \<open>Writing the drive to disk\<close>

text \<open>
  \<open>sync\<close> has its own copy of the mirror, which asks the node for every content id, the empty one
  included; \<open>materialize\<close> uses the mount's.
\<close>

fun sync_dir ::
    "nat \<Rightarrow> drive \<Rightarrow> (string \<Rightarrow> string + blob) \<Rightarrow> string \<Rightarrow> os_path \<Rightarrow> disk \<times> nat \<Rightarrow>
     ((disk \<times> nat) \<times> (cli_error + unit)) option" where
  "sync_dir 0 d get_object p out s = None"
| "sync_dir (Suc k) d get_object p out s =
     (case ls d p of
        Inl e \<Rightarrow> Some (s, Inl (DriveError e))
      | Inr entries \<Rightarrow>
          try_each (\<lambda>e (disk, n).
            let target = os_join out (de_name e) in
            if de_is_dir e then
              (case create_dir_all disk target of
                 (disk1, Inl err) \<Rightarrow> Some ((disk1, n), Inl (MirrorFailed (MkdirFailed target err)))
               | (disk1, Inr _) \<Rightarrow> sync_dir k d get_object (cli_join p (de_name e)) target (disk1, n))
            else
              Some (case de_content e of
                      None \<Rightarrow> ((disk, n), Inr ())
                    | Some content \<Rightarrow>
                        (case get_object (fc_cid content) of
                           Inl err \<Rightarrow> ((disk, n), Inl (MirrorFailed (mirror_error.FetchFailed (de_name e) err)))
                         | Inr bytes \<Rightarrow>
                             (case os_write disk target bytes of
                                Inl err \<Rightarrow> ((disk, n), Inl (MirrorFailed (WriteFailed target err)))
                              | Inr disk1 \<Rightarrow> ((disk1, n + 1), Inr ()))))) entries s)"

definition cmd_sync ::
    "codec \<Rightarrow> (string \<Rightarrow> string + blob) \<Rightarrow> os_path \<Rightarrow> disk \<Rightarrow> drive_files \<Rightarrow> ((disk \<times> nat) \<times> (cli_error + unit)) option" where
  "cmd_sync cd get_object out disk fs =
     (case load cd fs of
        Inl e \<Rightarrow> Some ((disk, 0), Inl e)
      | Inr d \<Rightarrow>
          (case create_dir_all disk out of
             (disk1, Inl e) \<Rightarrow> Some ((disk1, 0), Inl (MirrorFailed (MkdirFailed out e)))
           | (disk1, Inr _) \<Rightarrow>
               sync_dir (Suc (Suc (fcard (fmdom (edges_of d))))) d get_object ''/'' out (disk1, 0)))"

definition cmd_materialize ::
    "codec \<Rightarrow> (string \<Rightarrow> string + blob) \<Rightarrow> os_path \<Rightarrow> disk \<Rightarrow> drive_files \<Rightarrow>
     (cli_error + mirror \<times> (mirror_error + unit)) option" where
  "cmd_materialize cd get_object out disk fs =
     (case load cd fs of
        Inl e \<Rightarrow> Some (Inl e)
      | Inr d \<Rightarrow> map_option Inr (materialize d get_object out disk))"

end
