(* ===== verification/Reload.thy ===== *)
theory Reload
  imports DriveSteps TreeProps
begin

text \<open>
  Two handles with the same persisted state answer every question alike and change it alike. This is what
  lets a program that loads, applies one operation and saves stand for one that keeps the drive in memory.
\<close>

section \<open>Handles with the same state\<close>

definition drive_same :: "drive \<Rightarrow> drive \<Rightarrow> bool" where
  "drive_same d e \<longleftrightarrow> drive_ok d \<and> drive_ok e \<and> d_state d = d_state e"

lemma drive_sameD:
  assumes "drive_same d e"
  shows "drive_ok d" "drive_ok e" "d_state d = d_state e" "tree_view (d_tree d) = tree_view (d_tree e)"
    "d_content d = d_content e" "room n d \<longleftrightarrow> room n e"
proof -
  show ok: "drive_ok d" "drive_ok e" and st: "d_state d = d_state e"
    using assms by (simp_all add: drive_same_def)
  show "tree_view (d_tree d) = tree_view (d_tree e)"
    using tree_inv_view [OF drive_invD(1) [OF drive_okD(1) [OF ok(1)]], of "d_tree e"]
      drive_invD(1) [OF drive_okD(1) [OF ok(2)]] st by simp
  show "d_content d = d_content e"
    using drive_invD(2) [OF drive_okD(1) [OF ok(1)]] drive_invD(2) [OF drive_okD(1) [OF ok(2)]] st
    by (simp add: content_ok_def)
  show "room n d \<longleftrightarrow> room n e"
    using st by (simp add: room_def)
qed

lemma from_state_same: "drive_ok d \<Longrightarrow> drive_same (from_state (d_state d)) d"
  using from_state_view [OF drive_okD(1), of d] by (simp add: drive_same_def drive_ok_def)

text \<open>What the operations ask of a handle.\<close>

lemma drive_same_queries:
  assumes "drive_same d e"
  shows "resolve (d_tree d) = resolve (d_tree e)" "path (d_tree d) = path (d_tree e)"
    "readdir (d_tree d) = readdir (d_tree e)" "tree_edge (d_tree d) = tree_edge (d_tree e)"
    "kind_of (d_tree d) = kind_of (d_tree e)" "edge_name (d_tree d) = edge_name (d_tree e)"
    "is_trashed (d_tree d) = is_trashed (d_tree e)" "is_limbo (d_tree d) = is_limbo (d_tree e)"
    "raw_children (d_tree d) = raw_children (d_tree e)" "child_named d = child_named e"
    "resolve_dir d = resolve_dir e" "content_get (d_content d) = content_get (d_content e)" "trash_ids d = trash_ids e"
    "edges_of d = edges_of e"
proof -
  note V = drive_sameD(4) [OF assms]
  note F = tree_view_fields [OF V]
  show edge: "tree_edge (d_tree d) = tree_edge (d_tree e)" and "edges_of d = edges_of e"
    by (auto simp: tree_edge_def F)
  show raw: "raw_children (d_tree d) = raw_children (d_tree e)"
    by (auto simp: raw_children_def F)
  show tr: "is_trashed (d_tree d) = is_trashed (d_tree e)" and "is_limbo (d_tree d) = is_limbo (d_tree e)"
    by (auto simp: fun_eq_iff is_trashed_def is_limbo_def is_ancestor_def F)
  show res: "resolve (d_tree d) = resolve (d_tree e)" and "path (d_tree d) = path (d_tree e)"
    using tree_view_resolve [OF V] by blast+
  show rd: "readdir (d_tree d) = readdir (d_tree e)"
    by (rule tree_view_readdir [OF V])
  show "kind_of (d_tree d) = kind_of (d_tree e)" "edge_name (d_tree d) = edge_name (d_tree e)"
    by (auto simp: fun_eq_iff kind_of_def edge_name_def edge)
  show "child_named d = child_named e"
    by (auto simp: fun_eq_iff child_named_def raw tr)
  show "resolve_dir d = resolve_dir e"
    by (auto simp: fun_eq_iff resolve_dir_def res edge)
  show "content_get (d_content d) = content_get (d_content e)"
    by (simp add: drive_sameD(5) [OF assms])
  show "trash_ids d = trash_ids e"
    by (simp add: trash_ids_def rd)
qed

section \<open>Operations\<close>

text \<open>Results that agree: the same error, or related values.\<close>

abbreviation same_result :: "('a \<Rightarrow> 'b \<Rightarrow> bool) \<Rightarrow> 'e + 'a \<Rightarrow> 'e + 'b \<Rightarrow> bool" where
  "same_result R \<equiv> rel_sum (=) R"

abbreviation same_with :: "'r \<times> drive \<Rightarrow> 'r \<times> drive \<Rightarrow> bool" where
  "same_with x y \<equiv> fst x = fst y \<and> drive_same (snd x) (snd y)"

lemma same_bind: "(\<And>a. r = Inr a \<Longrightarrow> same_result R (f a) (g a)) \<Longrightarrow> same_result R (res_bind r f) (res_bind r g)"
  by (cases r) simp_all

lemma same_bind_rel:
  "same_result Q r s \<Longrightarrow> (\<And>a b. r = Inr a \<Longrightarrow> s = Inr b \<Longrightarrow> Q a b \<Longrightarrow> same_result R (f a) (g b)) \<Longrightarrow>
    same_result R (res_bind r f) (res_bind s g)"
  by (cases r; cases s) simp_all

lemma state_push_new_move: "d_state d = d_state e \<Longrightarrow> d_state (push_new_move d c p n k) = d_state (push_new_move e c p n k)"
  by (simp add: push_new_move_def push_move_def tick_eq set_lamport_def next_ts_def)

lemma state_push_content: "d_state d = d_state e \<Longrightarrow> d_state (push_content d op) = d_state (push_content e op)"
  by (simp add: push_content_def tick_eq set_lamport_def next_ts_def Let_def)

lemma push_new_move_same:
  "drive_same d e \<Longrightarrow> room 1 d \<Longrightarrow> c \<noteq> ROOT \<Longrightarrow> c \<noteq> TRASH \<Longrightarrow> c \<noteq> LIMBO \<Longrightarrow>
    drive_same (push_new_move d c p n k) (push_new_move e c p n k)"
  using push_new_move_ok [of d c p n k] push_new_move_ok [of e c p n k] drive_sameD(6) [of d e 1] state_push_new_move [of d e]
  by (simp add: drive_same_def)

lemma push_content_same: "drive_same d e \<Longrightarrow> room 1 d \<Longrightarrow> drive_same (push_content d op) (push_content e op)"
  using push_content_ok [of d op] push_content_ok [of e op] drive_sameD(6) [of d e 1] state_push_content [of d e]
  by (simp add: drive_same_def)

text \<open>A resolved node other than the root can be moved.\<close>

lemma resolved_movable:
  "drive_ok d \<Longrightarrow> resolve (d_tree d) p = Some n \<Longrightarrow> n \<noteq> ROOT \<Longrightarrow> n \<noteq> TRASH \<and> n \<noteq> LIMBO"
  using resolve_node(3,4) [of d p n] by simp

lemma rm_same:
  assumes S: "drive_same d e" and r: "room 1 d"
  shows "same_result drive_same (rm d p) (rm e p)"
  unfolding rm_def drive_same_queries [OF S]
proof (rule same_bind)
  fix n
  assume "ok_or (NoSuchPath p) (resolve (d_tree e) p) = Inr n"
  then have "n \<noteq> ROOT \<Longrightarrow> n \<noteq> TRASH \<and> n \<noteq> LIMBO"
    using resolved_movable [OF drive_sameD(2) [OF S], of p n] by simp
  then show "same_result drive_same
      (if n = ROOT then Inl CannotDeleteRoot else Inr (push_new_move d n TRASH (edge_name (d_tree e) n) (kind_of (d_tree e) n)))
      (if n = ROOT then Inl CannotDeleteRoot else Inr (push_new_move e n TRASH (edge_name (d_tree e) n) (kind_of (d_tree e) n)))"
    using push_new_move_same [OF S r] by simp
qed

lemma mv_same:
  assumes S: "drive_same d e" and r: "room 1 d"
  shows "same_result drive_same (mv d s dp n) (mv e s dp n)"
  unfolding mv_def drive_same_queries [OF S]
proof (intro same_bind)
  fix c
  assume "ok_or (NoSuchPath s) (resolve (d_tree e) s) = Inr c"
  then have "c \<noteq> ROOT \<Longrightarrow> c \<noteq> TRASH \<and> c \<noteq> LIMBO"
    using resolved_movable [OF drive_sameD(2) [OF S], of s c] by simp
  then show "same_result drive_same
      (if c = ROOT then Inl CannotMoveRoot
       else res_bind (resolve_dir e dp) (\<lambda>parent. Inr (push_new_move d c parent n (kind_of (d_tree e) c))))
      (if c = ROOT then Inl CannotMoveRoot
       else res_bind (resolve_dir e dp) (\<lambda>parent. Inr (push_new_move e c parent n (kind_of (d_tree e) c))))"
    using push_new_move_same [OF S r] by (auto intro!: same_bind)
qed

lemma mkdir_same:
  assumes S: "drive_same d e" and r: "room 1 d"
  shows "same_result same_with (mkdir d ctr p n) (mkdir e ctr p n)"
  unfolding mkdir_def drive_same_queries [OF S] drive_sameD(3) [OF S] Let_def
  using push_new_move_same [OF S r] by (intro same_bind) simp

lemma add_file_same:
  assumes S: "drive_same d e" and "room 2 d"
  shows "same_result same_with (add_file d ctr p n c) (add_file e ctr p n c)"
proof -
  have r: "room 1 d" and r': "room 1 (push_new_move d i parent n k)" for i parent k
    using assms(2) room_push(1) [of 1 d] by (auto simp: numeral_2_eq_2 elim: room_mono)
  show ?thesis
    unfolding add_file_def drive_same_queries [OF S] drive_sameD(3) [OF S] Let_def
    using push_content_same [OF S r] push_content_same [OF push_new_move_same [OF S r] r']
    by (intro same_bind) (auto split: option.split)
qed

text \<open>A restored node other than the trash itself is in the tree, so it can be moved.\<close>

lemma trashed_movable:
  assumes ok: "drive_ok d" and tr: "is_trashed (d_tree d) i" and "i \<noteq> TRASH"
  shows "i \<noteq> ROOT \<and> i \<noteq> LIMBO"
proof -
  have "below (edges_of d) i TRASH"
    using tr by (simp add: is_trashed_def is_ancestor_iff)
  then show ?thesis
    using below_edge [of i TRASH "edges_of d"] assms(3) reserved_freeD [OF drive_okD(3) [OF ok]] by auto
qed

lemma restore_same:
  assumes S: "drive_same d e" and r: "room 1 d" and "i \<noteq> TRASH"
  shows "same_result drive_same (restore d i pp nm) (restore e i pp nm)"
proof (cases "is_trashed (d_tree e) i")
  case True
  show ?thesis
    unfolding restore_def drive_same_queries [OF S] Let_def
    using push_new_move_same [OF S r] trashed_movable [OF drive_sameD(2) [OF S] True assms(3)] True assms(3)
    by (auto intro!: same_bind)
qed (simp add: restore_def drive_same_queries [OF S])

section \<open>The trash\<close>

lemma hard_delete_one_same:
  assumes S: "drive_same d e" and r: "room 2 d" and i: "tree_edge (d_tree d) i \<noteq> None"
  shows "drive_same (hard_delete_one d i) (hard_delete_one e i)"
proof -
  obtain x where x: "tree_edge (d_tree d) i = Some x" using i by auto
  then have y: "tree_edge (d_tree e) i = Some x" by (simp add: drive_same_queries [OF S])
  have n: "i \<noteq> ROOT" "i \<noteq> TRASH" "i \<noteq> LIMBO"
    using x reserved_freeD [OF drive_okD(3) [OF drive_sameD(1) [OF S]]] by (auto simp: tree_edge_def)
  have r1: "room 1 d" and r2: "room 1 (push_new_move d i LIMBO i k)" for k
    using r room_push(1) [of 1 d] by (auto simp: numeral_2_eq_2 elim: room_mono)
  note S1 = push_new_move_same [OF S r1 n, of LIMBO i]
  show ?thesis
    unfolding hard_delete_one_def Let_def drive_same_queries(5) [OF S] drive_same_queries(12) [OF S1]
    using S1 push_content_same [OF S1 r2] by simp
qed

lemma hard_delete_same:
  "drive_same d e \<Longrightarrow> room (2 * length ids) d \<Longrightarrow> \<forall>i \<in> set ids. tree_edge (d_tree d) i \<noteq> None \<Longrightarrow>
    drive_same (hard_delete d ids) (hard_delete e ids)"
proof (induction ids arbitrary: d e)
  case (Cons i ids)
  have r: "room 2 d" using Cons.prems(2) by (auto elim: room_mono)
  obtain x where x: "tree_edge (d_tree d) i = Some x" using Cons.prems(3) by auto
  have "tree_edge (d_tree (hard_delete_one d i)) j \<noteq> None" if "j \<in> set ids" for j
    using Cons.prems(3) that hard_delete_one_effect(1) [OF drive_sameD(1) [OF Cons.prems(1)] r x]
    by (auto simp: tree_edge_def)
  moreover have "room (2 * length ids) (hard_delete_one d i)"
    using Cons.prems(2) by (intro hard_delete_one_room) simp
  ultimately show ?case
    using Cons.IH [OF hard_delete_one_same [OF Cons.prems(1) r]] x by simp
qed simp

lemma trash_edges: "drive_ok d \<Longrightarrow> set ids \<subseteq> set (trash_ids d) \<Longrightarrow> \<forall>i \<in> set ids. tree_edge (d_tree d) i \<noteq> None"
  using trash_ids_iff [OF drive_okD(2), of d] by blast

lemma delete_trashed_same:
  assumes S: "drive_same d e" and r: "room (2 * length (trash d)) d" and ids: "set ids \<subseteq> set (trash_ids d)"
    and len: "length ids \<le> length (trash d)"
  shows "drive_same (hard_delete d ids) (hard_delete e ids)"
  by (rule hard_delete_same [OF S room_mono [OF r] trash_edges [OF drive_sameD(1) [OF S] ids]]) (use len in simp)

lemma empty_trash_same:
  assumes S: "drive_same d e" and r: "room (2 * length (trash d)) d"
  shows "same_with (empty_trash d) (empty_trash e)"
  using delete_trashed_same [OF S r, of "trash_ids d"] by (simp add: empty_trash_def drive_same_queries [OF S] flip: length_trash_ids)

lemma gc_trash_same:
  assumes S: "drive_same d e" and r: "room (2 * length (trash d)) d"
  shows "same_with (gc_trash d now keep) (gc_trash e now keep)"
proof (cases "keep = 0")
  case True
  then show ?thesis using empty_trash_same [OF S r] by (simp add: gc_trash_def)
next
  case False
  let ?v = "gc_victims d (sat_mul (sat_sub now keep) 1000)"
  have v: "gc_victims e (sat_mul (sat_sub now keep) 1000) = ?v"
    by (simp add: gc_victims_def drive_same_queries [OF S])
  show ?thesis
    using False delete_trashed_same [OF S r set_sub_trash] by (simp add: gc_trash_def Let_def v)
qed

section \<open>Compaction\<close>

lemma compact_loop_same: "compact_loop d q a = Some r \<Longrightarrow> drive_same d e \<Longrightarrow> compact_loop e q a = Some r"
proof (induction rule: compact_loop.raw_induct [rotated, consumes 1, case_names loop])
  case (loop f d q a r)
  note S = loop.prems
  have child: "compact_child d = compact_child e"
    by (auto simp: fun_eq_iff compact_child_def drive_same_queries [OF S] drive_sameD(3) [OF S] Let_def)
  have kept: "kept_children (d_tree d) = kept_children (d_tree e)" and dirs: "kept_dirs (d_tree d) = kept_dirs (d_tree e)"
    by (auto simp: fun_eq_iff kept_children_def kept_dirs_def drive_same_queries [OF S])
  show ?case
    using loop.hyps loop.IH S by (subst compact_loop.simps) (auto simp: child kept dirs split: list.splits)
qed

lemma compact_same:
  assumes S: "drive_same d e" and "compact d = Some d1"
  obtains e1 where "compact e = Some e1" and "d_state e1 = d_state d1"
proof -
  obtain a where a: "compact_loop d [ROOT] \<lparr>ca_lamport = 0, ca_moves = [], ca_content = []\<rparr> = Some a"
      "d1 = compacted d a"
    using assms(2) by (auto simp: compact_def compacted_def split: option.splits)
  have "compact e = Some (compacted e a)"
    using compact_loop_same [OF a(1) S] by (simp add: compact_def compacted_def)
  then show thesis
    by (rule that) (simp add: a(2) compacted_def drive_sameD(3) [OF S])
qed

end
