(* ===== verification/CliProps.thy ===== *)
theory CliProps
  imports Cli Reload MaterializeProps
begin

text \<open>
  What the command line guarantees: a save that is interrupted anywhere leaves the old state or the new
  one, every command does on disk what its operation does on a drive kept in memory, and the cursor it
  prints is the cursor it reads.
\<close>

section \<open>Saving and loading\<close>

text \<open>The codecs read back what they wrote.\<close>

definition codec_ok :: "codec \<Rightarrow> bool" where
  "codec_ok cd \<longleftrightarrow>
     (\<forall>st b. cd_serialize cd st = Inr b \<longrightarrow> cd_deserialize cd b = Inr st) \<and>
     (\<forall>b z. cd_compress cd b = Inr z \<longrightarrow> cd_decompress cd z = Inr b)"

lemma lift_codec_Inr [simp]: "lift_codec r = Inr a \<longleftrightarrow> r = Inr a"
  by (simp add: lift_codec_def split: sum.split)

lemma decode_encoded: "codec_ok cd \<Longrightarrow> encode_state cd st = Inr bytes \<Longrightarrow> decode_state cd bytes = Inr st"
proof -
  assume ok: "codec_ok cd" and "encode_state cd st = Inr bytes"
  then obtain b where "cd_serialize cd st = Inr b" and "cd_compress cd (CEDRIVE_MAGIC @ b) = Inr bytes"
    by (auto simp: encode_state_def)
  with ok have "cd_deserialize cd b = Inr st" and "cd_decompress cd bytes = Inr (CEDRIVE_MAGIC @ b)"
    unfolding codec_ok_def by blast+
  then show ?thesis by (simp add: decode_state_def lift_codec_def)
qed

lemma saved:
  "fold (\<lambda>step fs. step fs) (save_steps bytes) fs =
    fs\<lparr>df_state := Some \<lparr>of_bytes = bytes, of_synced = True\<rparr>, df_state_tmp := None, df_legacy := None\<rparr>"
  by (simp add: save_steps_def write_atomic_steps_def state_step_def)

lemma save_load:
  assumes "codec_ok cd" and "encode_state cd st = Inr bytes"
  obtains fs1 where "save_state cd st fs = (fs1, Inr ())" and "load_state cd fs1 = Inr st"
  by (rule that, simp add: save_state_def assms(2)) (simp add: saved load_state_def decode_encoded [OF assms])

section \<open>Crashes\<close>

text \<open>What a crash can make of a file: its bytes if they were synced, the front of them if not.\<close>

fun crash_file :: "'a ofile option \<Rightarrow> 'a ofile option \<Rightarrow> bool" where
  "crash_file None g \<longleftrightarrow> g = None"
| "crash_file (Some f) g \<longleftrightarrow>
     (case g of
        None \<Rightarrow> False
      | Some h \<Rightarrow>
          if of_synced f then h = f
          else of_synced h \<and> of_bytes h = take (length (of_bytes h)) (of_bytes f))"

definition crash_files :: "drive_files \<Rightarrow> drive_files \<Rightarrow> bool" where
  "crash_files fs fs1 \<longleftrightarrow>
     crash_file (df_state fs) (df_state fs1) \<and> crash_file (df_state_tmp fs) (df_state_tmp fs1) \<and>
     df_legacy fs1 = df_legacy fs \<and> crash_file (df_journal fs) (df_journal fs1) \<and>
     crash_file (df_journal_tmp fs) (df_journal_tmp fs1)"

definition settled :: "drive_files \<Rightarrow> bool" where
  "settled fs \<longleftrightarrow> (case df_state fs of Some f \<Rightarrow> of_synced f | None \<Rightarrow> True)"

text \<open>After any number of steps the state file is the old one or the new one, synced either way.\<close>

lemma save_prefix_state:
  "df_state (fold (\<lambda>step fs. step fs) (take k (save_steps bytes)) fs) \<in>
     (if k < 4 then {df_state fs} else {Some \<lparr>of_bytes = bytes, of_synced = True\<rparr>})"
  "k < 4 \<Longrightarrow> df_legacy (fold (\<lambda>step fs. step fs) (take k (save_steps bytes)) fs) = df_legacy fs"
  by (simp_all add: save_steps_def write_atomic_steps_def state_step_def take_Cons' eval_nat_numeral)

lemma crash_settled: "crash_file f g \<Longrightarrow> (case f of Some x \<Rightarrow> of_synced x | None \<Rightarrow> True) \<Longrightarrow> g = f"
  by (cases f; cases g) (auto split: if_splits)


definition demo_codec :: codec where
  "demo_codec =
     \<lparr>cd_serialize = (\<lambda>st. if st = d_state w3 then Inr [3] else if st = d_state w4 then Inr [4] else Inl ''other''),
      cd_deserialize = (\<lambda>b. if b = [3] then Inr (d_state w3) else if b = [4] then Inr (d_state w4) else Inl ''other''),
      cd_compress = Inr, cd_decompress = Inr, cd_legacy = (\<lambda>s. Inl s),
      cd_to_json = (\<lambda>j. Inl []), cd_of_json = (\<lambda>s. Inl s)\<rparr>"

definition demo_files :: drive_files where
  "demo_files = \<lparr>df_state = Some \<lparr>of_bytes = CEDRIVE_MAGIC @ [3], of_synced = True\<rparr>, df_state_tmp = None,
     df_legacy = None, df_journal = None, df_journal_tmp = None\<rparr>"

lemma demo_codec_ok: "codec_ok demo_codec"
  by (auto simp: codec_ok_def demo_codec_def split: if_splits)

lemma demo_load: "load_state demo_codec demo_files = Inr (d_state w3)"
  by (simp add: load_state_def demo_files_def decode_state_def demo_codec_def lift_codec_def CEDRIVE_MAGIC_def)

lemma demo_encode: "encode_state demo_codec (d_state w4) = Inr (CEDRIVE_MAGIC @ [4])"
proof -
  have "d_state w4 \<noteq> d_state w3" by code_simp
  then show ?thesis by (simp add: encode_state_def demo_codec_def lift_codec_def)
qed


section \<open>Commands on disk and in memory\<close>

text \<open>
  What a command does to the files, against what its operation does to the drive they hold: the same error
  and the files as they were, or the same answer and files that hold the operation's result.
\<close>

definition disk_agrees ::
    "codec \<Rightarrow> drive_files \<Rightarrow> cli_error + drive \<times> 'r \<Rightarrow> drive_files \<times> (cli_error + 'r) \<Rightarrow> bool" where
  "disk_agrees cd fs in_memory on_disk \<longleftrightarrow>
     (case in_memory of
        Inl e \<Rightarrow> on_disk = (fs, Inl e)
      | Inr (d, x) \<Rightarrow>
          (case encode_state cd (d_state d) of
             Inl e \<Rightarrow> on_disk = (fs, Inl e)
           | Inr _ \<Rightarrow> (\<exists>fs1. on_disk = (fs1, Inr x) \<and> load_state cd fs1 = Inr (d_state d))))"

abbreviation same_answer :: "drive \<times> 'r \<Rightarrow> drive \<times> 'r \<Rightarrow> bool" where
  "same_answer x y \<equiv> drive_same (fst x) (fst y) \<and> snd x = snd y"

lemma update_agrees:
  assumes ok: "codec_ok cd" and "load_state cd fs = Inr (d_state d)"
    and same: "same_result same_answer (op (from_state (d_state d))) (op d)"
  shows "disk_agrees cd fs (op d) (update_drive cd op fs)"
proof -
  have load: "load cd fs = Inr (from_state (d_state d))"
    using assms(2) by (simp add: load_def)
  show ?thesis
  proof (cases "op d")
    case (Inl e)
    then show ?thesis
      using same by (cases "op (from_state (d_state d))") (simp_all add: disk_agrees_def update_drive_def load)
  next
    case (Inr r)
    then obtain d1 x e1 where d1: "op d = Inr (d1, x)" and e1: "op (from_state (d_state d)) = Inr (e1, x)"
        and S: "drive_same e1 d1"
      using same by (cases r; cases "op (from_state (d_state d))") auto
    show ?thesis
    proof (cases "encode_state cd (d_state d1)")
      case (Inl e)
      then show ?thesis
        using d1 e1 drive_sameD(3) [OF S]
        by (simp add: disk_agrees_def update_drive_def load save_def save_state_def)
    next
      case (Inr bytes)
      obtain fs1 where "save_state cd (d_state d1) fs = (fs1, Inr ())" and "load_state cd fs1 = Inr (d_state d1)"
        by (rule save_load [OF ok Inr])
      then show ?thesis
        using d1 e1 Inr drive_sameD(3) [OF S] by (simp add: disk_agrees_def update_drive_def load save_def)
    qed
  qed
qed

lemma lift_same: "same_result R r s \<Longrightarrow> same_result R (lift_drive r) (lift_drive s)"
  by (cases r; cases s) (simp_all add: lift_drive_def)

text \<open>Making directories on the way to a new file.\<close>

lemma make_components_same:
  "drive_same d e \<Longrightarrow> room (length cs + m) d \<Longrightarrow>
    same_result (\<lambda>x y. fst x = fst y \<and> drive_same (snd x) (snd y) \<and> room m (snd x))
      (make_components cur cs (ctr, d)) (make_components cur cs (ctr, e))"
proof (induction cs arbitrary: cur ctr d e)
  case (Cons c cs)
  note S = Cons.prems(1)
  show ?case
  proof (cases "resolve (d_tree e) (cli_join cur c)")
    case None
    have r: "room 1 d" using Cons.prems(2) by (auto elim: room_mono)
    have next_room: "room (length cs + m) d1" if "mkdir d ctr cur c = Inr (i, d1)" for i d1
      using that Cons.prems(2) by (auto simp: mkdir_Inr intro: room_push(1))
    show ?thesis
      using mkdir_same [OF S r, of ctr cur c] None Cons.IH next_room
      by (cases "mkdir d ctr cur c"; cases "mkdir e ctr cur c") (auto simp: drive_same_queries [OF S] split: prod.splits)
  next
    case (Some n)
    then show ?thesis
      using Cons.IH [OF S room_mono [OF Cons.prems(2)]] by (simp add: drive_same_queries [OF S])
  qed
qed simp

text \<open>A path has no more components than characters.\<close>

lemma length_split_on: "length (split_on c s) \<le> Suc (length s)"
  by (induction s) (auto split: list.splits)

lemma length_trim_matches: "length (trim_matches c s) \<le> length s"
proof -
  have "length (trim_start_matches c t) \<le> length t" and "length (trim_end_matches c t) \<le> length t" for t
    using length_dropWhile_le [of "\<lambda>x. x = c" t] length_dropWhile_le [of "\<lambda>x. x = c" "rev t"]
    by (simp_all add: trim_start_matches_def trim_end_matches_def)
  from order_trans [OF this(2) this(1)] this(1) this(2) order_trans show ?thesis
    unfolding trim_matches_def by metis
qed

lemma ensure_dirs_same:
  assumes S: "drive_same d e" and "room (Suc (length dir) + m) d"
  shows "same_result (\<lambda>x y. fst x = fst y \<and> drive_same (snd x) (snd y) \<and> room m (snd x))
    (ensure_dirs dir (ctr, d)) (ensure_dirs dir (ctr, e))"
proof -
  let ?cs = "filter (\<lambda>c. c \<noteq> []) (split_on (CHR ''/'') (trim_matches (CHR ''/'') dir))"
  have "length ?cs \<le> Suc (length dir)"
    using length_filter_le [of "\<lambda>c. c \<noteq> []" "split_on (CHR ''/'') (trim_matches (CHR ''/'') dir)"]
      length_split_on [of "CHR ''/''" "trim_matches (CHR ''/'') dir"] length_trim_matches [of "CHR ''/''" dir] by linarith
  then have r: "room (length ?cs + m) d" and r': "room m d"
    using assms(2) by (auto elim: room_mono)
  show ?thesis
    using make_components_same [OF S r] S r' by (simp add: ensure_dirs_def drive_same_queries [OF S])
qed

lemma split_path_length: "split_path p = Inr (dir, n) \<Longrightarrow> length dir \<le> Suc (length p)"
proof -
  assume "split_path p = Inr (dir, n)"
  then obtain q where q: "rsplit_once (CHR ''/'') (trim_end_matches (CHR ''/'') p) = Some (q, n)" and "dir = (if q = [] then ''/'' else q)"
    by (auto simp: split_path_def split: option.splits if_splits)
  moreover have "length q \<le> length (trim_end_matches (CHR ''/'') p)"
    using q length_dropWhile_le [of "\<lambda>x. x \<noteq> CHR ''/''" "rev (trim_end_matches (CHR ''/'') p)"]
    by (auto simp: rsplit_once_def split: if_splits)
  moreover have "length (trim_end_matches (CHR ''/'') p) \<le> length p"
    using length_dropWhile_le [of "\<lambda>x. x = CHR ''/''" "rev p"] by (simp add: trim_end_matches_def)
  ultimately show ?thesis by auto
qed

lemma add_op_same:
  assumes S: "drive_same d e" and r: "room (length (add_dest src_name dest) + 4) d"
  shows "same_result same_answer (add_op stored src_name dest d) (add_op stored src_name dest e)"
proof (cases stored)
  case (Inr sf)
  show ?thesis
  proof (cases "split_path (add_dest src_name dest)")
    case (Inr pn)
    obtain dir n where pn: "pn = (dir, n)" by (cases pn)
    have "room (Suc (length dir) + 2) d"
      using r split_path_length [of "add_dest src_name dest" dir n] Inr pn by (auto elim: room_mono)
    note E = lift_same [OF ensure_dirs_same [OF S this, of 0]]
    show ?thesis
      unfolding add_op_def \<open>stored = Inr sf\<close> Inr pn
      using E by (auto intro!: same_bind_rel [OF E] same_bind_rel [OF lift_same [OF add_file_same]])
  qed (simp add: add_op_def Inr)
qed (simp add: add_op_def)

lemma mv_op_same: "drive_same d e \<Longrightarrow> room 1 d \<Longrightarrow> same_result same_answer (mv_op s dest d) (mv_op s dest e)"
  unfolding mv_op_def
  by (cases "split_path dest") (auto intro!: same_bind_rel [OF lift_same [OF mv_same]])

lemma rm_op_same: "drive_same d e \<Longrightarrow> room 1 d \<Longrightarrow> same_result same_answer (rm_op p d) (rm_op p e)"
  unfolding rm_op_def by (rule same_bind_rel [OF lift_same [OF rm_same]]) simp_all

lemma restore_op_same:
  "drive_same d e \<Longrightarrow> room 1 d \<Longrightarrow> i \<noteq> TRASH \<Longrightarrow> same_result same_answer (restore_op i pp nm d) (restore_op i pp nm e)"
  unfolding restore_op_def
  by (rule same_bind_rel [OF lift_same [OF restore_same]]) (simp_all add: path_of_def drive_same_queries)

lemma empty_trash_op_same:
  assumes S: "drive_same d e" and r: "room (2 * length (trash d)) d"
  shows "same_result same_answer (empty_trash_op now keep d) (empty_trash_op now keep e)"
  using empty_trash_same [OF S r] gc_trash_same [OF S r, of now keep]
  by (simp add: empty_trash_op_def Let_def split_beta)

lemma compact_agrees:
  assumes "codec_ok cd" and "load_state cd fs = Inr (d_state d)" and "drive_ok d"
  shows "\<exists>d1 out. compact d = Some d1 \<and> cmd_compact cd fs = Some out \<and>
    disk_agrees cd fs (Inr (d1, op_count d, op_count d1)) out"
proof -
  note S = from_state_same [OF assms(3)]
  have load: "load cd fs = Inr (from_state (d_state d))"
    using assms(2) by (simp add: load_def)
  obtain a where a: "compact d = Some (compacted d a)" by (rule compact_returns [OF assms(3)])
  obtain e1 where e1: "compact (from_state (d_state d)) = Some e1" "d_state e1 = d_state (compacted d a)"
  proof -
    obtain b where "compact (from_state (d_state d)) = Some (compacted (from_state (d_state d)) b)"
      by (rule compact_returns [OF drive_sameD(1) [OF S]])
    from compact_same [OF S this] a that this show thesis by (metis option.inject)
  qed
  have "\<exists>out. cmd_compact cd fs = Some out \<and> disk_agrees cd fs (Inr (compacted d a, op_count d, op_count (compacted d a))) out"
  proof (cases "encode_state cd (d_state (compacted d a))")
    case (Inl e)
    then show ?thesis
      by (simp add: cmd_compact_def load e1 save_def save_state_def disk_agrees_def)
  next
    case (Inr bytes)
    obtain fs1 where "save_state cd (d_state (compacted d a)) fs = (fs1, Inr ())"
        and "load_state cd fs1 = Inr (d_state (compacted d a))"
      by (rule save_load [OF assms(1) Inr])
    then show ?thesis
      using Inr by (simp add: cmd_compact_def load e1 save_def disk_agrees_def op_count_def)
  qed
  with a show ?thesis by blast
qed

text \<open>
  C33. The command line refines the drive kept in memory: on files that hold the state of a well-formed
  drive with room on its clock, each of add, mv, rm, restore (of a node other than the trash), empty-trash
  and compact, which load the state, apply the operation and save, gives the answer or error the operation
  gives on that drive, leaves the files alone on an error, and otherwise leaves files that hold the
  operation's result.
\<close>

theorem commands_refine_memory:
  assumes "codec_ok cd" and "load_state cd fs = Inr (d_state d)" and "drive_ok d"
    and "room (length (add_dest src_name dest) + 4 + 2 * length (trash d)) d" and "i \<noteq> TRASH"
  shows "disk_agrees cd fs (add_op stored src_name dest d) (cmd_add cd stored src_name dest fs) \<and>
    disk_agrees cd fs (mv_op src dst d) (cmd_mv cd src dst fs) \<and>
    disk_agrees cd fs (rm_op p d) (cmd_rm cd p fs) \<and>
    disk_agrees cd fs (restore_op i to_dir nm d) (cmd_restore cd i to_dir nm fs) \<and>
    disk_agrees cd fs (empty_trash_op now keep d) (cmd_empty_trash cd now keep fs) \<and>
    (\<exists>d1 out. compact d = Some d1 \<and> cmd_compact cd fs = Some out \<and>
       disk_agrees cd fs (Inr (d1, op_count d, op_count d1)) out)"
proof -
  note S = from_state_same [OF assms(3)]
  have room: "n \<le> length (add_dest src_name dest) + 4 + 2 * length (trash d) \<Longrightarrow> room n (from_state (d_state d))" for n
    using room_mono [OF assms(4)] drive_sameD(6) [OF S] by blast
  have "length (trash (from_state (d_state d))) = length (trash d)"
    using arg_cong [OF drive_same_queries(13) [OF S], of length] by (simp only: length_trash_ids)
  then have rt: "room (2 * length (trash (from_state (d_state d)))) (from_state (d_state d))"
    using room [of "2 * length (trash d)"] by simp
  note agree = update_agrees [OF assms(1,2)]
  show ?thesis
    using compact_agrees [OF assms(1-3)] agree [where op = "add_op stored src_name dest", OF add_op_same [OF S room]]
      agree [where op = "mv_op src dst", OF mv_op_same [OF S room]]
      agree [where op = "rm_op p", OF rm_op_same [OF S room]]
      agree [where op = "restore_op i to_dir nm", OF restore_op_same [OF S room assms(5)]]
      agree [where op = "empty_trash_op now keep", OF empty_trash_op_same [OF S rt]]
    by (simp add: cmd_add_def cmd_mv_def cmd_rm_def cmd_restore_def cmd_empty_trash_def)
qed

theorem commands_refine_memory_witness:
  "\<exists>fs1. cmd_rm demo_codec ''/docs'' demo_files = (fs1, Inr ()) \<and> load_state demo_codec fs1 = Inr (d_state w4)"
proof -
  have room: "room (length (add_dest (Some ''a'') None) + 4 + 2 * length (trash w3)) w3"
  proof -
    have "length (trash w3) = 0" and "length (add_dest (Some ''a'') None) = 2" by code_simp+
    then show ?thesis by simp
  qed
  have i: "id_docs \<noteq> TRASH"
    by code_simp
  have "disk_agrees demo_codec demo_files (rm_op ''/docs'' w3) (cmd_rm demo_codec ''/docs'' demo_files)"
    by (rule commands_refine_memory [OF demo_codec_ok demo_load demo_ok(4) room i, THEN conjunct2, THEN conjunct2, THEN conjunct1])
  moreover have "rm w3 ''/docs'' = Inr w4"
  proof -
    have "\<not> isl (rm w3 ''/docs'')" by code_simp
    then show ?thesis unfolding w4_def by (cases "rm w3 ''/docs''") simp_all
  qed
  ultimately show ?thesis
    using demo_encode by (simp add: disk_agrees_def rm_op_def lift_drive_def)
qed

section \<open>The cursor of the change feed\<close>

lemma read_digits_snoc:
  "read_digits acc (s @ [c]) = Option.bind (read_digits acc s) (\<lambda>a. read_digits a [c])"
  by (induction s arbitrary: acc) (simp_all add: Let_def)

lemma read_digit_char: "m < 10 \<Longrightarrow> read_digits a [digit_char m] = Some (a * 10 + m)"
  by (simp add: digit_char_def Let_def)

lemma read_digits_base: "read_digits 0 (digits_base 10 n) = Some n"
proof (induction n rule: less_induct)
  case (less n)
  show ?case
  proof (cases "n < 10")
    case True
    then show ?thesis by (subst digits_base.simps) (simp add: read_digit_char del: read_digits.simps)
  next
    case False
    then have "read_digits 0 (digits_base 10 (n div 10)) = Some (n div 10)" by (intro less.IH) simp
    with False show ?thesis
      by (subst digits_base.simps) (simp add: read_digits_snoc read_digit_char del: read_digits.simps)
  qed
qed

lemma read_digits_all: "read_digits acc s \<noteq> None \<Longrightarrow> c \<in> set s \<Longrightarrow> 48 \<le> (of_char c :: nat) \<and> (of_char c :: nat) \<le> 57"
  by (induction s arbitrary: acc) (auto simp: Let_def split: if_splits)

lemma dec_string_chars: "c \<in> set (dec_string l) \<Longrightarrow> c \<noteq> CHR '':'' \<and> c \<noteq> CHR ''+''"
  using read_digits_all [of 0 "dec_string l" c] by (auto simp: dec_string_def read_digits_base)

lemma parse_dec_string: "parse_u64 (dec_string l) = Some l"
proof -
  have ne: "dec_string l \<noteq> []"
    by (simp add: dec_string_def digits_base.simps [of 10])
  then have "\<not> starts_with (dec_string l) ''+''"
    using dec_string_chars [of "hd (dec_string l)" l] by (cases "dec_string l") (auto simp: starts_with_iff)
  moreover have "read_digits 0 (dec_string l) = Some (unat l)"
    by (simp add: dec_string_def read_digits_base)
  moreover have "unat l < 2 ^ 64"
    using unsigned_less [of l, where ?'a = nat] by simp
  ultimately show ?thesis
    using ne by (simp add: parse_u64_def Let_def)
qed

lemma split_once_first: "c \<notin> set a \<Longrightarrow> split_once c (a @ c # b) = Some (a, b)"
  by (induction a) (auto simp: split_once_def)

text \<open>
  The cursor text is faithful: what \<open>changes\<close> prints as the next cursor is read back by \<open>--since\<close> as that
  cursor, whatever the replica's name; a page printed, resumed with its cursor, continues where the feed
  of the core continues.
\<close>

theorem cursor_text_roundtrip:
  "parse_since (next_text cur) = Inr cur \<and>
   (case cmd_changes cd since limit fs of
      Inl e \<Rightarrow> True
    | Inr (changes, text) \<Rightarrow>
        (case parse_since since of
           Inr from_cur \<Rightarrow>
             cmd_changes cd text limit fs =
               res_bind (load cd fs) (\<lambda>d.
                 let (more, next_cur) = changes_since d (snd (changes_since d from_cur limit)) limit in
                 Inr (more, next_text next_cur))
         | Inl _ \<Rightarrow> False))"
proof -
  have rt: "parse_since (next_text cur) = Inr cur" for cur :: cursor
  proof (cases "cur_last cur")
    case None
    then show ?thesis by (cases cur) (simp add: next_text_def parse_since_def cursor_beginning_def)
  next
    case (Some ts)
    have "CHR '':'' \<notin> set (dec_string (lamport ts))"
      using dec_string_chars by blast
    from split_once_first [OF this, of "replica ts"] Some show ?thesis
      by (cases cur; cases ts) (simp add: next_text_def parse_since_def parse_dec_string cursor_at_def)
  qed
  show ?thesis
    using rt by (cases "load cd fs"; cases "parse_since since") (simp_all add: cmd_changes_def split_beta Let_def)
qed

section \<open>What goes wrong\<close>

text \<open>
  \<open>history\<close> falls back to the revocations of the journal when the node cannot be asked; but \<open>render\<close> never
  fails, so the fallback is never taken and offline every share shows as not revoked.
\<close>

theorem history_never_falls_back:
  "case cmd_history cd (Inl err) now fs of
     Inr es \<Rightarrow> list_all (\<lambda>e. \<not> ae_revoked e) es
   | Inl _ \<Rightarrow> True"
  by (cases "load_journal cd fs") (simp_all add: cmd_history_def render_audit_def list_all_iff)

text \<open>
  \<open>sync\<close> asks the node for the empty content id of a file that was created and never written, so it fails
  where \<open>materialize\<close> succeeds.
\<close>

definition empty_file :: drive where
  "empty_file = snd (projr (add_file w0 0 ''/'' ''a'' (fc_new [] 0 0 0)))"

theorem sync_fails_on_empty_files:
  "(case materialize empty_file demo_get [''out''] fmempty of Some (_, r) \<Rightarrow> r = Inr () | None \<Rightarrow> False) \<and>
   (case sync_dir 3 empty_file demo_get ''/'' [''out''] (fmap_of_list [([''out''], DiskDir)], 0) of
      Some (_, Inl e) \<Rightarrow> e = MirrorFailed (mirror_error.FetchFailed ''a'' ''no such object'')
    | _ \<Rightarrow> False)"
  by code_simp

text \<open>
  \<open>push --watch\<close> saves only when a file changed: a new empty directory changes the drive in memory and no
  counter, so it is not saved.
\<close>

theorem watch_forgets_new_directories:
  "case push_drive same_put (\<lambda>_. (0, 0)) (fmap_of_list [([''out''], DiskDir), ([''out'', ''new''], DiskDir)]) [''out''] 0 w0 (0 :: nat) of
     Some (st, Inr _) \<Rightarrow> resolve (d_tree (ps_drive st)) ''/new'' \<noteq> None \<and> ps_changed st = 0 \<and> ps_removed st = 0
   | _ \<Rightarrow> False"
  by code_simp

end
