(* ===== verification/CliMain.thy ===== *)
theory CliMain
  imports CliProps Fuse
begin

text \<open>
  The program as a whole, \<open>crates/ce-drive-cli/src/main.rs\<close>: its command line, what \<open>main\<close> does for each
  command to the files of a drive, the watching push and the mount, and sessions of many runs. What a
  command reads from outside (the local files, the node, the identity, the clock, the kernel) is a
  \<open>world\<close>, one per run.
\<close>

section \<open>The command line\<close>

datatype cmd =
    CmdInit
  | CmdAdd string "string option"
  | CmdLs string
  | CmdTree
  | CmdMv string string
  | CmdRm string
  | CmdHistory
  | CmdShare string "string option" string bool "string option" u64
  | CmdSync string
  | CmdMaterialize string
  | CmdPush string bool u64
  | CmdMount string
  | CmdTrash
  | CmdRestore node_id "string option" "string option"
  | CmdEmptyTrash u64
  | CmdSearch string nat
  | CmdChanges "string option" nat
  | CmdConflicts
  | CmdCompact

text \<open>
  \<open>wo_put_file\<close> is what \<open>Store::put_file\<close> answers for a local file, \<open>wo_polls\<close> are the directories a
  watching push sees until it is stopped, \<open>wo_fuse\<close> says whether the build has the \<open>fuse\<close> feature and
  \<open>wo_make_dir\<close> whether the mountpoint can be created.
\<close>

record ('cap, 's) world =
  wo_codec :: codec
  wo_name :: string
  wo_owner :: string
  wo_put_file :: "string \<Rightarrow> store_error + stored_file"
  wo_file_name :: "string \<Rightarrow> string option"
  wo_now :: u64
  wo_nows :: "u64 \<times> u64 \<times> u64"
  wo_hex_decode :: "string \<Rightarrow> id_bytes option"
  wo_issue :: "id_bytes \<Rightarrow> string list \<Rightarrow> caveats \<Rightarrow> u64 \<Rightarrow> 'cap"
  wo_encode_chain :: "'cap list \<Rightarrow> string"
  wo_put_bytes :: "'s Materialize.put_bytes"
  wo_stat :: stat
  wo_path :: "string \<Rightarrow> os_path"
  wo_store :: 's
  wo_disk :: disk
  wo_polls :: "disk list"
  wo_fuse :: bool
  wo_make_dir :: "string \<Rightarrow> bool"
  wo_session :: session

section \<open>Watching and mounting\<close>

text \<open>
  \<open>materialize::watch\<close> with the callback of \<open>push --watch\<close>: push, call back, sleep, for ever; a push that
  fails ends it. The drive, the store and the counter of fresh ids live on between the polls.
\<close>

fun watch ::
    "codec \<Rightarrow> 's Materialize.put_bytes \<Rightarrow> stat \<Rightarrow> os_path \<Rightarrow> disk list \<Rightarrow> u64 \<Rightarrow> drive \<Rightarrow> 's \<Rightarrow> drive_files \<Rightarrow>
     drive_files option" where
  "watch cd put stat src [] ctr d s fs = Some fs"
| "watch cd put stat src (disk # polls) ctr d s fs =
     (case push_drive put stat disk src ctr d s of
        None \<Rightarrow> None
      | Some (st, Inl e) \<Rightarrow> Some fs
      | Some (st, Inr _) \<Rightarrow> watch cd put stat src polls (ps_ctr st) (ps_drive st) (ps_store st) (on_push cd st fs))"

definition cmd_push_watch ::
    "codec \<Rightarrow> 's Materialize.put_bytes \<Rightarrow> stat \<Rightarrow> os_path \<Rightarrow> disk list \<Rightarrow> 's \<Rightarrow> drive_files \<Rightarrow> drive_files option" where
  "cmd_push_watch cd put stat src polls s fs =
     (case load cd fs of Inl e \<Rightarrow> Some fs | Inr d \<Rightarrow> watch cd put stat src polls 0 d s fs)"

datatype mount_command_error =
    LoadFailed cli_error
  | MountpointFailed
  | NoMountDriver
  | SessionFailed mount_error

text \<open>A mount saves what the kernel session leaves; a failed save is a warning.\<close>

definition cmd_mount ::
    "codec \<Rightarrow> bool \<Rightarrow> (string \<Rightarrow> bool) \<Rightarrow> session \<Rightarrow> string \<Rightarrow> string \<Rightarrow> drive_files \<Rightarrow>
     drive_files \<times> (mount_command_error + unit)" where
  "cmd_mount cd fuse make_dir session name mountpoint fs =
     (case load cd fs of
        Inl e \<Rightarrow> (fs, Inl (LoadFailed e))
      | Inr d \<Rightarrow>
          if \<not> fuse then (fs, Inl NoMountDriver)
          else if \<not> make_dir mountpoint then (fs, Inl MountpointFailed)
          else
            (case linux_mount session (vfs_new d) mountpoint name of
               Inl e \<Rightarrow> (fs, Inl (SessionFailed e))
             | Inr st \<Rightarrow> (fst (save_state cd st fs), Inr ())))"

section \<open>The main function\<close>

text \<open>What a command leaves in the files of the drive; \<open>None\<close> is a command that does not end.\<close>

definition main_files :: "('cap, 's) world \<Rightarrow> cmd \<Rightarrow> drive_files \<Rightarrow> drive_files option" where
  "main_files w c fs =
     (let cd = wo_codec w in
      case c of
        CmdInit \<Rightarrow> Some (fst (cmd_init cd (wo_name w) (wo_owner w) fs))
      | CmdAdd src dest \<Rightarrow> Some (fst (cmd_add cd (wo_put_file w src) (wo_file_name w src) dest fs))
      | CmdMv src dest \<Rightarrow> Some (fst (cmd_mv cd src dest fs))
      | CmdRm p \<Rightarrow> Some (fst (cmd_rm cd p fs))
      | CmdShare p to ability link holder days \<Rightarrow>
          Some (fst (cmd_share cd (wo_hex_decode w) (wo_issue w) (wo_encode_chain w) (wo_owner w) (wo_nows w)
                  p to ability link holder days fs))
      | CmdPush dir watching interval \<Rightarrow>
          if watching then cmd_push_watch cd (wo_put_bytes w) (wo_stat w) (wo_path w dir) (wo_polls w) (wo_store w) fs
          else map_option fst (cmd_push cd (wo_put_bytes w) (wo_stat w) (wo_disk w) (wo_path w dir) (wo_store w) fs)
      | CmdMount mountpoint \<Rightarrow>
          Some (fst (cmd_mount cd (wo_fuse w) (wo_make_dir w) (wo_session w) (wo_name w) mountpoint fs))
      | CmdRestore i to name \<Rightarrow> Some (fst (cmd_restore cd i to name fs))
      | CmdEmptyTrash older_than \<Rightarrow> Some (fst (cmd_empty_trash cd (wo_now w) older_than fs))
      | CmdCompact \<Rightarrow> map_option fst (cmd_compact cd fs)
      | _ \<Rightarrow> Some fs)"

section \<open>Sessions\<close>

text \<open>
  Room on the clock for a command (and not the trash itself to restore); pushes and mounts, which do
  whatever the directory or the kernel asks, are not part of a session.
\<close>

definition cmd_room :: "('cap, 's) world \<Rightarrow> cmd \<Rightarrow> drive \<Rightarrow> bool" where
  "cmd_room w c d \<longleftrightarrow>
     (case c of
        CmdAdd src dest \<Rightarrow> room (length (add_dest (wo_file_name w src) dest) + 4) d
      | CmdMv _ _ \<Rightarrow> room 1 d
      | CmdRm _ \<Rightarrow> room 1 d
      | CmdRestore i _ _ \<Rightarrow> room 1 d \<and> i \<noteq> TRASH
      | CmdEmptyTrash _ \<Rightarrow> room (2 * length (trash d)) d
      | CmdCompact \<Rightarrow> op_count (the (compact d)) < 2 ^ 64
      | CmdPush _ _ _ \<Rightarrow> False
      | CmdMount _ \<Rightarrow> False
      | _ \<Rightarrow> True)"

text \<open>A session is a list of runs, each in a world of its own; it is ready if every run has room for its command.\<close>

fun run_all :: "(('cap, 's) world \<times> cmd) list \<Rightarrow> drive_files \<Rightarrow> drive_files option" where
  "run_all [] fs = Some fs"
| "run_all ((w, c) # runs) fs = Option.bind (main_files w c fs) (run_all runs)"

fun session_ready :: "codec \<Rightarrow> (('cap, 's) world \<times> cmd) list \<Rightarrow> drive_files \<Rightarrow> bool" where
  "session_ready cd [] fs \<longleftrightarrow> True"
| "session_ready cd ((w, c) # runs) fs \<longleftrightarrow>
     wo_codec w = cd \<and> (case load cd fs of Inl _ \<Rightarrow> False | Inr d \<Rightarrow> cmd_room w c d) \<and>
     (case main_files w c fs of None \<Rightarrow> True | Some fs1 \<Rightarrow> session_ready cd runs fs1)"

text \<open>Each operation of a command is a run of drive steps.\<close>

abbreviation drive_steps :: "drive \<Rightarrow> drive \<Rightarrow> bool" where
  "drive_steps \<equiv> drive_step\<^sup>*\<^sup>*"

lemma lift_drive_Inr [simp]: "lift_drive r = Inr a \<longleftrightarrow> r = Inr a"
  by (simp add: lift_drive_def split: sum.split)

lemma make_components_steps:
  "room (length cs + m) d \<Longrightarrow> make_components cur cs (ctr, d) = Inr (ctr1, d1) \<Longrightarrow> drive_steps d d1 \<and> room m d1"
proof (induction cs arbitrary: cur ctr d)
  case (Cons c cs)
  show ?case
  proof (cases "resolve (d_tree d) (cli_join cur c)")
    case None
    then obtain i e where e: "mkdir d ctr cur c = Inr (i, e)"
      and rest: "make_components (cli_join cur c) cs (ctr + 1, e) = Inr (ctr1, d1)"
      using Cons.prems(2) by (auto split: sum.splits prod.splits)
    have "room 1 d" and "room (length cs + m) e"
      using Cons.prems(1) e by (auto simp: mkdir_Inr intro: room_push(1) elim: room_mono)
    then show ?thesis
      using Cons.IH [OF _ rest] step_mkdir [OF _ e] by (auto intro: converse_rtranclp_into_rtranclp)
  next
    case (Some n)
    then show ?thesis
      using Cons.IH [of d "cli_join cur c" ctr] Cons.prems room_mono [OF Cons.prems(1)] by simp
  qed
qed simp

lemma ensure_dirs_steps:
  assumes "room (Suc (length dir) + m) d" and "ensure_dirs dir (ctr, d) = Inr (ctr1, d1)"
  shows "drive_steps d d1 \<and> room m d1"
proof -
  let ?cs = "filter (\<lambda>c. c \<noteq> []) (split_on (CHR ''/'') (trim_matches (CHR ''/'') dir))"
  have "length ?cs \<le> Suc (length dir)"
    using length_filter_le [of "\<lambda>c. c \<noteq> []" "split_on (CHR ''/'') (trim_matches (CHR ''/'') dir)"]
      length_split_on [of "CHR ''/''" "trim_matches (CHR ''/'') dir"] length_trim_matches [of "CHR ''/''" dir] by linarith
  then have "room (length ?cs + m) d" and "room m d"
    using assms(1) by (auto elim: room_mono)
  then show ?thesis
    using make_components_steps assms(2) by (auto simp: ensure_dirs_def split: if_splits)
qed

lemma mv_op_steps: "room 1 d \<Longrightarrow> mv_op s dst d = Inr (d1, x) \<Longrightarrow> drive_steps d d1"
  by (auto simp: mv_op_def intro!: r_into_rtranclp intro: step_mv)

lemma rm_op_steps: "room 1 d \<Longrightarrow> rm_op p d = Inr (d1, x) \<Longrightarrow> drive_steps d d1"
  by (auto simp: rm_op_def intro!: r_into_rtranclp intro: step_rm)

lemma restore_op_steps: "room 1 d \<Longrightarrow> i \<noteq> TRASH \<Longrightarrow> restore_op i pp nm d = Inr (d1, x) \<Longrightarrow> drive_steps d d1"
  by (auto simp: restore_op_def intro!: r_into_rtranclp intro: step_restore)

lemma empty_trash_op_steps:
  "room (2 * length (trash d)) d \<Longrightarrow> empty_trash_op now keep d = Inr (d1, x) \<Longrightarrow> drive_steps d d1"
  using step_empty_trash [of d] step_gc_trash [of d now keep]
  by (auto simp: empty_trash_op_def Let_def split_beta split: if_splits)

lemma add_op_steps:
  assumes "room (length (add_dest src_name dest) + 4) d" and "add_op stored src_name dest d = Inr (d1, x)"
  shows "drive_steps d d1"
proof -
  obtain sf :: stored_file and parent name ctr e i where split: "split_path (add_dest src_name dest) = Inr (parent, name)"
    and e: "ensure_dirs parent (0, d) = Inr (ctr, e)" and f: "add_file e ctr parent name (sf_content sf) = Inr (i, d1)"
    using assms(2) by (auto simp: add_op_def split: sum.splits prod.splits)
  have "room (Suc (length parent) + 2) d"
    using assms(1) split_path_length [OF split] by (auto elim: room_mono)
  from ensure_dirs_steps [OF this e] have "drive_steps d e" and "room 2 e" by simp_all
  then show ?thesis
    using step_add_file [OF _ f] by (auto intro: rtranclp.rtrancl_into_rtrancl)
qed

text \<open>So the files a command leaves hold a drive some steps further.\<close>

definition holds :: "codec \<Rightarrow> drive_files \<Rightarrow> drive \<Rightarrow> bool" where
  "holds cd fs d \<longleftrightarrow> load_state cd fs = Inr (d_state d)"

lemma agrees_holds:
  assumes "disk_agrees cd fs r out" and "holds cd fs d" and "\<And>d1 x. r = Inr (d1, x) \<Longrightarrow> drive_steps d d1"
  shows "\<exists>d1. holds cd (fst out) d1 \<and> drive_steps d d1"
proof (cases r)
  case (Inl e)
  then show ?thesis using assms(1,2) by (auto simp: disk_agrees_def)
next
  case (Inr p)
  obtain d1 x where p: "p = (d1, x)" by (cases p)
  show ?thesis
  proof (cases "encode_state cd (d_state d1)")
    case (Inl e)
    then show ?thesis using assms(1,2) Inr p by (auto simp: disk_agrees_def)
  next
    case (Inr b)
    then show ?thesis
      using assms(1,3) \<open>r = Inr p\<close> p by (auto simp: disk_agrees_def holds_def)
  qed
qed

lemma share_keeps_state: "load_state cd (fst (cmd_share cd hex iss enc me nows p to ab link holder days fs)) = load_state cd fs"
proof -
  have "df_state (fst (save_journal cd j fs)) = df_state fs" and "df_legacy (fst (save_journal cd j fs)) = df_legacy fs" for j
    by (simp_all add: save_journal_def split: sum.split prod.split)
  then have journal: "load_state cd (fst (save_journal cd j fs)) = load_state cd fs" for j
    by (simp only: load_state_def)
  show ?thesis
    unfolding cmd_share_def using journal
    by (auto split: prod.split sum.split) (metis fst_conv)+
qed

lemma holds_load: "holds cd fs d \<Longrightarrow> load cd fs = Inr (from_state (d_state d))"
  by (simp add: holds_def load_def)

lemma holds_exists: "holds cd fs d \<Longrightarrow> state_exists fs"
  by (auto simp: holds_def load_state_def state_exists_def split: option.splits)

lemma agreeing:
  assumes "disk_agrees cd fs r out" and "\<And>d1 x. r = Inr (d1, x) \<Longrightarrow> drive_steps d d1"
    and "holds cd fs d" and "main_files w c fs = Some (fst out)"
  shows "\<exists>fs1 d1. main_files w c fs = Some fs1 \<and> holds cd fs1 d1 \<and> drive_steps d d1"
proof -
  have "\<exists>d1. holds cd (fst out) d1 \<and> drive_steps d d1"
    by (rule agrees_holds [OF assms(1,3)]) (rule assms(2))
  with assms(4) show ?thesis by blast
qed

lemma run_holds:
  assumes cd: "codec_ok cd" and h: "holds cd fs d" and ok: "drive_ok d" and w: "wo_codec w = cd"
    and room: "cmd_room w c (from_state (d_state d))"
  shows "\<exists>fs1 d1. main_files w c fs = Some fs1 \<and> holds cd fs1 d1 \<and> drive_steps d d1"
proof -
  note S = from_state_same [OF ok]
  note R = drive_sameD(6) [OF S]
  note agree = update_agrees [OF cd h [unfolded holds_def]]
  have len: "length (trash (from_state (d_state d))) = length (trash d)"
    using arg_cong [OF drive_same_queries(13) [OF S], of length] by (simp only: length_trash_ids)
  have same: ?thesis if "main_files w c fs = Some fs"
    using that h by blast
  show ?thesis
  proof (cases c)
    case CmdInit
    then show ?thesis
      using same holds_exists [OF h] by (simp add: main_files_def cmd_init_def)
  next
    case (CmdAdd src dest)
    then have r: "room (length (add_dest (wo_file_name w src) dest) + 4) d"
      using room R by (simp add: cmd_room_def)
    show ?thesis
      by (rule agreeing [OF agree [OF add_op_same [OF S]] add_op_steps [OF r] h])
        (use CmdAdd w r R in \<open>simp_all add: main_files_def cmd_add_def Let_def\<close>)
  next
    case (CmdMv src dest)
    then have r: "room 1 d" using room R by (simp add: cmd_room_def)
    show ?thesis
      by (rule agreeing [OF agree [OF mv_op_same [OF S]] mv_op_steps [OF r] h])
        (use CmdMv w r R in \<open>simp_all add: main_files_def cmd_mv_def Let_def\<close>)
  next
    case (CmdRm p)
    then have r: "room 1 d" using room R by (simp add: cmd_room_def)
    show ?thesis
      by (rule agreeing [OF agree [OF rm_op_same [OF S]] rm_op_steps [OF r] h])
        (use CmdRm w r R in \<open>simp_all add: main_files_def cmd_rm_def Let_def\<close>)
  next
    case (CmdRestore i to nm)
    then have r: "room 1 d" and i: "i \<noteq> TRASH" using room R by (simp_all add: cmd_room_def)
    show ?thesis
      by (rule agreeing [OF agree [OF restore_op_same [OF S _ i]] restore_op_steps [OF r i] h])
        (use CmdRestore w r R in \<open>simp_all add: main_files_def cmd_restore_def Let_def\<close>)
  next
    case (CmdEmptyTrash keep)
    then have r: "room (2 * length (trash d)) d" using room R len by (simp add: cmd_room_def)
    show ?thesis
      by (rule agreeing [OF agree [OF empty_trash_op_same [OF S]] empty_trash_op_steps [OF r] h])
        (use CmdEmptyTrash w r R len in \<open>simp_all add: main_files_def cmd_empty_trash_def Let_def\<close>)
  next
    case (CmdShare p to ab link holder days)
    then obtain fs1 where "main_files w c fs = Some fs1" and "load_state cd fs1 = load_state cd fs"
      by (simp add: main_files_def Let_def w share_keeps_state)
    then show ?thesis
      using h by (auto simp: holds_def)
  next
    case CmdCompact
    obtain d1 out where c: "compact d = Some d1" "cmd_compact cd fs = Some out"
      and agrees: "disk_agrees cd fs (Inr (d1, op_count d, op_count d1)) out"
      using compact_agrees [OF cd h [unfolded holds_def] ok] by blast
    obtain e1 where "compact (from_state (d_state d)) = Some e1" and "d_state d1 = d_state e1"
      using compact_returns [OF drive_sameD(1) [OF S]] compact_same [OF S] c(1) by (metis option.inject)
    then have "op_count d1 < 2 ^ 64"
      using room CmdCompact by (simp add: cmd_room_def op_count_def)
    with c(1) have "drive_steps d d1"
      by (intro r_into_rtranclp step_compact)
    then show ?thesis
      by (intro agreeing [OF agrees _ h]) (use CmdCompact c(2) w in \<open>auto simp: main_files_def Let_def\<close>)
  qed (use room same in \<open>simp_all add: main_files_def cmd_room_def Let_def\<close>)
qed

lemma session_holds:
  assumes "codec_ok cd"
  shows "holds cd fs d \<Longrightarrow> drive_ok d \<Longrightarrow> session_ready cd runs fs \<Longrightarrow>
    \<exists>fs1 d1. run_all runs fs = Some fs1 \<and> holds cd fs1 d1 \<and> drive_steps d d1"
proof (induction runs arbitrary: fs d)
  case (Cons run runs)
  obtain w c where run: "run = (w, c)" by (cases run)
  have "wo_codec w = cd" and "cmd_room w c (from_state (d_state d))"
    using Cons.prems(1,3) run by (simp_all add: holds_load)
  from run_holds [OF assms Cons.prems(1,2) this]
  obtain fs1 d1 where f: "main_files w c fs = Some fs1" "holds cd fs1 d1" "drive_steps d d1" by blast
  have "drive_ok d1"
    using f(3) Cons.prems(2) by (induction rule: rtranclp_induct) (simp_all add: drive_step_ok)
  with Cons.IH [OF f(2)] Cons.prems(3) run f(1,3) show ?case
    by (auto intro: rtranclp_trans)
qed auto

section \<open>Properties\<close>


text \<open>A session of three runs: a file is added below a new directory, a missing path is removed, the root is listed.\<close>

definition sent :: stored_file where
  "sent = \<lparr>sf_content = fc ''c1'' 5, sf_manifest = \<lparr>mf_kind = ''file'', mf_chunk_size = 4, mf_total_size = 1, mf_chunks = [''c1'']\<rparr>, sf_file_cid = ''c1'', sf_uploaded = 1\<rparr>"

definition d_added :: drive where
  "d_added = fst (projr (add_op (Inr sent) None (Some ''/docs/a.md'') (from_state (d_state w0))))"

definition session_codec :: codec where
  "session_codec =
     \<lparr>cd_serialize = (\<lambda>st. if st = d_state w0 then Inr [3] else if st = d_state d_added then Inr [4] else Inl ''other''),
      cd_deserialize = (\<lambda>b. if b = [3] then Inr (d_state w0) else if b = [4] then Inr (d_state d_added) else Inl ''other''),
      cd_compress = Inr, cd_decompress = Inr, cd_legacy = (\<lambda>s. Inl s),
      cd_to_json = (\<lambda>j. Inl []), cd_of_json = (\<lambda>s. Inl s)\<rparr>"

definition session_world :: "(unit, unit) world" where
  "session_world =
     \<lparr>wo_codec = session_codec, wo_name = ''work'', wo_owner = ''dev1'', wo_put_file = (\<lambda>_. Inr sent),
      wo_file_name = (\<lambda>_. None), wo_now = 9, wo_nows = (9, 9, 9), wo_hex_decode = (\<lambda>_. None),
      wo_issue = (\<lambda>_ _ _ _. ()), wo_encode_chain = (\<lambda>_. []), wo_put_bytes = (\<lambda>_ _ _ s. (s, Inl [])),
      wo_stat = (\<lambda>_. (0, 0)), wo_path = (\<lambda>_. []), wo_store = (), wo_disk = fmempty, wo_polls = [], wo_fuse = False,
      wo_make_dir = (\<lambda>_. False), wo_session = (\<lambda>_ _ _. None)\<rparr>"

definition files_of :: "8 word \<Rightarrow> drive_files" where
  "files_of b = \<lparr>df_state = Some \<lparr>of_bytes = CEDRIVE_MAGIC @ [b], of_synced = True\<rparr>, df_state_tmp = None,
     df_legacy = None, df_journal = None, df_journal_tmp = None\<rparr>"

definition no_files :: drive_files where
  "no_files = \<lparr>df_state = None, df_state_tmp = None, df_legacy = None, df_journal = None, df_journal_tmp = None\<rparr>"

definition three_runs :: "((unit, unit) world \<times> cmd) list" where
  "three_runs =
     [(session_world, CmdAdd ''f'' (Some ''/docs/a.md'')), (session_world, CmdRm ''/nope''), (session_world, CmdLs ''/'')]"

lemma session_codec_ok: "codec_ok session_codec"
  by (auto simp: codec_ok_def session_codec_def split: if_splits)

lemma session_parts:
  "d_state d_added \<noteq> d_state w0"
  "\<not> isl (add_op (Inr sent) None (Some ''/docs/a.md'') (from_state (d_state w0)))"
  "isl (rm_op ''/nope'' (from_state (d_state d_added)))"
  "length (add_dest None (Some ''/docs/a.md'')) = 10"
  "ds_lamport (d_state w0) = 0" "ds_lamport (d_state d_added) = 3"
  by code_simp+

lemma session_load:
  "load session_codec (files_of 3) = Inr (from_state (d_state w0))"
  "load session_codec (files_of 4) = Inr (from_state (d_state d_added))"
  by (simp_all add: load_def load_state_def files_of_def decode_state_def session_codec_def lift_codec_def CEDRIVE_MAGIC_def)

lemma session_save:
  "save_state session_codec (d_state w0) no_files = (files_of 3, Inr ())"
  "save_state session_codec (d_state d_added) (files_of 3) = (files_of 4, Inr ())"
  using session_parts(1)
  by (simp_all add: save_state_def encode_state_def session_codec_def lift_codec_def saved files_of_def no_files_def)

lemma session_world_codec [simp]:
  "wo_codec session_world = session_codec" "wo_put_file session_world f = Inr sent" "wo_file_name session_world f = None"
  by (simp_all add: session_world_def)

lemma session_main:
  "main_files session_world (CmdAdd ''f'' (Some ''/docs/a.md'')) (files_of 3) = Some (files_of 4)"
  "main_files session_world (CmdRm ''/nope'') (files_of 4) = Some (files_of 4)"
  "main_files session_world (CmdLs ''/'') (files_of 4) = Some (files_of 4)"
proof -
  obtain x where "add_op (Inr sent) None (Some ''/docs/a.md'') (from_state (d_state w0)) = Inr (d_added, x)"
    using session_parts(2)
    by (cases "add_op (Inr sent) None (Some ''/docs/a.md'') (from_state (d_state w0))") (auto simp: d_added_def prod_eq_iff)
  then show "main_files session_world (CmdAdd ''f'' (Some ''/docs/a.md'')) (files_of 3) = Some (files_of 4)"
    by (simp add: main_files_def cmd_add_def update_drive_def session_load save_def session_save)
  show "main_files session_world (CmdRm ''/nope'') (files_of 4) = Some (files_of 4)"
    using session_parts(3)
    by (cases "rm_op ''/nope'' (from_state (d_state d_added))")
      (simp_all add: main_files_def cmd_rm_def update_drive_def session_load)
  show "main_files session_world (CmdLs ''/'') (files_of 4) = Some (files_of 4)"
    by (simp add: main_files_def)
qed


end
