(* ===== verification/Spec2Isabelle.thy ===== *)
theory Spec2Isabelle
  imports TreeProps DriveOpsProps Changes Share Sync VfsProps WasmDrive SearchProps StoreProps WindowsAdapter MacFuse LocalDrive AuditLog MaterializeProps CliMain
begin

text \<open>
  CE Drive: a replicated directory tree with content-addressed files.

  THE PROGRAM. A drive is a tree of directories and files that several devices change without a central
  server. Its state is two logs of operations: moves (create, rename, delete and restore are all moves of
  a node to a parent) and content operations (which content id a file has). Each operation is stamped with
  a Lamport clock and the replica that made it; the tree and the content map are folds of the logs in
  stamp order. File bytes are chunks addressed by their hash in a store outside the program. Around this
  core are a change feed, shares, a search index, a directory mirror, a mount engine with adapters for four
  kernel interfaces, a browser build and a command line. The code is under \<open>src/crates\<close>: \<open>ce-drive-core\<close>,
  \<open>ce-drive-mount\<close>, \<open>ce-drive-wasm\<close> and \<open>ce-drive-cli\<close>.

  HOW THE PARTS DEPEND ON EACH OTHER. \<open>tree.rs\<close> and \<open>content.rs\<close> know nothing of the rest. \<open>drive.rs\<close>
  owns one of each with the logs and the clock, and validates names with \<open>names.rs\<close>; \<open>changes.rs\<close>,
  \<open>search.rs\<close> and the whole mount crate read and change a drive through it. \<open>sync.rs\<close> offers the same
  operations over logs shared with other writers. The mount engine \<open>vfs.rs\<close> adds inodes, open files and
  write-back; the adapters translate kernel callbacks to it. \<open>materialize.rs\<close> copies a drive to a directory
  and back. The command line loads a drive from a file, applies one command and saves it. The browser
  crate has its own copy of the tree and the content map.

  THE THEORIES, bottom up; each opens with what it holds.

  Shared: \<open>Prelude\<close> (integers at their width, the string and sorting functions of the standard library,
  results as sums, ascending lists), \<open>OpLog\<close> (the locale \<open>convergent_log\<close>: a state machine whose visible
  state is a function of the set of operations it received; interpreted by the tree in \<open>TreeConverge\<close> and
  by the content half of a drive in \<open>DriveInv\<close>).

  The tree, \<open>tree.rs\<close>: \<open>DriveTree\<close> has the record of log, edges and child index, the undo, do and redo of
  \<open>integrate\<close> and every query; \<open>TreeConverge\<close> relates it to the replay of the sorted log, \<open>TreeAncestry\<close>
  shows it acyclic and the parent walks complete, \<open>TreeListing\<close> is about \<open>readdir\<close> and \<open>resolve\<close>,
  \<open>TreeProps\<close> holds the properties.

  The drive: \<open>Names\<close> (\<open>names.rs\<close>), \<open>ContentMap\<close> (\<open>content.rs\<close>), \<open>Drive\<close> (\<open>drive.rs\<close>: the state, the clock,
  every operation, the trash and compaction), \<open>DriveInv\<close> (the invariant of a drive and its building
  blocks), \<open>DriveOps\<close>, \<open>DriveTrash\<close>, \<open>Compaction\<close> and \<open>FreshIds\<close> (what the operations, the purge, the
  compaction loop and the ids do), \<open>DriveSteps\<close> (the drive as a step relation with its reachable states),
  \<open>DriveProps\<close> and \<open>DriveOpsProps\<close> (properties), \<open>LocalDrive\<close> (the typing of a single writer's drive),
  \<open>Reload\<close> (handles with equal persisted states are interchangeable).

  Around it: \<open>Changes\<close> (\<open>changes.rs\<close>), \<open>Share\<close> (\<open>share.rs\<close>), \<open>Sync\<close> (\<open>sync.rs\<close>), \<open>DirWalk\<close> (walking a drive
  by path), \<open>Search\<close> and \<open>SearchProps\<close> (\<open>search.rs\<close>), \<open>Store\<close> and \<open>StoreProps\<close> (\<open>store.rs\<close>,
  \<open>store_iface.rs\<close>), \<open>AuditLog\<close> (\<open>audit.rs\<close>, \<open>durability.rs\<close>).

  The mounts: \<open>Vfs\<close> and \<open>VfsProps\<close> (\<open>vfs.rs\<close>), \<open>Platform\<close> (\<open>winnames.rs\<close>, \<open>projfs_logic.rs\<close>), \<open>Fuse\<close> and
  \<open>FuseProps\<close> (\<open>linux_fuser.rs\<close>, with the error texts its error numbers are read from, and the mount
  options of both FUSE adapters), \<open>MacFuse\<close> (the callbacks of \<open>macos_fskit.rs\<close>, shown equal to the Linux
  ones), \<open>WindowsAdapter\<close> (\<open>windows.rs\<close>: WinFsp and ProjFS), \<open>Materialize\<close> and \<open>MaterializeProps\<close>
  (\<open>materialize.rs\<close> over an explicit disk).

  The ends: \<open>WasmCrdt\<close> (\<open>crdt.rs\<close>) and \<open>WasmDrive\<close> (\<open>lib.rs\<close>) of the browser crate; \<open>Cli\<close>, \<open>CliProps\<close> and
  \<open>CliMain\<close> (\<open>main.rs\<close>: the state file and its atomic replacement, every command, the main function,
  sessions of many runs).

  CONVENTIONS. A struct is a record and an enum a datatype with the source's constructors; an operation
  takes the state and gives the new one, or an error in a sum, in the order the code does things. Integers
  are words and wrap as in a release build; a sum that must not wrap has a hypothesis about room (\<open>room\<close>:
  the ticks an operation takes still fit the clock). Strings are byte lists. Hash maps are finite maps, and
  where the code iterates over one the model uses ascending order, sorting being what makes the result
  independent of it. Clocks, the process-wide id counter, the node, the kernel, encodings and packages
  outside the repository are arguments; what is assumed of them is a named hypothesis (\<open>codec_ok\<close>: a codec
  reads what it wrote; \<open>node_ok\<close>: a node returns what it stored) with an instance in the witness. Code that
  takes and releases a lock is split where the lock is released, so that interleavings can be written.

  LOOPS. The parent walks (\<open>is_ancestor\<close>, \<open>path\<close>) are bounded in the code by the number of edges, and the
  model has the same bound; \<open>TreeAncestry\<close> shows it enough. The queue of \<open>compact\<close> is a partial function
  whose value may be \<open>None\<close>, and compaction is proved to return. The recursions over directories
  (\<open>index_dir\<close>, \<open>materialize_dir\<close>, \<open>push_dir\<close>, \<open>sync_dir\<close>, \<open>print_tree\<close>) have fuel: two more than the number
  of edges (or of files on the disk), which a walk of a tree cannot exceed when names are usable path
  components; the properties of the index, the mirror and the push state that they return. The pages of a directory or of the change feed are
  read with fuel above the number of entries.

  WHAT THE LEMMAS SHOW.
  Convergence: a tree or a drive is a function of the set of its operations; merging content incrementally
  is the full fold; loading the saved logs is the identity; the browser's copy agrees with the core.
  Safety: the tree never has a cycle; authorized paths are within their scope; links never grant writing;
  fetched bytes are verified; a crash during a save loses nothing that was saved.
  Typing: in a drive changed by local operations only directories have children, names are valid and kinds
  are stable, which is what compaction needs.
  Function: each drive operation on all its branches; compaction keeps the tree and the current contents;
  trash, restore and purge; the change feed and its pages; the search index mirrors the tree and a query
  gives exactly the matching documents; stored files come back; reads and writes of an open file; a
  lookup and a listing through FUSE, a hydration through ProjFS.
  Refinement: the undo and redo of the tree implement sorted replay; the mirror on disk is the image of the
  tree and pushing it back changes nothing; each command does to the files what its operation does to a
  drive in memory, and a session of commands leaves files that hold a reachable drive.

  WHAT GOES WRONG. Closed theorems evaluate runs on which the code does not do what it means to: renaming
  over an existing file and writing during a flush (\<open>VfsProps\<close>), ids minted after a compaction
  (\<open>LocalDrive\<close>), content edits after a restart (\<open>Sync\<close>), scopes with trailing blanks (\<open>Share\<close>), content in
  the browser (\<open>WasmDrive\<close>), short queries and unnamed directories (\<open>SearchProps\<close>), offline audits
  (\<open>AuditLog\<close>, \<open>CliProps\<close>), files still to arrive and names of peers (\<open>MaterializeProps\<close>), the
  pages of \<open>readdirplus\<close> and the error numbers (\<open>FuseProps\<close>), enumeration, times, handles and case on
  Windows (\<open>WindowsAdapter\<close>), empty files in \<open>sync\<close> and new directories in a watching push (\<open>CliProps\<close>).

  NOT MODELLED. Packages outside the repository: \<open>ce-coord\<close> (the replicated logs under \<open>sync.rs\<close>, with
  what its \<open>add_writer\<close>, \<open>pull\<close> and \<open>checkpoint\<close> do), \<open>ce-cap\<close>, the node client, \<open>fuser\<close>, \<open>winfsp\<close>, the ProjFS
  calls, serde, bincode and zstd. Of the program itself: argument parsing and printing, the choice of
  directories from the environment, the serde attributes, the ownership of the ProjFS session and its raw
  pointers, and the conversion of results to JavaScript values. Symbolic links on the mirrored disk and the
  attributes of files other than mode and time are left out. Sessions of commands leave out push and
  mount, which do what the directory or the kernel asks; they are modelled, but the invariant of a session
  says nothing about them.
\<close>

end
